(* ===== verification/Prelude.thy ===== *)
theory Prelude
  imports Main "HOL-Library.Word"
begin

text \<open>
  Shared vocabulary of the development.  JavaScript strings are sequences of UTF-16
  code units, so a code unit is a \<open>16 word\<close> and a JS string is a list of them
  (\<open>jstr\<close>).  ASCII literals of the source are written \<open>js ''...''\<close>, which
  maps each character to its code unit; the few non-ASCII literals of the source are
  written out as code units.  Browser storage (\<open>localStorage\<close>,
  \<open>sessionStorage\<close>) is a partial map from keys to string values.  The theory also
  holds the generic lemmas on these types and on error results that the component
  theories share, and the named collections their proofs use.
\<close>

named_theorems js_lit "rewrite rules that turn JS string literals into code units"
named_theorems result_simps "rewrite rules for the error-or-value results of handlers"

type_synonym cu = "16 word"
type_synonym jstr = "cu list"
type_synonym storage = "jstr \<rightharpoonup> jstr"

definition js :: "string \<Rightarrow> jstr" where
  "js s = map (\<lambda>c. of_nat (of_char c)) s"

lemma js_Nil [simp, js_lit]: "js [] = []"
  by (simp add: js_def)

lemma js_Cons [js_lit]: "js (c # s) = of_nat (of_char c) # js s"
  by (simp add: js_def)

lemma js_append [simp]: "js (s @ t) = js s @ js t"
  by (simp add: js_def)

lemma length_js [simp]: "length (js s) = length s"
  by (simp add: js_def)

lemma js_eq_Nil_iff [simp]: "js s = [] \<longleftrightarrow> s = []"
  by (simp add: js_def)

lemma unat_of_char_cu [simp]: "unat (of_nat (of_char c) :: cu) = of_char c"
proof -
  have "of_char c < (256::nat)" by (rule nat_of_char_less_256)
  then have "of_char c < (65536::nat)" by linarith
  then show ?thesis by (simp add: unat_of_nat)
qed

lemma inj_of_char_cu: "inj (\<lambda>c::char. (of_nat (of_char c) :: cu))"
proof (rule injI)
  fix a b :: char
  assume "(of_nat (of_char a) :: cu) = of_nat (of_char b)"
  then have "unat (of_nat (of_char a) :: cu) = unat (of_nat (of_char b) :: cu)" by simp
  then show "a = b" by simp
qed

lemma js_inject [simp]: "js s = js t \<longleftrightarrow> s = t"
  using inj_of_char_cu by (simp add: js_def inj_map_eq_map)

lemma js_units_small: "c \<in> set (js s) \<Longrightarrow> unat c < 256"
  by (auto simp: js_def)

subsection \<open>Error results\<close>

text \<open>
  A handler that may throw returns \<open>js_error + 'a\<close>; the composition ``run the next
  statement unless the previous one threw'' is a case on the sum.  These rules let the
  simplifier read such compositions in both directions.
\<close>

lemma sum_case_Inl_eq [result_simps]:
  "(case x of Inl e \<Rightarrow> Inl e | Inr a \<Rightarrow> f a) = Inl e' \<longleftrightarrow>
     x = Inl e' \<or> (\<exists>a. x = Inr a \<and> f a = Inl e')"
  by (cases x) auto

lemma sum_case_Inr_eq [result_simps]:
  "(case x of Inl e \<Rightarrow> Inl e | Inr a \<Rightarrow> f a) = Inr b \<longleftrightarrow>
     (\<exists>a. x = Inr a \<and> f a = Inr b)"
  by (cases x) auto

end
