(* ===== verification/JsString.thy ===== *)
theory JsString
  imports Prelude
begin

text \<open>
  The JavaScript built-ins that \<open>src/scripts.js\<close> calls on strings, numbers and
  arrays, written from the ECMAScript specification since their code is not part of the
  repository: \<open>String.prototype.trim\<close> (with the WhiteSpace and LineTerminator code
  units it removes), \<open>Number.prototype.toString\<close> on the non-negative integers that
  \<open>Date.now()\<close> returns, the truthiness of a string (\<open>ToBoolean\<close>), and
  \<open>Array.prototype.findIndex\<close>, which answers \<open>-1\<close> when no element matches.
\<close>

subsection \<open>\<open>String.prototype.trim\<close>\<close>

definition is_ws :: "cu \<Rightarrow> bool" where
  "is_ws c \<longleftrightarrow>
     c \<in> {0x9, 0xA, 0xB, 0xC, 0xD, 0x20, 0xA0, 0x1680, 0x2028, 0x2029, 0x202F, 0x205F,
          0x3000, 0xFEFF} \<or> (0x2000 \<le> c \<and> c \<le> 0x200A)"

definition js_trim :: "jstr \<Rightarrow> jstr" where
  "js_trim s = rev (dropWhile is_ws (rev (dropWhile is_ws s)))"

text \<open>\<open>ToBoolean\<close> of a string: only the empty string is falsy.\<close>

definition truthy :: "jstr \<Rightarrow> bool" where
  "truthy s \<longleftrightarrow> s \<noteq> []"

subsection \<open>\<open>Number.prototype.toString\<close> on non-negative integers\<close>

definition digit :: "nat \<Rightarrow> cu" where
  "digit d = of_nat (48 + d)"

fun num_to_string :: "nat \<Rightarrow> jstr" where
  "num_to_string n =
     (if n < 10 then [digit n] else num_to_string (n div 10) @ [digit (n mod 10)])"

declare num_to_string.simps [simp del]

text \<open>Reading a decimal string back, the inverse used to prove \<open>num_to_string\<close> injective.\<close>

definition dec_value :: "jstr \<Rightarrow> nat" where
  "dec_value s = foldl (\<lambda>a c. 10 * a + (unat c - 48)) 0 s"

subsection \<open>\<open>Array.prototype.findIndex\<close>\<close>

fun find_index :: "('a \<Rightarrow> bool) \<Rightarrow> 'a list \<Rightarrow> int" where
  "find_index p [] = -1"
| "find_index p (x # xs) =
     (if p x then 0 else (let i = find_index p xs in if i = -1 then -1 else i + 1))"

subsection \<open>Trimming\<close>

lemma all_set_dropWhile_iff: "(\<forall>c\<in>set (dropWhile P s). P c) \<longleftrightarrow> dropWhile P s = []"
  by (induction s) auto

lemma js_trim_Nil_iff: "js_trim s = [] \<longleftrightarrow> (\<forall>c\<in>set s. is_ws c)"
proof -
  have "js_trim s = [] \<longleftrightarrow> (\<forall>c\<in>set (dropWhile is_ws s). is_ws c)"
    by (simp add: js_trim_def dropWhile_eq_Nil_conv)
  also have "\<dots> \<longleftrightarrow> dropWhile is_ws s = []"
    by (rule all_set_dropWhile_iff)
  also have "\<dots> \<longleftrightarrow> (\<forall>c\<in>set s. is_ws c)"
    by (rule dropWhile_eq_Nil_conv)
  finally show ?thesis .
qed

lemma js_trim_infix:
  "\<exists>p q. s = p @ js_trim s @ q \<and> (\<forall>c\<in>set p. is_ws c) \<and> (\<forall>c\<in>set q. is_ws c)"
proof -
  let ?d = "dropWhile is_ws s"
  have s: "s = takeWhile is_ws s @ ?d" by simp
  have d: "rev ?d = takeWhile is_ws (rev ?d) @ dropWhile is_ws (rev ?d)" by simp
  then have "?d = rev (dropWhile is_ws (rev ?d)) @ rev (takeWhile is_ws (rev ?d))"
    by (metis rev_append rev_rev_ident)
  then have "s = takeWhile is_ws s @ js_trim s @ rev (takeWhile is_ws (rev ?d))"
    using s by (simp add: js_trim_def)
  moreover have "\<forall>c\<in>set (takeWhile is_ws s). is_ws c"
    by (auto dest: set_takeWhileD)
  moreover have "\<forall>c\<in>set (rev (takeWhile is_ws (rev ?d))). is_ws c"
    by (auto dest: set_takeWhileD)
  ultimately show ?thesis by blast
qed

lemma hd_rev_dropWhile_rev:
  assumes "\<not> P (hd l)" and "l \<noteq> []"
  shows "hd (rev (dropWhile P (rev l))) = hd l"
proof -
  have l: "rev l = rev (tl l) @ [hd l]" using assms(2) by (cases l) auto
  show ?thesis using assms(1) by (subst l) (simp add: dropWhile_append)
qed

lemma js_trim_ends:
  assumes "js_trim s \<noteq> []"
  shows "\<not> is_ws (hd (js_trim s)) \<and> \<not> is_ws (last (js_trim s))"
proof
  let ?d = "dropWhile is_ws s"
  have ne: "dropWhile is_ws (rev ?d) \<noteq> []" using assms by (simp add: js_trim_def)
  then show "\<not> is_ws (last (js_trim s))"
    by (simp add: js_trim_def last_rev hd_dropWhile)
  have "?d \<noteq> []" using ne by (metis Nil_is_rev_conv dropWhile.simps(1))
  then have h: "\<not> is_ws (hd ?d)" by (rule hd_dropWhile)
  have "hd (rev (dropWhile is_ws (rev ?d))) = hd ?d"
    using h \<open>?d \<noteq> []\<close> by (rule hd_rev_dropWhile_rev)
  then show "\<not> is_ws (hd (js_trim s))"
    using h by (simp add: js_trim_def)
qed

lemma js_trim_id:
  assumes "s = [] \<or> (\<not> is_ws (hd s) \<and> \<not> is_ws (last s))"
  shows "js_trim s = s"
proof (cases "s = []")
  case True
  then show ?thesis by (simp add: js_trim_def)
next
  case False
  with assms have h: "\<not> is_ws (hd s)" and l: "\<not> is_ws (hd (rev s))"
    by (simp_all add: hd_rev)
  from h have "dropWhile is_ws s = s" by (simp add: dropWhile_eq_self_iff)
  moreover from l have "dropWhile is_ws (rev s) = rev s" by (simp add: dropWhile_eq_self_iff)
  ultimately show ?thesis by (simp add: js_trim_def)
qed

lemma js_trim_idem [simp]: "js_trim (js_trim s) = js_trim s"
  using js_trim_ends [of s] by (intro js_trim_id) blast

subsection \<open>Decimal strings\<close>

lemma unat_digit: "d < 10 \<Longrightarrow> unat (digit d) = 48 + d"
  unfolding digit_def by (subst unat_of_nat) simp

lemma dec_value_snoc: "dec_value (s @ [c]) = 10 * dec_value s + (unat c - 48)"
  by (simp add: dec_value_def)

lemma dec_value_num_to_string [simp]: "dec_value (num_to_string n) = n"
proof (induction n rule: num_to_string.induct)
  case (1 n)
  show ?case
  proof (cases "n < 10")
    case True
    then show ?thesis
      by (simp add: num_to_string.simps [of n] dec_value_def unat_digit)
  next
    case False
    with "1.IH" have "dec_value (num_to_string (n div 10)) = n div 10" by simp
    with False show ?thesis
      by (simp add: num_to_string.simps [of n] dec_value_snoc unat_digit)
  qed
qed

lemma num_to_string_inject [simp]: "num_to_string m = num_to_string n \<longleftrightarrow> m = n"
  by (metis dec_value_num_to_string)

lemma num_to_string_digits: "c \<in> set (num_to_string n) \<Longrightarrow> 48 \<le> unat c \<and> unat c \<le> 57"
proof (induction n rule: num_to_string.induct)
  case (1 n)
  then show ?case
    by (cases "n < 10") (auto simp: num_to_string.simps [of n] unat_digit)
qed

lemma num_to_string_ne [simp]: "num_to_string n \<noteq> []"
  by (simp add: num_to_string.simps [of n])

subsection \<open>Finding an index\<close>

lemma find_index_eq:
  "find_index p xs =
     (if \<exists>x\<in>set xs. p x then int (length (takeWhile (\<lambda>x. \<not> p x) xs)) else -1)"
  by (induction xs) (auto simp: Let_def)

lemma find_index_none: "find_index p xs = -1 \<longleftrightarrow> (\<forall>x\<in>set xs. \<not> p x)"
  by (simp add: find_index_eq)

lemma find_index_nth:
  "find_index p xs = int i \<Longrightarrow> i < length xs \<and> p (xs ! i) \<and> (\<forall>j<i. \<not> p (xs ! j))"
proof (induction xs arbitrary: i)
  case Nil
  then show ?case by simp
next
  case (Cons x xs)
  show ?case
  proof (cases "p x")
    case True
    with Cons.prems show ?thesis by simp
  next
    case False
    with Cons.prems obtain m where m: "i = Suc m" and k: "find_index p xs = int m"
      by (cases i) (auto simp: Let_def split: if_splits)
    from k have "m < length xs \<and> p (xs ! m) \<and> (\<forall>j<m. \<not> p (xs ! j))"
      by (rule Cons.IH)
    with False m show ?thesis by (auto simp: less_Suc_eq_0_disj)
  qed
qed

lemma find_index_first:
  assumes "i < length xs" and "p (xs ! i)" and "\<forall>j<i. \<not> p (xs ! j)"
  shows "find_index p xs = int i"
  using assms
proof (induction xs arbitrary: i)
  case Nil
  then show ?case by simp
next
  case (Cons x xs)
  show ?case
  proof (cases i)
    case 0
    with Cons.prems show ?thesis by simp
  next
    case (Suc k)
    with Cons.prems have "find_index p xs = int k" and "\<not> p x"
      by (auto intro!: Cons.IH)
    with Suc show ?thesis by simp
  qed
qed

end
