(* ===== verification/Json.thy ===== *)
theory Json
  imports JsString
begin

text \<open>
  \<open>JSON.stringify\<close> and \<open>JSON.parse\<close>, which \<open>guardarComidas\<close> and
  \<open>obtenerComidas\<close> call to move the list to and from \<open>localStorage\<close>.  Their
  code is not in the repository; they are written from ECMA-262 (SerializeJSONProperty,
  QuoteJSONString) and ECMA-404 (the JSON grammar).  JSON values are restricted to the
  kinds a stored list can contain: \<open>null\<close>, booleans, strings, arrays and objects
  (numbers are not modelled; a stored text containing one is rejected as corrupt).
  Strings are sequences of UTF-16 code units; \<open>JSON.stringify\<close> escapes the
  quote, the backslash and the control units, and writes a lone surrogate as a
  \<open>\u\<close> escape, as the well-formed \<open>JSON.stringify\<close> of ES2019 does.  The parser
  consumes its input by recursive descent; its recursion is bounded by a fuel argument,
  and \<open>json_parse\<close> gives it one unit more than the length of the text, which is
  enough for every text \<open>json_stringify\<close> produces (\<open>json_roundtrip\<close>).
\<close>

datatype json =
    JNull
  | JBool bool
  | JStr jstr
  | JArr "json list"
  | JObj "(jstr \<times> json) list"

subsection \<open>Serialisation\<close>

definition is_hi :: "cu \<Rightarrow> bool" where
  "is_hi c \<longleftrightarrow> 0xD800 \<le> c \<and> c \<le> 0xDBFF"

definition is_lo :: "cu \<Rightarrow> bool" where
  "is_lo c \<longleftrightarrow> 0xDC00 \<le> c \<and> c \<le> 0xDFFF"

definition hexd :: "nat \<Rightarrow> cu" where
  "hexd n = (if n < 10 then of_nat (48 + n) else of_nat (87 + n))"

text \<open>UnicodeEscape: a backslash, \<open>u\<close> and four lowercase hexadecimal digits.\<close>

definition u_escape :: "cu \<Rightarrow> jstr" where
  "u_escape c =
     [0x5C, 0x75, hexd (unat c div 4096), hexd (unat c div 256 mod 16),
      hexd (unat c div 16 mod 16), hexd (unat c mod 16)]"

text \<open>The escape of one code unit that is not half of a surrogate pair.\<close>

definition esc_unit :: "cu \<Rightarrow> jstr" where
  "esc_unit c =
     (if c = 0x8 then [0x5C, 0x62]
      else if c = 0x9 then [0x5C, 0x74]
      else if c = 0xA then [0x5C, 0x6E]
      else if c = 0xC then [0x5C, 0x66]
      else if c = 0xD then [0x5C, 0x72]
      else if c = 0x22 then [0x5C, 0x22]
      else if c = 0x5C then [0x5C, 0x5C]
      else if c < 0x20 \<or> (0xD800 \<le> c \<and> c \<le> 0xDFFF) then u_escape c
      else [c])"

fun quote_body :: "jstr \<Rightarrow> jstr" where
  "quote_body [] = []"
| "quote_body (c # d # r) =
     (if is_hi c \<and> is_lo d then c # d # quote_body r else esc_unit c @ quote_body (d # r))"
| "quote_body [c] = esc_unit c"

definition quote :: "jstr \<Rightarrow> jstr" where
  "quote s = 0x22 # quote_body s @ [0x22]"

fun join_comma :: "jstr list \<Rightarrow> jstr" where
  "join_comma [] = []"
| "join_comma (x # xs) = x @ concat (map (\<lambda>y. 0x2C # y) xs)"

fun json_stringify :: "json \<Rightarrow> jstr" where
  "json_stringify JNull = js ''null''"
| "json_stringify (JBool b) = (if b then js ''true'' else js ''false'')"
| "json_stringify (JStr s) = quote s"
| "json_stringify (JArr vs) = 0x5B # join_comma (map json_stringify vs) @ [0x5D]"
| "json_stringify (JObj ms) =
     0x7B # join_comma (map (\<lambda>(k, v). quote k @ 0x3A # json_stringify v) ms) @ [0x7D]"

subsection \<open>Parsing\<close>

definition is_json_ws :: "cu \<Rightarrow> bool" where
  "is_json_ws c \<longleftrightarrow> c = 0x20 \<or> c = 0x9 \<or> c = 0xA \<or> c = 0xD"

definition skip_ws :: "jstr \<Rightarrow> jstr" where
  "skip_ws s = dropWhile is_json_ws s"

definition hex_val :: "cu \<Rightarrow> nat option" where
  "hex_val c =
     (if 0x30 \<le> c \<and> c \<le> 0x39 then Some (unat c - 48)
      else if 0x61 \<le> c \<and> c \<le> 0x66 then Some (unat c - 87)
      else if 0x41 \<le> c \<and> c \<le> 0x46 then Some (unat c - 55)
      else None)"

definition hex4 :: "cu \<Rightarrow> cu \<Rightarrow> cu \<Rightarrow> cu \<Rightarrow> cu option" where
  "hex4 a b c d =
     (case (hex_val a, hex_val b, hex_val c, hex_val d) of
        (Some w, Some x, Some y, Some z) \<Rightarrow> Some (of_nat (w * 4096 + x * 256 + y * 16 + z))
      | _ \<Rightarrow> None)"

text \<open>The single-character escapes of ECMA-404.\<close>

definition simple_escape :: "cu \<Rightarrow> cu option" where
  "simple_escape e =
     (if e = 0x22 then Some 0x22
      else if e = 0x5C then Some 0x5C
      else if e = 0x2F then Some 0x2F
      else if e = 0x62 then Some 0x8
      else if e = 0x66 then Some 0xC
      else if e = 0x6E then Some 0xA
      else if e = 0x72 then Some 0xD
      else if e = 0x74 then Some 0x9
      else None)"

text \<open>The body of a string literal, after its opening quote: the decoded units and the
  input after the closing quote.\<close>

fun p_string :: "jstr \<Rightarrow> (jstr \<times> jstr) option" where
  "p_string [] = None"
| "p_string (c # r) =
     (if c = 0x22 then Some ([], r)
      else if c = 0x5C then
        (case r of
           [] \<Rightarrow> None
         | e # r' \<Rightarrow>
             if e = 0x75 then
               (case r' of
                  h1 # h2 # h3 # h4 # r'' \<Rightarrow>
                    (case hex4 h1 h2 h3 h4 of
                       None \<Rightarrow> None
                     | Some u \<Rightarrow> map_option (apfst (Cons u)) (p_string r''))
                | _ \<Rightarrow> None)
             else
               (case simple_escape e of
                  None \<Rightarrow> None
                | Some u \<Rightarrow> map_option (apfst (Cons u)) (p_string r')))
      else if c < 0x20 then None
      else map_option (apfst (Cons c)) (p_string r))"

fun p_value :: "nat \<Rightarrow> jstr \<Rightarrow> (json \<times> jstr) option"
  and p_elems :: "nat \<Rightarrow> jstr \<Rightarrow> (json list \<times> jstr) option"
  and p_member :: "nat \<Rightarrow> jstr \<Rightarrow> ((jstr \<times> json) \<times> jstr) option"
  and p_members :: "nat \<Rightarrow> jstr \<Rightarrow> ((jstr \<times> json) list \<times> jstr) option" where
  "p_value 0 s = None"
| "p_value (Suc f) s =
     (case skip_ws s of
        [] \<Rightarrow> None
      | c # r \<Rightarrow>
          if c = 0x6E then (if take 3 r = js ''ull'' then Some (JNull, drop 3 r) else None)
          else if c = 0x74 then
            (if take 3 r = js ''rue'' then Some (JBool True, drop 3 r) else None)
          else if c = 0x66 then
            (if take 4 r = js ''alse'' then Some (JBool False, drop 4 r) else None)
          else if c = 0x22 then map_option (apfst JStr) (p_string r)
          else if c = 0x5B then
            (if take 1 (skip_ws r) = [0x5D] then Some (JArr [], drop 1 (skip_ws r))
             else
               (case p_value f r of
                  None \<Rightarrow> None
                | Some (v, r1) \<Rightarrow> map_option (apfst (\<lambda>vs. JArr (v # vs))) (p_elems f r1)))
          else if c = 0x7B then
            (if take 1 (skip_ws r) = [0x7D] then Some (JObj [], drop 1 (skip_ws r))
             else
               (case p_member f r of
                  None \<Rightarrow> None
                | Some (m, r1) \<Rightarrow> map_option (apfst (\<lambda>ms. JObj (m # ms))) (p_members f r1)))
          else None)"
| "p_elems 0 s = None"
| "p_elems (Suc f) s =
     (case skip_ws s of
        [] \<Rightarrow> None
      | c # r \<Rightarrow>
          if c = 0x2C then
            (case p_value f r of
               None \<Rightarrow> None
             | Some (v, r1) \<Rightarrow> map_option (apfst (Cons v)) (p_elems f r1))
          else if c = 0x5D then Some ([], r)
          else None)"
| "p_member 0 s = None"
| "p_member (Suc f) s =
     (case skip_ws s of
        [] \<Rightarrow> None
      | c # r \<Rightarrow>
          if c = 0x22 then
            (case p_string r of
               None \<Rightarrow> None
             | Some (k, r1) \<Rightarrow>
                 (case skip_ws r1 of
                    [] \<Rightarrow> None
                  | d # r2 \<Rightarrow>
                      if d = 0x3A then map_option (apfst (Pair k)) (p_value f r2) else None))
          else None)"
| "p_members 0 s = None"
| "p_members (Suc f) s =
     (case skip_ws s of
        [] \<Rightarrow> None
      | c # r \<Rightarrow>
          if c = 0x2C then
            (case p_member f r of
               None \<Rightarrow> None
             | Some (m, r1) \<Rightarrow> map_option (apfst (Cons m)) (p_members f r1))
          else if c = 0x7D then Some ([], r)
          else None)"

definition json_parse :: "jstr \<Rightarrow> json option" where
  "json_parse s =
     (case p_value (Suc (length s)) s of
        None \<Rightarrow> None
      | Some (v, r) \<Rightarrow> if skip_ws r = [] then Some v else None)"

subsection \<open>Recognising every JSON text\<close>

text \<open>\<open>json_parse\<close> builds the values the code stores, which have no numbers.
  \<open>JSON.parse\<close> also accepts numbers, so a text it accepts and \<open>json_parse\<close> rejects
  is not a syntax error.  \<open>json_valido\<close> recognises the whole grammar of ECMA-404,
  numbers included (\<open>-? (0 | [1-9][0-9]* ) (. [0-9]+)? ([eE] [+-]? [0-9]+)?\<close>), with the
  same fuel as the parser; it tells the text \<open>JSON.parse\<close> throws on from the text it
  reads into a value the model does not represent.\<close>

definition is_digit :: "cu \<Rightarrow> bool" where
  "is_digit c \<longleftrightarrow> 0x30 \<le> c \<and> c \<le> 0x39"

fun r_digits1 :: "jstr \<Rightarrow> jstr option" where
  "r_digits1 [] = None"
| "r_digits1 (c # r) = (if is_digit c then Some (dropWhile is_digit r) else None)"

definition r_int :: "jstr \<Rightarrow> jstr option" where
  "r_int s =
     (case s of
        [] \<Rightarrow> None
      | c # r \<Rightarrow> if c = 0x30 then Some r else if is_digit c then Some (dropWhile is_digit r) else None)"

definition r_frac :: "jstr \<Rightarrow> jstr option" where
  "r_frac s = (case s of [] \<Rightarrow> Some [] | c # r \<Rightarrow> if c = 0x2E then r_digits1 r else Some s)"

definition r_exp :: "jstr \<Rightarrow> jstr option" where
  "r_exp s =
     (case s of
        [] \<Rightarrow> Some []
      | c # r \<Rightarrow>
          if c = 0x65 \<or> c = 0x45 then
            r_digits1 (case r of [] \<Rightarrow> [] | d # r' \<Rightarrow> if d = 0x2B \<or> d = 0x2D then r' else r)
          else Some s)"

definition r_number :: "jstr \<Rightarrow> jstr option" where
  "r_number s =
     (let s1 = (case s of [] \<Rightarrow> [] | c # r \<Rightarrow> if c = 0x2D then r else s) in
      case r_int s1 of
        None \<Rightarrow> None
      | Some s2 \<Rightarrow> (case r_frac s2 of None \<Rightarrow> None | Some s3 \<Rightarrow> r_exp s3))"

fun r_value :: "nat \<Rightarrow> jstr \<Rightarrow> jstr option"
  and r_elems :: "nat \<Rightarrow> jstr \<Rightarrow> jstr option"
  and r_member :: "nat \<Rightarrow> jstr \<Rightarrow> jstr option"
  and r_members :: "nat \<Rightarrow> jstr \<Rightarrow> jstr option" where
  "r_value 0 s = None"
| "r_value (Suc f) s =
     (case skip_ws s of
        [] \<Rightarrow> None
      | c # r \<Rightarrow>
          if c = 0x6E then (if take 3 r = js ''ull'' then Some (drop 3 r) else None)
          else if c = 0x74 then (if take 3 r = js ''rue'' then Some (drop 3 r) else None)
          else if c = 0x66 then (if take 4 r = js ''alse'' then Some (drop 4 r) else None)
          else if c = 0x22 then map_option snd (p_string r)
          else if c = 0x5B then
            (if take 1 (skip_ws r) = [0x5D] then Some (drop 1 (skip_ws r))
             else (case r_value f r of None \<Rightarrow> None | Some r1 \<Rightarrow> r_elems f r1))
          else if c = 0x7B then
            (if take 1 (skip_ws r) = [0x7D] then Some (drop 1 (skip_ws r))
             else (case r_member f r of None \<Rightarrow> None | Some r1 \<Rightarrow> r_members f r1))
          else if c = 0x2D \<or> is_digit c then r_number (c # r)
          else None)"
| "r_elems 0 s = None"
| "r_elems (Suc f) s =
     (case skip_ws s of
        [] \<Rightarrow> None
      | c # r \<Rightarrow>
          if c = 0x2C then (case r_value f r of None \<Rightarrow> None | Some r1 \<Rightarrow> r_elems f r1)
          else if c = 0x5D then Some r
          else None)"
| "r_member 0 s = None"
| "r_member (Suc f) s =
     (case skip_ws s of
        [] \<Rightarrow> None
      | c # r \<Rightarrow>
          if c = 0x22 then
            (case p_string r of
               None \<Rightarrow> None
             | Some (k, r1) \<Rightarrow>
                 (case skip_ws r1 of
                    [] \<Rightarrow> None
                  | d # r2 \<Rightarrow> if d = 0x3A then r_value f r2 else None))
          else None)"
| "r_members 0 s = None"
| "r_members (Suc f) s =
     (case skip_ws s of
        [] \<Rightarrow> None
      | c # r \<Rightarrow>
          if c = 0x2C then (case r_member f r of None \<Rightarrow> None | Some r1 \<Rightarrow> r_members f r1)
          else if c = 0x7D then Some r
          else None)"

definition json_valido :: "jstr \<Rightarrow> bool" where
  "json_valido s = (case r_value (Suc (length s)) s of None \<Rightarrow> False | Some r \<Rightarrow> skip_ws r = [])"

text \<open>The fuel the parser needs for the text of a value: one unit per nesting level and
  per element or member, as each call of \<open>p_value\<close>, \<open>p_elems\<close>, \<open>p_member\<close>
  and \<open>p_members\<close> spends one.\<close>

fun fuel_need :: "json \<Rightarrow> nat" where
  "fuel_need (JArr vs) = sum_list (map (\<lambda>v. Suc (fuel_need v)) vs)"
| "fuel_need (JObj ms) = sum_list (map (\<lambda>(k, v). Suc (Suc (fuel_need v))) ms)"
| "fuel_need _ = 0"


subsection \<open>Round trip\<close>

lemma unat_hexd: "unat (hexd n) = (if n < 10 then 48 + n else 87 + n) mod 65536"
  unfolding hexd_def by (cases "n < 10") (simp_all only: if_True if_False unat_of_nat, simp_all)
lemma hex_val_unat:
  "hex_val c =
     (if 48 \<le> unat c \<and> unat c \<le> 57 then Some (unat c - 48)
      else if 97 \<le> unat c \<and> unat c \<le> 102 then Some (unat c - 87)
      else if 65 \<le> unat c \<and> unat c \<le> 70 then Some (unat c - 55)
      else None)"
  by (simp add: hex_val_def word_le_nat_alt)
lemma hex_val_hexd: "n < 16 \<Longrightarrow> hex_val (hexd n) = Some n"
  by (simp add: hex_val_unat unat_hexd)
lemma digits4: "(n::nat) div 4096 * 4096 + n div 256 mod 16 * 256 + n div 16 mod 16 * 16 + n mod 16 = n"
proof -
  have a: "n = n div 16 * 16 + n mod 16" by simp
  have "n div 256 = n div 16 div 16" using div_mult2_eq [of n 16 16] by simp
  then have b: "n div 16 = n div 256 * 16 + n div 16 mod 16"
    using div_mult_mod_eq [of "n div 16" 16] by simp
  have "n div 4096 = n div 256 div 16" using div_mult2_eq [of n 256 16] by simp
  then have c: "n div 256 = n div 4096 * 16 + n div 256 mod 16"
    using div_mult_mod_eq [of "n div 256" 16] by simp
  from a b c show ?thesis by linarith
qed
lemma hex4_u_escape:
  "hex4 (hexd (unat c div 4096)) (hexd (unat c div 256 mod 16)) (hexd (unat c div 16 mod 16)) (hexd (unat c mod 16)) = Some c"
proof -
  have n: "unat c < 65536" using unsigned_less [of c] by simp
  then have "unat c div 4096 < 16" by simp
  with n show ?thesis by (simp add: hex4_def hex_val_hexd digits4)
qed

lemma p_string_raw:
  "c \<noteq> 0x22 \<Longrightarrow> c \<noteq> 0x5C \<Longrightarrow> \<not> c < 0x20 \<Longrightarrow>
   p_string (c # t) = map_option (apfst (Cons c)) (p_string t)"
  by simp
lemma surrogate_plain:
  assumes "0xD800 \<le> (c::cu)" shows "c \<noteq> 0x22 \<and> c \<noteq> 0x5C \<and> \<not> c < 0x20"
  using assms by (auto simp: word_le_nat_alt word_less_nat_alt)
lemma esc_unit_parse:
  "p_string (esc_unit c @ t) = map_option (apfst (Cons c)) (p_string t)"
  by (simp add: esc_unit_def u_escape_def simple_escape_def hex4_u_escape)
lemma p_string_quote_body: "p_string (quote_body s @ 0x22 # t) = Some (s, t)"
proof (induction s rule: quote_body.induct)
  case 1
  then show ?case by simp
next
  case (2 c d r)
  show ?case
  proof (cases "is_hi c \<and> is_lo d")
    case True
    then have "0xD800 \<le> c" and "0xD800 \<le> d" by (auto simp: is_hi_def is_lo_def word_le_nat_alt)
    with True "2.IH"(1) show ?thesis by (simp add: surrogate_plain)
  next
    case False
    then have "quote_body (c # d # r) = esc_unit c @ quote_body (d # r)"
      by (simp only: quote_body.simps(2) if_not_P [OF False] if_False)
    with "2.IH"(2) [OF False] show ?thesis by (simp add: esc_unit_parse)
  qed
next
  case (3 c)
  then show ?case by (simp add: esc_unit_parse)
qed

lemma stringify_start:
  "\<exists>c r. json_stringify v = c # r \<and> c \<in> {0x6E, 0x74, 0x66, 0x22, 0x5B, 0x7B}"
  by (cases v) (simp_all add: quote_def js_def)

lemma skip_ws_stringify: "skip_ws (json_stringify v @ t) = json_stringify v @ t"
  using stringify_start [of v] by (auto simp: skip_ws_def is_json_ws_def)

lemma take1_stringify: "take 1 (json_stringify v @ t) \<noteq> [0x5D] \<and> take 1 (json_stringify v @ t) \<noteq> [0x7D]"
  using stringify_start [of v] by auto

lemma p_elems_stringify:
  assumes "\<forall>v\<in>set vs. \<forall>f t. fuel_need v < f \<longrightarrow> p_value f (json_stringify v @ t) = Some (v, t)"
    and "sum_list (map (\<lambda>v. Suc (fuel_need v)) vs) < f"
  shows "p_elems f (concat (map (\<lambda>y. 0x2C # y) (map json_stringify vs)) @ 0x5D # t) = Some (vs, t)"
  using assms
proof (induction vs arbitrary: f)
  case Nil
  then obtain f' where "f = Suc f'" by (cases f) auto
  then show ?case by (simp add: skip_ws_def is_json_ws_def)
next
  case (Cons v vs)
  from Cons.prems(2) obtain f' where f: "f = Suc f'" by (cases f) auto
  let ?rest = "concat (map (\<lambda>y. 0x2C # y) (map json_stringify vs)) @ 0x5D # t"
  from Cons.prems(2) f have lt: "fuel_need v < f'" by simp
  from Cons.prems(1) have "\<forall>g u. fuel_need v < g \<longrightarrow> p_value g (json_stringify v @ u) = Some (v, u)"
    by simp
  with lt have v: "p_value f' (json_stringify v @ ?rest) = Some (v, ?rest)" by blast
  have "\<forall>v\<in>set vs. \<forall>f t. fuel_need v < f \<longrightarrow> p_value f (json_stringify v @ t) = Some (v, t)"
    using Cons.prems(1) by simp
  moreover have "sum_list (map (\<lambda>v. Suc (fuel_need v)) vs) < f'"
    using Cons.prems(2) f by simp
  ultimately have vs: "p_elems f' ?rest = Some (vs, t)" by (rule Cons.IH)
  have "concat (map (\<lambda>y. 0x2C # y) (map json_stringify (v # vs))) @ 0x5D # t
      = 0x2C # json_stringify v @ ?rest" by simp
  then show ?case
    using v vs unfolding f by (simp add: skip_ws_def is_json_ws_def)
qed

lemma p_member_stringify:
  assumes "p_value f (json_stringify v @ t) = Some (v, t)"
  shows "p_member (Suc f) (quote k @ 0x3A # json_stringify v @ t) = Some ((k, v), t)"
  using assms by (simp add: quote_def skip_ws_def is_json_ws_def p_string_quote_body)

lemma p_members_stringify:
  assumes "\<forall>(k, v)\<in>set ms. \<forall>f t. fuel_need v < f \<longrightarrow> p_value f (json_stringify v @ t) = Some (v, t)"
    and "sum_list (map (\<lambda>(k, v). Suc (Suc (fuel_need v))) ms) < f"
  shows "p_members f (concat (map (\<lambda>y. 0x2C # y) (map (\<lambda>(k, v). quote k @ 0x3A # json_stringify v) ms)) @ 0x7D # t)
    = Some (ms, t)"
  using assms
proof (induction ms arbitrary: f)
  case Nil
  then obtain f' where "f = Suc f'" by (cases f) auto
  then show ?case by (simp add: skip_ws_def is_json_ws_def)
next
  case (Cons m ms)
  obtain k v where m: "m = (k, v)" by (cases m)
  from Cons.prems obtain f' where f: "f = Suc f'" by (cases f) auto
  let ?rest = "concat (map (\<lambda>y. 0x2C # y) (map (\<lambda>(k, v). quote k @ 0x3A # json_stringify v) ms)) @ 0x7D # t"
  from Cons.prems f m obtain f'' where f': "f' = Suc f''" and "fuel_need v < f''"
    by (cases f') auto
  with Cons.prems m have "p_value f'' (json_stringify v @ ?rest) = Some (v, ?rest)" by auto
  then have mem: "p_member f' (quote k @ 0x3A # json_stringify v @ ?rest) = Some ((k, v), ?rest)"
    unfolding f' by (rule p_member_stringify)
  from Cons.prems f m have "p_members f' ?rest = Some (ms, t)"
    by (intro Cons.IH) auto
  with mem f m show ?case by (simp add: skip_ws_def is_json_ws_def)
qed

lemma p_value_arr:
  assumes "skip_ws s = 0x5B # r" and "take 1 (skip_ws r) \<noteq> [0x5D]"
  shows "p_value (Suc f) s =
    (case p_value f r of
       None \<Rightarrow> None
     | Some (v, r1) \<Rightarrow> map_option (apfst (\<lambda>vs. JArr (v # vs))) (p_elems f r1))"
  using assms by simp

lemma p_value_obj:
  assumes "skip_ws s = 0x7B # r" and "take 1 (skip_ws r) \<noteq> [0x7D]"
  shows "p_value (Suc f) s =
    (case p_member f r of
       None \<Rightarrow> None
     | Some (m, r1) \<Rightarrow> map_option (apfst (\<lambda>ms. JObj (m # ms))) (p_members f r1))"
  using assms by simp

lemma skip_ws_Cons: "\<not> is_json_ws c \<Longrightarrow> skip_ws (c # r) = c # r"
  by (simp add: skip_ws_def)

lemma p_value_stringify:
  "fuel_need v < f \<Longrightarrow> p_value f (json_stringify v @ t) = Some (v, t)"
proof (induction v arbitrary: f t rule: json_stringify.induct)
  case 1
  then show ?case by (cases f) (simp_all add: skip_ws_def is_json_ws_def js_def)
next
  case (2 b)
  then show ?case by (cases f) (simp_all add: skip_ws_def is_json_ws_def js_def)
next
  case (3 s)
  then show ?case
    by (cases f) (simp_all add: skip_ws_def is_json_ws_def quote_def p_string_quote_body)
next
  case (4 vs)
  from "4.prems" obtain f' where f: "f = Suc f'" by (cases f) auto
  show ?case
  proof (cases vs)
    case Nil
    with f show ?thesis by (simp add: skip_ws_def is_json_ws_def)
  next
    case (Cons v vs')
    let ?rest = "concat (map (\<lambda>y. 0x2C # y) (map json_stringify vs')) @ 0x5D # t"
    from "4.prems" f Cons have "fuel_need v < f'" by simp
    with "4.IH" Cons have v: "p_value f' (json_stringify v @ ?rest) = Some (v, ?rest)" by simp
    from "4.IH" "4.prems" f Cons have "p_elems f' ?rest = Some (vs', t)"
      by (intro p_elems_stringify) auto
    moreover have ws: "skip_ws (json_stringify (JArr vs) @ t) = 0x5B # (json_stringify v @ ?rest)"
      using Cons by (simp add: skip_ws_def is_json_ws_def)
    moreover have tk: "take 1 (skip_ws (json_stringify v @ ?rest)) \<noteq> [0x5D]"
      by (metis skip_ws_stringify take1_stringify)
    ultimately show ?thesis
      using v Cons unfolding f by (simp only: p_value_arr [OF ws tk]) simp
  qed
next
  case (5 ms)
  have IH: "p_value g (json_stringify v @ u) = Some (v, u)"
    if "(k, v) \<in> set ms" and "fuel_need v < g" for k v g u
    using that by (rule "5.IH" [OF _ refl])
  from "5.prems" obtain f' where f: "f = Suc f'" by (cases f) auto
  show ?case
  proof (cases ms)
    case Nil
    with f show ?thesis by (simp add: skip_ws_def is_json_ws_def)
  next
    case (Cons m ms')
    obtain k v where m: "m = (k, v)" by (cases m)
    let ?rest = "concat (map (\<lambda>y. 0x2C # y) (map (\<lambda>(k, v). quote k @ 0x3A # json_stringify v) ms')) @ 0x7D # t"
    from "5.prems" f Cons m obtain f'' where f': "f' = Suc f''" and "fuel_need v < f''"
      by (cases f') auto
    then have "p_value f'' (json_stringify v @ ?rest) = Some (v, ?rest)"
      by (intro IH [of k]) (simp_all add: Cons m)
    then have mem: "p_member f' (quote k @ 0x3A # json_stringify v @ ?rest) = Some ((k, v), ?rest)"
      unfolding f' by (rule p_member_stringify)
    have "\<forall>(k, v)\<in>set ms'. \<forall>g u. fuel_need v < g \<longrightarrow> p_value g (json_stringify v @ u) = Some (v, u)"
      using IH Cons by auto
    moreover have "sum_list (map (\<lambda>(k, v). Suc (Suc (fuel_need v))) ms') < f'"
      using "5.prems" f Cons m by simp
    ultimately have "p_members f' ?rest = Some (ms', t)"
      by (rule p_members_stringify)
    moreover have ws: "skip_ws (json_stringify (JObj ms) @ t) = 0x7B # (quote k @ 0x3A # json_stringify v @ ?rest)"
      using Cons m by (simp add: skip_ws_def is_json_ws_def)
    moreover have tk: "take 1 (skip_ws (quote k @ 0x3A # json_stringify v @ ?rest)) \<noteq> [0x7D]"
      by (simp add: quote_def skip_ws_def is_json_ws_def)
    ultimately show ?thesis
      using mem Cons m unfolding f by (simp only: p_value_obj [OF ws tk]) simp
  qed
qed

lemma length_join_comma_ge: "sum_list (map length xs) \<le> length (join_comma xs)"
proof (cases xs)
  case Nil
  then show ?thesis by simp
next
  case (Cons x ys)
  have "sum_list (map length ys) \<le> sum_list (map (\<lambda>y. Suc (length y)) ys)"
    by (rule sum_list_mono) simp
  with Cons show ?thesis by (simp add: length_concat comp_def)
qed

lemma fuel_need_less: "fuel_need v < length (json_stringify v)"
proof (induction v rule: json_stringify.induct)
  case (4 vs)
  have "sum_list (map (\<lambda>v. Suc (fuel_need v)) vs) \<le> sum_list (map (\<lambda>v. length (json_stringify v)) vs)"
    using "4.IH" by (intro sum_list_mono) (simp add: Suc_le_eq)
  also have "\<dots> \<le> length (join_comma (map json_stringify vs))"
    using length_join_comma_ge [of "map json_stringify vs"] by (simp add: comp_def)
  finally show ?case by simp
next
  case (5 ms)
  let ?m = "\<lambda>(k, v). quote k @ 0x3A # json_stringify v"
  have IH: "fuel_need v < length (json_stringify v)" if "(k, v) \<in> set ms" for k v
    using that by (rule "5.IH" [OF _ refl])
  have "sum_list (map (\<lambda>(k, v). Suc (Suc (fuel_need v))) ms) \<le> sum_list (map (\<lambda>x. length (?m x)) ms)"
    by (intro sum_list_mono) (auto simp: quote_def dest: IH)
  also have "\<dots> \<le> length (join_comma (map ?m ms))"
    using length_join_comma_ge [of "map ?m ms"] by (simp add: comp_def)
  finally show ?case by simp
qed (simp_all add: quote_def js_def)

lemma json_parse_stringify_ws:
  assumes "\<forall>c\<in>set w. is_json_ws c"
  shows "json_parse (json_stringify v @ w) = Some v"
proof -
  have "fuel_need v < Suc (length (json_stringify v @ w))"
    using fuel_need_less [of v] by simp
  then have "p_value (Suc (length (json_stringify v @ w))) (json_stringify v @ w) = Some (v, w)"
    by (rule p_value_stringify)
  moreover have "skip_ws w = []"
    using assms by (simp add: skip_ws_def dropWhile_eq_Nil_conv)
  ultimately show ?thesis by (simp add: json_parse_def)
qed

text \<open>C2: \<open>JSON.parse\<close> inverts \<open>JSON.stringify\<close> on every JSON value of the model:
  strings with quotes, backslashes, control units and unpaired surrogates, and arrays and
  objects nested to any depth.\<close>

theorem json_roundtrip: "json_parse (json_stringify v) = Some v"
  using json_parse_stringify_ws [of "[]" v] by simp

end
