(* ===== verification/Store.thy ===== *)
theory Store
  imports Json
begin

text \<open>
  The persistent list store of \<open>src/scripts.js\<close>: the meal record, the two storage
  keys, and \<open>obtenerComidas\<close> / \<open>guardarComidas\<close>, which read and write the whole
  list under the key \<open>listaComidasCompartida\<close> of \<open>localStorage\<close> through
  \<open>JSON.parse\<close> and \<open>JSON.stringify\<close>.  A meal is the object
  \<open>{id, nombre, seleccionadoPor}\<close> that \<open>agregarComida\<close> builds; the field
  \<open>id\<close> is \<open>comida_id\<close> here, since \<open>id\<close> names the identity function of HOL.
  \<open>JSON.parse\<close> throws on a malformed text, and a stored value that is not an array
  makes every caller throw a \<open>TypeError\<close> at its first use of it (\<open>forEach\<close>,
  \<open>push\<close>, \<open>findIndex\<close>), before any write; both are the error
  \<open>StorageCorrupt\<close> of the model, raised by \<open>obtenerComidas\<close>.  A stored value
  the code reads without throwing but the model does not represent is
  \<open>FueraDeModelo\<close>: valid JSON with a number, or an array with an element that is not
  a meal object (\<open>null\<close>, a string, an object whose \<open>id\<close> or \<open>nombre\<close> is
  not a string).  The code renders such elements as \<open>undefined\<close> or throws at a
  \<open>null\<close> one after \<open>agregarComida\<close> has written; the model gives them no
  behaviour (the step relation of \<open>App\<close> has no step from them).  A missing
  \<open>seleccionadoPor\<close> reads as \<open>null\<close>, as \<open>undefined\<close> does in every test
  of the code.
\<close>

datatype js_error = StorageCorrupt | FueraDeModelo

record comida =
  comida_id :: jstr
  nombre :: jstr
  seleccionadoPor :: "jstr option"

definition STORAGE_KEY :: jstr where
  "STORAGE_KEY = js ''listaComidasCompartida''"

definition NOTIFICATION_KEY :: jstr where
  "NOTIFICATION_KEY = js ''comidaSeleccionadaNotificacion''"

text \<open>The truthiness test \<open>c.seleccionadoPor\<close> of the code: \<open>null\<close> and the
  empty string are falsy.\<close>

definition seleccionada :: "comida \<Rightarrow> bool" where
  "seleccionada c \<longleftrightarrow> (case seleccionadoPor c of None \<Rightarrow> False | Some p \<Rightarrow> truthy p)"

subsection \<open>Encoding a meal as JSON\<close>

definition comida_to_json :: "comida \<Rightarrow> json" where
  "comida_to_json c =
     JObj [(js ''id'', JStr (comida_id c)), (js ''nombre'', JStr (nombre c)),
           (js ''seleccionadoPor'',
            (case seleccionadoPor c of None \<Rightarrow> JNull | Some p \<Rightarrow> JStr p))]"

text \<open>Property lookup on a parsed object: of two equal keys the later one wins, as in the
  object \<open>JSON.parse\<close> builds.\<close>

definition obj_get :: "(jstr \<times> json) list \<Rightarrow> jstr \<Rightarrow> json option" where
  "obj_get ms k = map_of (rev ms) k"

fun comida_of_json :: "json \<Rightarrow> comida option" where
  "comida_of_json (JObj ms) =
     (case (obj_get ms (js ''id''), obj_get ms (js ''nombre''), obj_get ms (js ''seleccionadoPor'')) of
        (Some (JStr i), Some (JStr n), None) \<Rightarrow>
          Some \<lparr>comida_id = i, nombre = n, seleccionadoPor = None\<rparr>
      | (Some (JStr i), Some (JStr n), Some JNull) \<Rightarrow>
          Some \<lparr>comida_id = i, nombre = n, seleccionadoPor = None\<rparr>
      | (Some (JStr i), Some (JStr n), Some (JStr p)) \<Rightarrow>
          Some \<lparr>comida_id = i, nombre = n, seleccionadoPor = Some p\<rparr>
      | _ \<Rightarrow> None)"
| "comida_of_json _ = None"

fun comidas_of_json :: "json \<Rightarrow> comida list option" where
  "comidas_of_json (JArr vs) = those (map comida_of_json vs)"
| "comidas_of_json _ = None"

subsection \<open>\<open>obtenerComidas\<close> and \<open>guardarComidas\<close>\<close>

text \<open>\<open>comidasJson ? JSON.parse(comidasJson) : []\<close>: an absent key and the empty
  string both give the empty list; a text \<open>JSON.parse\<close> throws on, or a value that is
  not an array, is \<open>StorageCorrupt\<close>; an array the model does not represent, or a text
  with a number, is \<open>FueraDeModelo\<close>.\<close>

definition obtenerComidas :: "storage \<Rightarrow> js_error + comida list" where
  "obtenerComidas ls =
     (case ls STORAGE_KEY of
        None \<Rightarrow> Inr []
      | Some t \<Rightarrow>
          if truthy t then
            (case json_parse t of
               None \<Rightarrow> if json_valido t then Inl FueraDeModelo else Inl StorageCorrupt
             | Some v \<Rightarrow>
                 (case v of
                    JArr _ \<Rightarrow>
                      (case comidas_of_json v of None \<Rightarrow> Inl FueraDeModelo | Some cs \<Rightarrow> Inr cs)
                  | _ \<Rightarrow> Inl StorageCorrupt))
          else Inr [])"

definition guardarComidas :: "comida list \<Rightarrow> storage \<Rightarrow> storage" where
  "guardarComidas cs ls = ls(STORAGE_KEY \<mapsto> json_stringify (JArr (map comida_to_json cs)))"

subsection \<open>Round trip and frame\<close>

lemma comida_of_json_to_json [simp]: "comida_of_json (comida_to_json c) = Some c"
  by (cases "seleccionadoPor c") (simp_all add: comida_to_json_def obj_get_def)

lemma comidas_of_json_to_json [simp]:
  "comidas_of_json (JArr (map comida_to_json cs)) = Some cs"
  by (induction cs) simp_all

lemma storage_text_truthy: "truthy (json_stringify (JArr vs))"
  by (simp add: truthy_def)

lemma obtener_guardar [simp]: "obtenerComidas (guardarComidas cs ls) = Inr cs"
  using json_parse_stringify_ws [of "[]" "JArr (map comida_to_json cs)"]
  by (simp add: obtenerComidas_def guardarComidas_def storage_text_truthy
      del: json_stringify.simps comidas_of_json.simps)

lemma guardar_other_key: "k \<noteq> STORAGE_KEY \<Longrightarrow> guardarComidas cs ls k = ls k"
  by (simp add: guardarComidas_def)

lemma guardar_guardar [simp]: "guardarComidas cs (guardarComidas cs' ls) = guardarComidas cs ls"
  by (simp add: guardarComidas_def)

lemma obtener_cong: "ls STORAGE_KEY = ls' STORAGE_KEY \<Longrightarrow> obtenerComidas ls = obtenerComidas ls'"
  by (simp add: obtenerComidas_def)

lemma obtener_empty [simp]: "obtenerComidas Map.empty = Inr []"
  by (simp add: obtenerComidas_def)

text \<open>C1: the store round trip.  Reading back what \<open>guardarComidas\<close> wrote gives the same
  list, in the same order, whatever its strings hold, and the write touches no other key of
  \<open>localStorage\<close>.\<close>

theorem store_roundtrip:
  "obtenerComidas (guardarComidas cs ls) = Inr cs \<and>
   (guardarComidas cs ls)(STORAGE_KEY := None) = ls(STORAGE_KEY := None)"
  by (intro conjI obtener_guardar) (simp add: guardarComidas_def)

end
