(* ===== verification/Browser.thy ===== *)
theory Browser
  imports Store
begin

text \<open>
  The part of the browser one page of \<open>src/scripts.js\<close> reads and writes: its
  \<open>localStorage\<close> (shared with the other tabs of the origin), the
  \<open>sessionStorage\<close> of its own tab, the DOM elements the script touches
  (\<open>#lista-comidas\<close>, \<open>#total-comidas\<close>, \<open>#restantes-comidas\<close>,
  \<open>#input-comida\<close>), and the messages \<open>alert\<close> has shown, oldest first.
  An element that \<open>renderizarComidas\<close> appends to the list is an \<open>item_view\<close>: the
  values its template string gives to the class, the heading, the selection paragraph,
  and the button's \<open>data-id\<close>, \<open>disabled\<close> attribute and label (the label without
  the indentation the template puts around it).
\<close>

record item_view =
  iv_class :: jstr
  iv_titulo :: jstr
  iv_info :: jstr
  iv_data_id :: jstr
  iv_disabled :: bool
  iv_label :: jstr

record dom =
  lista :: "item_view list"
  total_comidas :: jstr
  restantes_comidas :: jstr
  input_comida :: jstr

record page =
  local_st :: storage
  session_st :: storage
  doc :: dom
  alerts :: "jstr list"

definition alert :: "jstr \<Rightarrow> page \<Rightarrow> page" where
  "alert m p = p\<lparr>alerts := alerts p @ [m]\<rparr>"

lemma alert_fields [simp]:
  "local_st (alert m p) = local_st p" "session_st (alert m p) = session_st p"
  "doc (alert m p) = doc p" "alerts (alert m p) = alerts p @ [m]"
  by (simp_all add: alert_def)

end
