(* ===== verification/Mailbox.thy ===== *)
theory Mailbox
  imports Browser
begin

text \<open>
  The notification mailbox: the single slot \<open>comidaSeleccionadaNotificacion\<close> of
  \<open>sessionStorage\<close>.  \<open>seleccionarComida\<close> posts a message into it with
  \<open>sessionStorage.setItem\<close> (\<open>post\<close>, which overwrites an unread message), and
  \<open>checkNotification\<close> drains it: a truthy message is shown with \<open>alert\<close> and
  removed; an absent or empty one leaves the page as it is.  The specification's
  single-slot mailbox (\<open>post_spec\<close>, \<open>drain_spec\<close>) is the abstract contract
  these two implement (\<open>mailbox_refina\<close>).
\<close>

definition post :: "jstr \<Rightarrow> page \<Rightarrow> page" where
  "post m p = p\<lparr>session_st := (session_st p)(NOTIFICATION_KEY \<mapsto> m)\<rparr>"

definition checkNotification :: "page \<Rightarrow> page" where
  "checkNotification p =
     (case session_st p NOTIFICATION_KEY of
        None \<Rightarrow> p
      | Some m \<Rightarrow>
          if truthy m
          then (alert m p)\<lparr>session_st := (session_st p)(NOTIFICATION_KEY := None)\<rparr>
          else p)"

text \<open>No message waits in the slot: it is absent, or empty and so never shown.\<close>

definition mailbox_empty :: "page \<Rightarrow> bool" where
  "mailbox_empty p \<longleftrightarrow> (case session_st p NOTIFICATION_KEY of None \<Rightarrow> True | Some m \<Rightarrow> \<not> truthy m)"

text \<open>The specification's mailbox (section 4.2): at most one pending message;
  \<open>post\<close> overwrites it, \<open>drain\<close> returns it and leaves the slot empty.  A page
  holds the message \<open>buzon_de\<close> says, the one \<open>checkNotification\<close> would show.\<close>

definition post_spec :: "jstr \<Rightarrow> jstr option \<Rightarrow> jstr option" where
  "post_spec m b = Some m"

definition drain_spec :: "jstr option \<Rightarrow> jstr option \<times> jstr option" where
  "drain_spec b = (b, None)"

definition buzon_de :: "page \<Rightarrow> jstr option" where
  "buzon_de p = (case session_st p NOTIFICATION_KEY of None \<Rightarrow> None | Some m \<Rightarrow> if truthy m then Some m else None)"

subsection \<open>Draining\<close>

lemma checkNotification_frame [simp]:
  "local_st (checkNotification p) = local_st p" "doc (checkNotification p) = doc p"
  by (simp_all add: checkNotification_def split: option.splits)

lemma checkNotification_empty: "mailbox_empty p \<Longrightarrow> checkNotification p = p"
  by (simp add: checkNotification_def mailbox_empty_def split: option.splits)

lemma checkNotification_drains [simp]: "mailbox_empty (checkNotification p)"
  by (simp add: checkNotification_def mailbox_empty_def split: option.splits)

lemma checkNotification_shows:
  "session_st p NOTIFICATION_KEY = Some m \<Longrightarrow> truthy m \<Longrightarrow>
   checkNotification p = p\<lparr>alerts := alerts p @ [m], session_st := (session_st p)(NOTIFICATION_KEY := None)\<rparr>"
  by (simp add: checkNotification_def alert_def)

lemma checkNotification_idem [simp]: "checkNotification (checkNotification p) = checkNotification p"
  by (simp add: checkNotification_empty)

lemma checkNotification_alerts:
  "alerts (checkNotification p) = alerts p \<or>
   (\<exists>m. session_st p NOTIFICATION_KEY = Some m \<and> truthy m \<and> alerts (checkNotification p) = alerts p @ [m])"
  by (simp add: checkNotification_def split: option.splits)

lemma post_fields [simp]:
  "local_st (post m p) = local_st p" "doc (post m p) = doc p" "alerts (post m p) = alerts p"
  by (simp_all add: post_def)

lemma post_post [simp]: "post m2 (post m1 p) = post m2 p"
  by (simp add: post_def)

text \<open>C12: the mailbox holds one message.  Of two posts before a drain only the second is
  shown, once; the slot is then empty and a second drain shows nothing.\<close>

theorem mailbox_single_slot:
  assumes "truthy m2"
  shows "alerts (checkNotification (post m2 (post m1 p))) = alerts p @ [m2] \<and>
    mailbox_empty (checkNotification (post m2 (post m1 p))) \<and>
    checkNotification (checkNotification (post m2 (post m1 p))) = checkNotification (post m2 (post m1 p))"
proof -
  have "session_st (post m2 p) NOTIFICATION_KEY = Some m2" by (simp add: post_def)
  then have "alerts (checkNotification (post m2 p)) = alerts p @ [m2]"
    using assms by (simp add: checkNotification_shows)
  then show ?thesis by simp
qed

theorem mailbox_single_slot_witness:
  "truthy (js ''dos'') \<and>
   alerts (checkNotification (post (js ''dos'') (post (js ''uno'')
     \<lparr>local_st = Map.empty, session_st = Map.empty,
      doc = \<lparr>lista = [], total_comidas = [], restantes_comidas = [], input_comida = []\<rparr>,
      alerts = [js ''hola'']\<rparr>))) = [js ''hola'', js ''dos'']"
  using mailbox_single_slot [of "js ''dos''" "js ''uno''"
    "\<lparr>local_st = Map.empty, session_st = Map.empty,
      doc = \<lparr>lista = [], total_comidas = [], restantes_comidas = [], input_comida = []\<rparr>,
      alerts = [js ''hola'']\<rparr>"]
  by (simp add: truthy_def)

subsection \<open>The code implements the specification's mailbox\<close>

text \<open>C28: \<open>post\<close> and \<open>checkNotification\<close> implement the specification's
  single-slot mailbox.  Seen through \<open>buzon_de\<close>, posting a non-empty message is
  \<open>post_spec\<close> (posting the empty string, which the code never does, leaves no message),
  and \<open>checkNotification\<close> is \<open>drain_spec\<close>: it shows the drained message, if
  any, as one more alert and leaves the slot empty.\<close>

theorem mailbox_refina:
  "buzon_de (post m p) = (if truthy m then post_spec m (buzon_de p) else None) \<and>
   buzon_de (checkNotification p) = snd (drain_spec (buzon_de p)) \<and>
   alerts (checkNotification p) =
     alerts p @ (case fst (drain_spec (buzon_de p)) of None \<Rightarrow> [] | Some m \<Rightarrow> [m])"
proof (intro conjI)
  show "buzon_de (post m p) = (if truthy m then post_spec m (buzon_de p) else None)"
    by (simp add: buzon_de_def post_def post_spec_def)
  show "buzon_de (checkNotification p) = snd (drain_spec (buzon_de p))"
    by (cases "session_st p NOTIFICATION_KEY") (simp_all add: buzon_de_def drain_spec_def checkNotification_def)
  show "alerts (checkNotification p) =
     alerts p @ (case fst (drain_spec (buzon_de p)) of None \<Rightarrow> [] | Some m \<Rightarrow> [m])"
    by (cases "session_st p NOTIFICATION_KEY") (simp_all add: buzon_de_def drain_spec_def checkNotification_def alert_def)
qed

end
