(* ===== verification/Render.thy ===== *)
theory Render
  imports Mailbox
begin

text \<open>
  The render projection: \<open>actualizarContador\<close> (the two counters of the header) and
  \<open>renderizarComidas\<close>, which reloads the list from \<open>localStorage\<close>, replaces the
  children of \<open>#lista-comidas\<close> by one element per meal built from the template
  string, updates the counters, and ends by draining the mailbox with
  \<open>checkNotification\<close>.  A corrupt stored list makes \<open>obtenerComidas\<close> throw
  before the container is cleared, so the page is then left as it was.
\<close>

definition MSG_SIN_ELEGIR :: jstr where
  "MSG_SIN_ELEGIR = js ''<p>A'' @ [0xFA] @ js ''n sin elegir...</p>''"

definition LABEL_LIBRE :: jstr where
  "LABEL_LIBRE = [0xA1] @ js ''Yo lo Hago!''"

definition actualizarContador :: "comida list \<Rightarrow> page \<Rightarrow> page" where
  "actualizarContador cs p =
     p\<lparr>doc := (doc p)\<lparr>total_comidas := num_to_string (length cs),
        restantes_comidas := num_to_string (length (filter (\<lambda>c. \<not> seleccionada c) cs))\<rparr>\<rparr>"

definition info_seleccion :: "comida \<Rightarrow> jstr" where
  "info_seleccion c =
     (case seleccionadoPor c of
        Some p \<Rightarrow>
          if truthy p then js ''<p>Seleccionado por: <strong>'' @ p @ js ''</strong></p>''
          else MSG_SIN_ELEGIR
      | None \<Rightarrow> MSG_SIN_ELEGIR)"

definition item_of_comida :: "comida \<Rightarrow> item_view" where
  "item_of_comida c =
     \<lparr>iv_class = js ''comida-item '' @ (if seleccionada c then js ''seleccionada'' else []),
      iv_titulo = nombre c,
      iv_info = info_seleccion c,
      iv_data_id = comida_id c,
      iv_disabled = seleccionada c,
      iv_label = (if seleccionada c then js ''Ya Seleccionado'' else LABEL_LIBRE)\<rparr>"

text \<open>The body of \<open>renderizarComidas\<close> after the list is loaded: redraw the list,
  update the counters, drain the mailbox.\<close>

definition pintarComidas :: "comida list \<Rightarrow> page \<Rightarrow> page" where
  "pintarComidas cs p =
     checkNotification (actualizarContador cs (p\<lparr>doc := (doc p)\<lparr>lista := map item_of_comida cs\<rparr>\<rparr>))"

definition renderizarComidas :: "page \<Rightarrow> js_error + page" where
  "renderizarComidas p =
     (case obtenerComidas (local_st p) of
        Inl e \<Rightarrow> Inl e
      | Inr cs \<Rightarrow> Inr (pintarComidas cs p))"

text \<open>A page with the list \<open>cs\<close> stored and nothing else, for the concrete instances.\<close>

abbreviation pagina_con :: "comida list \<Rightarrow> page" where
  "pagina_con cs \<equiv>
     \<lparr>local_st = guardarComidas cs Map.empty, session_st = Map.empty,
      doc = \<lparr>lista = [], total_comidas = [], restantes_comidas = [], input_comida = []\<rparr>,
      alerts = []\<rparr>"

subsection \<open>What a render produces\<close>

lemma actualizarContador_fields [simp]:
  "local_st (actualizarContador cs p) = local_st p"
  "session_st (actualizarContador cs p) = session_st p"
  "alerts (actualizarContador cs p) = alerts p"
  "lista (doc (actualizarContador cs p)) = lista (doc p)"
  "input_comida (doc (actualizarContador cs p)) = input_comida (doc p)"
  by (simp_all add: actualizarContador_def)

lemma render_Inr: "obtenerComidas (local_st p) = Inr cs \<Longrightarrow> renderizarComidas p = Inr (pintarComidas cs p)"
  by (simp add: renderizarComidas_def)

lemma pintar_fields [simp]:
  "local_st (pintarComidas cs p) = local_st p"
  "mailbox_empty (pintarComidas cs p)"
  by (simp_all add: pintarComidas_def)

lemma pintar_doc:
  "doc (pintarComidas cs p) = (doc p)\<lparr>lista := map item_of_comida cs,
     total_comidas := num_to_string (length cs),
     restantes_comidas := num_to_string (length (filter (\<lambda>c. \<not> seleccionada c) cs))\<rparr>"
  by (simp add: pintarComidas_def actualizarContador_def)

lemma pintar_alerts:
  "alerts (pintarComidas cs p) =
     alerts p @ (case session_st p NOTIFICATION_KEY of Some m \<Rightarrow> if truthy m then [m] else [] | None \<Rightarrow> [])"
  by (simp add: pintarComidas_def checkNotification_def actualizarContador_def split: option.splits)

lemma render_Inl_iff: "renderizarComidas p = Inl e \<longleftrightarrow> obtenerComidas (local_st p) = Inl e"
  by (cases "obtenerComidas (local_st p)") (simp_all add: renderizarComidas_def)

lemma render_ok_iff: "(\<exists>p'. renderizarComidas p = Inr p') \<longleftrightarrow> (\<exists>cs. obtenerComidas (local_st p) = Inr cs)"
  by (cases "obtenerComidas (local_st p)") (simp_all add: renderizarComidas_def)

lemma render_local [simp]: "renderizarComidas p = Inr p' \<Longrightarrow> local_st p' = local_st p"
  by (cases "obtenerComidas (local_st p)") (auto simp: renderizarComidas_def)

lemma render_mailbox_empty: "renderizarComidas p = Inr p' \<Longrightarrow> mailbox_empty p'"
  by (cases "obtenerComidas (local_st p)") (auto simp: renderizarComidas_def)

lemma item_disabled_iff [simp]: "iv_disabled (item_of_comida c) = seleccionada c"
  by (simp add: item_of_comida_def)

lemma item_data_id [simp]: "iv_data_id (item_of_comida c) = comida_id c"
  by (simp add: item_of_comida_def)

lemma pintar_counts:
  "dec_value (total_comidas (doc (pintarComidas cs p))) = length cs \<and>
   dec_value (restantes_comidas (doc (pintarComidas cs p))) = length (filter (\<lambda>c. \<not> seleccionada c) cs)"
  by (simp add: pintar_doc)

text \<open>C11: the counters a render writes are the total number of stored meals and the
  number of those not yet selected (read back as decimal numbers), the list shows one
  element per stored meal in order, and an element's button is disabled exactly when its
  meal is selected.\<close>

theorem render_counts:
  assumes "obtenerComidas (local_st p) = Inr cs" and "renderizarComidas p = Inr p'"
  shows "dec_value (total_comidas (doc p')) = length cs \<and>
    dec_value (restantes_comidas (doc p')) = length (filter (\<lambda>c. \<not> seleccionada c) cs) \<and>
    map iv_data_id (lista (doc p')) = map comida_id cs \<and>
    map iv_disabled (lista (doc p')) = map seleccionada cs"
proof -
  from assms have p': "p' = pintarComidas cs p" by (simp add: render_Inr)
  show ?thesis
    using pintar_counts [of cs p] unfolding p' by (simp add: pintar_doc comp_def)
qed

theorem render_counts_witness:
  "obtenerComidas (local_st (pagina_con [\<lparr>comida_id = js ''1'', nombre = js ''Tacos'', seleccionadoPor = Some (js ''Ana'')\<rparr>,
       \<lparr>comida_id = js ''2'', nombre = js ''Pizza'', seleccionadoPor = None\<rparr>])) =
     Inr [\<lparr>comida_id = js ''1'', nombre = js ''Tacos'', seleccionadoPor = Some (js ''Ana'')\<rparr>,
       \<lparr>comida_id = js ''2'', nombre = js ''Pizza'', seleccionadoPor = None\<rparr>] \<and>
   (\<exists>p'. renderizarComidas (pagina_con [\<lparr>comida_id = js ''1'', nombre = js ''Tacos'', seleccionadoPor = Some (js ''Ana'')\<rparr>,
       \<lparr>comida_id = js ''2'', nombre = js ''Pizza'', seleccionadoPor = None\<rparr>]) = Inr p' \<and>
     dec_value (total_comidas (doc p')) = 2 \<and> dec_value (restantes_comidas (doc p')) = 1 \<and>
     map iv_disabled (lista (doc p')) = [True, False])"
proof -
  let ?cs = "[\<lparr>comida_id = js ''1'', nombre = js ''Tacos'', seleccionadoPor = Some (js ''Ana'')\<rparr>,
       \<lparr>comida_id = js ''2'', nombre = js ''Pizza'', seleccionadoPor = None\<rparr>]"
  have l: "obtenerComidas (local_st (pagina_con ?cs)) = Inr ?cs" by simp
  have r: "renderizarComidas (pagina_con ?cs) = Inr (pintarComidas ?cs (pagina_con ?cs))"
    by (rule render_Inr [OF l])
  show ?thesis
    using render_counts [OF l r] r by (simp add: seleccionada_def truthy_def)
qed

subsection \<open>Re-rendering\<close>

lemma pintar_pintar: "pintarComidas cs (pintarComidas cs p) = pintarComidas cs p"
proof -
  have m: "mailbox_empty (pintarComidas cs p)" by simp
  have "actualizarContador cs ((pintarComidas cs p)\<lparr>doc := (doc (pintarComidas cs p))\<lparr>lista := map item_of_comida cs\<rparr>\<rparr>) =
        pintarComidas cs p"
    by (simp add: pintar_doc actualizarContador_def)
  then show ?thesis using checkNotification_empty [OF m] by (simp add: pintarComidas_def [of cs "pintarComidas cs p"])
qed

text \<open>C26: rendering is idempotent.  A second \<open>renderizarComidas\<close> on the page a render
  left changes nothing: the same list, the same counters, no second alert, since the first
  render drained the mailbox.\<close>

theorem render_idempotente:
  assumes "renderizarComidas p = Inr p'"
  shows "renderizarComidas p' = Inr p'"
proof -
  obtain cs where o: "obtenerComidas (local_st p) = Inr cs"
    using assms render_ok_iff by blast
  with assms have p': "p' = pintarComidas cs p" by (simp add: render_Inr)
  from o have "obtenerComidas (local_st p') = Inr cs" by (simp add: p')
  then show ?thesis by (simp add: render_Inr p' pintar_pintar)
qed

theorem render_idempotente_witness:
  "renderizarComidas (pagina_con [\<lparr>comida_id = js ''1'', nombre = js ''Tacos'', seleccionadoPor = None\<rparr>]) =
     Inr (pintarComidas [\<lparr>comida_id = js ''1'', nombre = js ''Tacos'', seleccionadoPor = None\<rparr>]
       (pagina_con [\<lparr>comida_id = js ''1'', nombre = js ''Tacos'', seleccionadoPor = None\<rparr>])) \<and>
   renderizarComidas (pintarComidas [\<lparr>comida_id = js ''1'', nombre = js ''Tacos'', seleccionadoPor = None\<rparr>]
       (pagina_con [\<lparr>comida_id = js ''1'', nombre = js ''Tacos'', seleccionadoPor = None\<rparr>])) =
     Inr (pintarComidas [\<lparr>comida_id = js ''1'', nombre = js ''Tacos'', seleccionadoPor = None\<rparr>]
       (pagina_con [\<lparr>comida_id = js ''1'', nombre = js ''Tacos'', seleccionadoPor = None\<rparr>]))"
proof -
  let ?L = "[\<lparr>comida_id = js ''1'', nombre = js ''Tacos'', seleccionadoPor = None\<rparr>]"
  have r: "renderizarComidas (pagina_con ?L) = Inr (pintarComidas ?L (pagina_con ?L))"
    by (rule render_Inr) simp
  from render_idempotente [OF r] r show ?thesis by simp
qed

end
