(* ===== verification/Selection.thy ===== *)
theory Selection
  imports Render
begin

text \<open>
  The two handlers that change the list.  \<open>agregarComida\<close> reads and trims
  \<open>#input-comida\<close>, and for a non-empty name appends a new meal whose id is
  \<open>Date.now().toString()\<close> (the clock value is the argument \<open>now\<close>), saves the
  list, clears the input and re-renders.  \<open>seleccionarComida\<close> loads the list, finds
  the meal by id with \<open>findIndex\<close>, and if it exists and is not selected asks the user
  for a name with \<open>prompt\<close>; with a non-blank answer it records the trimmed name,
  saves the list, posts the announcement to the mailbox and re-renders, and otherwise it
  shows one of two alerts.  \<open>prompt\<close> blocks the page until the user answers, while
  other tabs go on running, so the handler is split at that point:
  \<open>seleccionar_inicio\<close> runs the code before the prompt and returns the list it loaded
  and the index it found, and \<open>seleccionar_fin\<close> runs the rest with the answer
  (\<open>None\<close> for Cancel, which makes \<open>prompt\<close> return \<open>null\<close>).
  \<open>seleccionarComida\<close> is the two run back to back, as in one tab on its own.
\<close>

definition MSG_YA_SELECCIONADA :: jstr where
  "MSG_YA_SELECCIONADA = js ''Esta comida ya fue seleccionada.''"

definition MSG_NOMBRE :: jstr where
  "MSG_NOMBRE = js ''Debes ingresar un nombre para seleccionar la comida.''"

text \<open>The announcement, which starts with the megaphone emoji (a surrogate pair) and an
  inverted exclamation mark.\<close>

definition aviso :: "jstr \<Rightarrow> jstr \<Rightarrow> jstr" where
  "aviso quien que =
     [0xD83D, 0xDCE2] @ js '' '' @ [0xA1] @ js ''AVISO! '' @ quien @ js '' ha seleccionado: '' @ que"

definition agregarComida :: "nat \<Rightarrow> page \<Rightarrow> js_error + page" where
  "agregarComida now p =
     (let nombre = js_trim (input_comida (doc p)) in
      if truthy nombre then
        (case obtenerComidas (local_st p) of
           Inl e \<Rightarrow> Inl e
         | Inr cs \<Rightarrow>
             (let cs' = cs @ [\<lparr>comida_id = num_to_string now, nombre = nombre, seleccionadoPor = None\<rparr>];
                  p1 = p\<lparr>local_st := guardarComidas cs' (local_st p)\<rparr>;
                  p2 = p1\<lparr>doc := (doc p1)\<lparr>input_comida := []\<rparr>\<rparr>
              in renderizarComidas p2))
      else Inr p)"

type_synonym pending = "comida list \<times> nat"

definition seleccionar_inicio :: "jstr \<Rightarrow> page \<Rightarrow> js_error + (page \<times> pending option)" where
  "seleccionar_inicio comidaId p =
     (case obtenerComidas (local_st p) of
        Inl e \<Rightarrow> Inl e
      | Inr cs \<Rightarrow>
          (let i = find_index (\<lambda>c. comida_id c = comidaId) cs in
           if i \<noteq> -1 \<and> \<not> seleccionada (cs ! nat i) then Inr (p, Some (cs, nat i))
           else Inr (alert MSG_YA_SELECCIONADA p, None)))"

definition seleccionar_fin :: "pending \<Rightarrow> jstr option \<Rightarrow> page \<Rightarrow> js_error + page" where
  "seleccionar_fin pend respuesta p =
     (let (cs, i) = pend in
      case respuesta of
        Some u \<Rightarrow>
          if truthy u \<and> js_trim u \<noteq> [] then
            (let nombreLimpio = js_trim u;
                 cs' = cs[i := (cs ! i)\<lparr>seleccionadoPor := Some nombreLimpio\<rparr>];
                 p1 = p\<lparr>local_st := guardarComidas cs' (local_st p)\<rparr>;
                 p2 = post (aviso nombreLimpio (nombre (cs' ! i))) p1
             in renderizarComidas p2)
          else Inr (alert MSG_NOMBRE p)
      | None \<Rightarrow> Inr (alert MSG_NOMBRE p))"

definition seleccionarComida :: "jstr \<Rightarrow> jstr option \<Rightarrow> page \<Rightarrow> js_error + page" where
  "seleccionarComida comidaId respuesta p =
     (case seleccionar_inicio comidaId p of
        Inl e \<Rightarrow> Inl e
      | Inr (p', None) \<Rightarrow> Inr p'
      | Inr (p', Some pend) \<Rightarrow> seleccionar_fin pend respuesta p')"

text \<open>A page as a tab shows it after loading, with the list \<open>cs\<close> stored and nothing
  typed, used by the concrete instances below.\<close>

abbreviation pagina :: "comida list \<Rightarrow> jstr \<Rightarrow> page" where
  "pagina cs inp \<equiv>
     \<lparr>local_st = guardarComidas cs Map.empty, session_st = Map.empty,
      doc = \<lparr>lista = [], total_comidas = [], restantes_comidas = [], input_comida = inp\<rparr>,
      alerts = []\<rparr>"

subsection \<open>The contract of a claim\<close>

text \<open>
  The specification's \<open>claim\<close> as a function on the list: \<open>NotFound\<close> when no meal has
  the id, \<open>AlreadyClaimed\<close> when the first meal with the id is selected, \<open>EmptyName\<close>
  when the candidate name trims to nothing, and otherwise the list with that meal selected
  by the trimmed name.  \<open>claim_message\<close> is the alert the code shows for each error.
\<close>

datatype claim_error = EmptyName | NotFound | AlreadyClaimed

definition claim_spec :: "comida list \<Rightarrow> jstr \<Rightarrow> jstr \<Rightarrow> claim_error + comida list" where
  "claim_spec L cid cand =
     (if \<forall>c\<in>set L. comida_id c \<noteq> cid then Inl NotFound
      else
        (let i = length (takeWhile (\<lambda>c. comida_id c \<noteq> cid) L) in
         if seleccionada (L ! i) then Inl AlreadyClaimed
         else if js_trim cand = [] then Inl EmptyName
         else Inr (L[i := (L ! i)\<lparr>seleccionadoPor := Some (js_trim cand)\<rparr>])))"

fun claim_message :: "claim_error \<Rightarrow> jstr" where
  "claim_message NotFound = MSG_YA_SELECCIONADA"
| "claim_message AlreadyClaimed = MSG_YA_SELECCIONADA"
| "claim_message EmptyName = MSG_NOMBRE"

subsection \<open>Adding a meal\<close>

lemma agregar_blank: "js_trim (input_comida (doc p)) = [] \<Longrightarrow> agregarComida now p = Inr p"
  by (simp add: agregarComida_def truthy_def)

lemma agregar_eq:
  assumes "js_trim (input_comida (doc p)) \<noteq> []" and "obtenerComidas (local_st p) = Inr cs"
  shows "agregarComida now p =
    Inr (pintarComidas (cs @ [\<lparr>comida_id = num_to_string now, nombre = js_trim (input_comida (doc p)),
                               seleccionadoPor = None\<rparr>])
          (p\<lparr>local_st := guardarComidas (cs @ [\<lparr>comida_id = num_to_string now,
                 nombre = js_trim (input_comida (doc p)), seleccionadoPor = None\<rparr>]) (local_st p),
             doc := (doc p)\<lparr>input_comida := []\<rparr>\<rparr>))"
  using assms by (simp add: agregarComida_def truthy_def Let_def render_Inr)

lemma agregar_Inl: "agregarComida now p = Inl e \<Longrightarrow> obtenerComidas (local_st p) = Inl e"
  by (cases "obtenerComidas (local_st p)")
     (auto simp: agregarComida_def Let_def render_Inr split: if_splits)

subsection \<open>Selecting a meal\<close>

lemma seleccionar_Inl: "obtenerComidas (local_st p) = Inl e \<Longrightarrow> seleccionarComida cid r p = Inl e"
  by (simp add: seleccionarComida_def seleccionar_inicio_def)

lemma seleccionar_inicio_libre:
  assumes "obtenerComidas (local_st p) = Inr cs" and "find_index (\<lambda>c. comida_id c = cid) cs = int i"
    and "\<not> seleccionada (cs ! i)"
  shows "seleccionar_inicio cid p = Inr (p, Some (cs, i))"
  using assms by (simp add: seleccionar_inicio_def)

lemma seleccionar_inicio_rechaza:
  assumes "obtenerComidas (local_st p) = Inr cs"
    and "(\<forall>c\<in>set cs. comida_id c \<noteq> cid) \<or>
         (\<exists>i. find_index (\<lambda>c. comida_id c = cid) cs = int i \<and> seleccionada (cs ! i))"
  shows "seleccionar_inicio cid p = Inr (alert MSG_YA_SELECCIONADA p, None)"
  using assms by (auto simp: seleccionar_inicio_def find_index_none [symmetric])

lemma seleccionar_fin_ok:
  assumes "js_trim u \<noteq> []" and "i < length cs"
  shows "seleccionar_fin (cs, i) (Some u) p =
    Inr (pintarComidas (cs[i := (cs ! i)\<lparr>seleccionadoPor := Some (js_trim u)\<rparr>])
          (post (aviso (js_trim u) (nombre (cs ! i)))
            (p\<lparr>local_st := guardarComidas (cs[i := (cs ! i)\<lparr>seleccionadoPor := Some (js_trim u)\<rparr>]) (local_st p)\<rparr>)))"
proof -
  from assms(1) have "truthy u" by (auto simp: truthy_def js_trim_def)
  with assms show ?thesis by (simp add: seleccionar_fin_def render_Inr Let_def)
qed

lemma seleccionar_fin_sin_nombre:
  "r = None \<or> (\<exists>u. r = Some u \<and> js_trim u = []) \<Longrightarrow> seleccionar_fin (cs, i) r p = Inr (alert MSG_NOMBRE p)"
  by (auto simp: seleccionar_fin_def)

lemma aviso_truthy [simp]: "truthy (aviso q n)"
  by (simp add: aviso_def truthy_def)

lemma find_index_update_same:
  "P x = P (xs ! i) \<Longrightarrow> find_index P (xs[i := x]) = find_index P xs"
proof (induction xs arbitrary: i)
  case Nil
  then show ?case by simp
next
  case (Cons y ys)
  then show ?case by (cases i) (simp_all add: Let_def)
qed

lemma seleccionar_rechazo:
  assumes "obtenerComidas (local_st p) = Inr cs"
    and "(\<forall>c\<in>set cs. comida_id c \<noteq> cid) \<or>
         (\<exists>i. find_index (\<lambda>c. comida_id c = cid) cs = int i \<and> seleccionada (cs ! i))"
  shows "seleccionarComida cid r p = Inr (alert MSG_YA_SELECCIONADA p)"
  using seleccionar_inicio_rechaza [OF assms] by (simp add: seleccionarComida_def)

lemma seleccionar_exito_eq:
  assumes "obtenerComidas (local_st p) = Inr cs"
    and "find_index (\<lambda>c. comida_id c = cid) cs = int i"
    and "\<not> seleccionada (cs ! i)" and "js_trim u \<noteq> []"
  shows "seleccionarComida cid (Some u) p =
    Inr (pintarComidas (cs[i := (cs ! i)\<lparr>seleccionadoPor := Some (js_trim u)\<rparr>])
          (post (aviso (js_trim u) (nombre (cs ! i)))
            (p\<lparr>local_st := guardarComidas (cs[i := (cs ! i)\<lparr>seleccionadoPor := Some (js_trim u)\<rparr>]) (local_st p)\<rparr>)))"
proof -
  have "i < length cs" using find_index_nth [OF assms(2)] by simp
  with seleccionar_inicio_libre [OF assms(1-3)] seleccionar_fin_ok [OF assms(4)] show ?thesis
    by (simp add: seleccionarComida_def)
qed

lemma seleccionar_exito_facts:
  assumes "obtenerComidas (local_st p) = Inr cs"
    and "find_index (\<lambda>c. comida_id c = cid) cs = int i"
    and "\<not> seleccionada (cs ! i)" and "js_trim u \<noteq> []"
    and "seleccionarComida cid (Some u) p = Inr p'"
  shows "obtenerComidas (local_st p') = Inr (cs[i := (cs ! i)\<lparr>seleccionadoPor := Some (js_trim u)\<rparr>])"
    and "alerts p' = alerts p @ [aviso (js_trim u) (nombre (cs ! i))]"
    and "mailbox_empty p'"
  using seleccionar_exito_eq [OF assms(1-4)] assms(5)
  by (auto simp: pintar_alerts post_def)

lemma seleccionada_update [simp]: "seleccionada (c\<lparr>seleccionadoPor := Some n\<rparr>) \<longleftrightarrow> n \<noteq> []"
  by (simp add: seleccionada_def truthy_def)

text \<open>C3: a successful claim.  When the stored list has an unselected meal with the id and
  the user answers the prompt with a name that is not blank, the handler returns normally,
  the stored list has exactly that meal selected by the trimmed name, the announcement that
  names the claimer and the meal is shown once, and the mailbox is left empty.\<close>

theorem seleccionar_exito:
  assumes "obtenerComidas (local_st p) = Inr cs"
    and "find_index (\<lambda>c. comida_id c = cid) cs = int i"
    and "\<not> seleccionada (cs ! i)" and "js_trim u \<noteq> []"
  shows "\<exists>p'. seleccionarComida cid (Some u) p = Inr p' \<and>
    obtenerComidas (local_st p') = Inr (cs[i := (cs ! i)\<lparr>seleccionadoPor := Some (js_trim u)\<rparr>]) \<and>
    alerts p' = alerts p @ [aviso (js_trim u) (nombre (cs ! i))] \<and> mailbox_empty p'"
  using seleccionar_exito_eq [OF assms] seleccionar_exito_facts [OF assms] by blast

theorem seleccionar_exito_witness:
  "\<exists>p'. seleccionarComida (js ''1'') (Some (js '' Luis ''))
          (pagina [\<lparr>comida_id = js ''1'', nombre = js ''Tacos'', seleccionadoPor = None\<rparr>] []) = Inr p' \<and>
     obtenerComidas (local_st p') =
       Inr [\<lparr>comida_id = js ''1'', nombre = js ''Tacos'', seleccionadoPor = Some (js ''Luis'')\<rparr>] \<and>
     alerts p' = [aviso (js ''Luis'') (js ''Tacos'')] \<and> mailbox_empty p'"
proof -
  have t: "js_trim (js '' Luis '') = js ''Luis''"
    by (simp add: js_trim_def is_ws_def js_def)
  show ?thesis
    using seleccionar_exito
      [of "pagina [\<lparr>comida_id = js ''1'', nombre = js ''Tacos'', seleccionadoPor = None\<rparr>] []"
          "[\<lparr>comida_id = js ''1'', nombre = js ''Tacos'', seleccionadoPor = None\<rparr>]" "js ''1''" 0
          "js '' Luis ''"]
    by (simp add: t seleccionada_def)
qed

text \<open>C4: claiming a selected meal is always rejected.  Whatever the prompt would have been
  answered, the handler only shows ``Esta comida ya fue seleccionada.'': the stored list,
  the mailbox and the document are those of before.\<close>

theorem seleccionar_ya_seleccionada:
  assumes "obtenerComidas (local_st p) = Inr cs"
    and "find_index (\<lambda>c. comida_id c = cid) cs = int i" and "seleccionada (cs ! i)"
  shows "seleccionarComida cid r p = Inr (alert MSG_YA_SELECCIONADA p)"
  using assms by (intro seleccionar_rechazo) auto

theorem seleccionar_ya_seleccionada_witness:
  "find_index (\<lambda>c. comida_id c = js ''1'') [\<lparr>comida_id = js ''1'', nombre = js ''Tacos'', seleccionadoPor = Some (js ''Ana'')\<rparr>] = int 0 \<and>
   seleccionarComida (js ''1'') (Some (js ''Luis''))
     (pagina [\<lparr>comida_id = js ''1'', nombre = js ''Tacos'', seleccionadoPor = Some (js ''Ana'')\<rparr>] []) =
   Inr (alert MSG_YA_SELECCIONADA
     (pagina [\<lparr>comida_id = js ''1'', nombre = js ''Tacos'', seleccionadoPor = Some (js ''Ana'')\<rparr>] []))"
  using seleccionar_ya_seleccionada
    [of "pagina [\<lparr>comida_id = js ''1'', nombre = js ''Tacos'', seleccionadoPor = Some (js ''Ana'')\<rparr>] []"
        "[\<lparr>comida_id = js ''1'', nombre = js ''Tacos'', seleccionadoPor = Some (js ''Ana'')\<rparr>]"
        "js ''1''" 0 "Some (js ''Luis'')"]
  by (simp add: seleccionada_def truthy_def)

text \<open>C5: an id that no stored meal has is reported as ``Esta comida ya fue seleccionada.'',
  the message of an already selected meal; nothing else changes.\<close>

theorem seleccionar_no_encontrada:
  assumes "obtenerComidas (local_st p) = Inr cs" and "\<forall>c\<in>set cs. comida_id c \<noteq> cid"
  shows "seleccionarComida cid r p = Inr (alert MSG_YA_SELECCIONADA p)"
  using assms by (intro seleccionar_rechazo) auto

theorem seleccionar_no_encontrada_witness:
  "js ''1'' \<noteq> js ''2'' \<and>
   seleccionarComida (js ''2'') None
     (pagina [\<lparr>comida_id = js ''1'', nombre = js ''Tacos'', seleccionadoPor = None\<rparr>] []) =
   Inr (alert MSG_YA_SELECCIONADA (pagina [\<lparr>comida_id = js ''1'', nombre = js ''Tacos'', seleccionadoPor = None\<rparr>] []))"
  using seleccionar_no_encontrada
    [of "pagina [\<lparr>comida_id = js ''1'', nombre = js ''Tacos'', seleccionadoPor = None\<rparr>] []"
        "[\<lparr>comida_id = js ''1'', nombre = js ''Tacos'', seleccionadoPor = None\<rparr>]" "js ''2''" None]
  by simp

text \<open>C6: a cancelled prompt and a blank answer are not told apart: both show
  ``Debes ingresar un nombre para seleccionar la comida.'' and change nothing else.\<close>

theorem seleccionar_sin_nombre:
  assumes "obtenerComidas (local_st p) = Inr cs"
    and "find_index (\<lambda>c. comida_id c = cid) cs = int i" and "\<not> seleccionada (cs ! i)"
    and "r = None \<or> (\<exists>u. r = Some u \<and> js_trim u = [])"
  shows "seleccionarComida cid r p = Inr (alert MSG_NOMBRE p)"
  using seleccionar_inicio_libre [OF assms(1-3)] seleccionar_fin_sin_nombre [OF assms(4)]
  by (simp add: seleccionarComida_def)

theorem seleccionar_sin_nombre_witness:
  "find_index (\<lambda>c. comida_id c = js ''1'') [\<lparr>comida_id = js ''1'', nombre = js ''Tacos'', seleccionadoPor = None\<rparr>] = int 0 \<and>
   seleccionarComida (js ''1'') None
     (pagina [\<lparr>comida_id = js ''1'', nombre = js ''Tacos'', seleccionadoPor = None\<rparr>] []) =
   Inr (alert MSG_NOMBRE (pagina [\<lparr>comida_id = js ''1'', nombre = js ''Tacos'', seleccionadoPor = None\<rparr>] []))"
  using seleccionar_sin_nombre
    [of "pagina [\<lparr>comida_id = js ''1'', nombre = js ''Tacos'', seleccionadoPor = None\<rparr>] []"
        "[\<lparr>comida_id = js ''1'', nombre = js ''Tacos'', seleccionadoPor = None\<rparr>]" "js ''1''" 0 None]
  by (simp add: seleccionada_def)

text \<open>C7: a claim is final.  After a successful claim, claiming the same id again, by anyone
  and with any answer, is rejected and leaves everything but the alerts as it was.\<close>

theorem seleccionar_monotona:
  assumes "obtenerComidas (local_st p) = Inr cs"
    and "find_index (\<lambda>c. comida_id c = cid) cs = int i"
    and "\<not> seleccionada (cs ! i)" and "js_trim u \<noteq> []"
    and "seleccionarComida cid (Some u) p = Inr p'"
  shows "seleccionarComida cid r p' = Inr (alert MSG_YA_SELECCIONADA p')"
proof -
  let ?c' = "(cs ! i)\<lparr>seleccionadoPor := Some (js_trim u)\<rparr>"
  have i: "i < length cs" using find_index_nth [OF assms(2)] by simp
  have load: "obtenerComidas (local_st p') = Inr (cs[i := ?c'])"
    by (rule seleccionar_exito_facts(1) [OF assms])
  have "find_index (\<lambda>c. comida_id c = cid) (cs[i := ?c']) = int i"
    using assms(2) by (simp add: find_index_update_same)
  moreover have "seleccionada (cs[i := ?c'] ! i)"
    using i assms(4) by simp
  ultimately show ?thesis
    using load by (intro seleccionar_rechazo) auto
qed

theorem seleccionar_monotona_witness:
  "\<exists>p'. seleccionarComida (js ''1'') (Some (js ''Ana''))
          (pagina [\<lparr>comida_id = js ''1'', nombre = js ''Tacos'', seleccionadoPor = None\<rparr>] []) = Inr p' \<and>
        seleccionarComida (js ''1'') (Some (js ''Marta'')) p' = Inr (alert MSG_YA_SELECCIONADA p')"
proof -
  let ?p = "pagina [\<lparr>comida_id = js ''1'', nombre = js ''Tacos'', seleccionadoPor = None\<rparr>] []"
  let ?cs = "[\<lparr>comida_id = js ''1'', nombre = js ''Tacos'', seleccionadoPor = None\<rparr>]"
  have t: "js_trim (js ''Ana'') = js ''Ana''"
    by (simp add: js_trim_def is_ws_def js_def)
  have pre: "obtenerComidas (local_st ?p) = Inr ?cs"
    "find_index (\<lambda>c. comida_id c = js ''1'') ?cs = int 0" "\<not> seleccionada (?cs ! 0)"
    "js_trim (js ''Ana'') \<noteq> []"
    by (simp_all add: t seleccionada_def)
  obtain p' where p': "seleccionarComida (js ''1'') (Some (js ''Ana'')) ?p = Inr p'"
    using seleccionar_exito_eq [OF pre] by blast
  have "seleccionarComida (js ''1'') (Some (js ''Marta'')) p' = Inr (alert MSG_YA_SELECCIONADA p')"
    by (rule seleccionar_monotona [OF pre p'])
  with p' show ?thesis by blast
qed

text \<open>C8: a name that is empty or only whitespace adds nothing: the page, its storage and
  its input field are left exactly as they were.\<close>

theorem agregar_vacio:
  assumes "\<forall>c\<in>set (input_comida (doc p)). is_ws c"
  shows "agregarComida now p = Inr p"
  using assms by (intro agregar_blank) (simp add: js_trim_Nil_iff)

theorem agregar_vacio_witness:
  "js_trim (input_comida (doc (pagina [] (js ''   '')))) = [] \<and>
   agregarComida 7 (pagina [] (js ''   '')) = Inr (pagina [] (js ''   ''))"
  using agregar_vacio [of "pagina [] (js ''   '')" 7] by (simp add: is_ws_def js_def js_trim_def)

text \<open>C9: adding appends exactly one meal.  With a name that is not blank and a readable
  store, the handler returns normally; the stored list is the old one followed by one new,
  unselected meal with the trimmed name and the clock's decimal string as its id; the input
  is cleared; and the rendered list shows every meal, the new one last.\<close>

theorem agregar_anade:
  assumes "js_trim (input_comida (doc p)) \<noteq> []" and "obtenerComidas (local_st p) = Inr cs"
  shows "\<exists>p'. agregarComida now p = Inr p' \<and>
    obtenerComidas (local_st p') =
      Inr (cs @ [\<lparr>comida_id = num_to_string now, nombre = js_trim (input_comida (doc p)),
                  seleccionadoPor = None\<rparr>]) \<and>
    input_comida (doc p') = [] \<and>
    lista (doc p') = map item_of_comida (cs @ [\<lparr>comida_id = num_to_string now,
                  nombre = js_trim (input_comida (doc p)), seleccionadoPor = None\<rparr>])"
  using agregar_eq [OF assms, of now] by (simp add: pintar_doc)

theorem agregar_anade_witness:
  "js_trim (input_comida (doc (pagina [] (js '' Tacos '')))) \<noteq> [] \<and>
   (\<exists>p'. agregarComida 7 (pagina [] (js '' Tacos '')) = Inr p' \<and>
      obtenerComidas (local_st p') =
        Inr [\<lparr>comida_id = num_to_string 7, nombre = js ''Tacos'', seleccionadoPor = None\<rparr>] \<and>
      input_comida (doc p') = [] \<and>
      lista (doc p') = map item_of_comida [\<lparr>comida_id = num_to_string 7, nombre = js ''Tacos'', seleccionadoPor = None\<rparr>])"
proof -
  have t: "js_trim (js '' Tacos '') = js ''Tacos''"
    by (simp add: js_trim_def is_ws_def js_def)
  show ?thesis
    using agregar_anade [of "pagina [] (js '' Tacos '')" "[]" 7] by (simp add: t)
qed

text \<open>C10: \<open>seleccionarComida\<close> implements the specification's \<open>claim\<close> when the prompt
  is answered: every error of the contract becomes its alert and leaves the page otherwise
  unchanged, and every success stores exactly the list the contract returns and leaves the
  mailbox empty.  The error mapping shows where the code departs from the contract's
  wording: \<open>NotFound\<close> is announced with the text of \<open>AlreadyClaimed\<close>.\<close>

theorem seleccionar_refina_claim:
  assumes load: "obtenerComidas (local_st p) = Inr cs"
  shows "(case claim_spec cs cid u of
            Inl err \<Rightarrow> seleccionarComida cid (Some u) p = Inr (alert (claim_message err) p)
          | Inr cs' \<Rightarrow> \<exists>p'. seleccionarComida cid (Some u) p = Inr p' \<and>
                          obtenerComidas (local_st p') = Inr cs' \<and> mailbox_empty p')"
proof (cases "\<forall>c\<in>set cs. comida_id c \<noteq> cid")
  case True
  then show ?thesis
    using seleccionar_rechazo [OF load] by (simp add: claim_spec_def)
next
  case False
  then have nf: "(\<forall>c\<in>set cs. comida_id c \<noteq> cid) = False" by simp
  define i where "i = length (takeWhile (\<lambda>c. comida_id c \<noteq> cid) cs)"
  have fi: "find_index (\<lambda>c. comida_id c = cid) cs = int i"
    using False by (simp add: find_index_eq i_def)
  show ?thesis
  proof (cases "seleccionada (cs ! i)")
    case True
    with fi show ?thesis
      using seleccionar_rechazo [OF load] by (simp add: claim_spec_def nf i_def [symmetric])
  next
    case sel: False
    show ?thesis
    proof (cases "js_trim u = []")
      case True
      have "seleccionarComida cid (Some u) p = Inr (alert MSG_NOMBRE p)"
        using seleccionar_inicio_libre [OF load fi sel] seleccionar_fin_sin_nombre [of "Some u"] True
        by (simp add: seleccionarComida_def)
      with sel True show ?thesis by (simp add: claim_spec_def nf i_def [symmetric])
    next
      case nb: False
      obtain p' where p': "seleccionarComida cid (Some u) p = Inr p'"
        using seleccionar_exito_eq [OF load fi sel nb] by blast
      with sel nb show ?thesis
        using seleccionar_exito_facts [OF load fi sel nb p']
        by (simp add: claim_spec_def nf i_def [symmetric])
    qed
  qed
qed

theorem seleccionar_refina_claim_witness:
  "obtenerComidas (local_st (pagina [\<lparr>comida_id = js ''1'', nombre = js ''Tacos'', seleccionadoPor = None\<rparr>] []))
     = Inr [\<lparr>comida_id = js ''1'', nombre = js ''Tacos'', seleccionadoPor = None\<rparr>] \<and>
   (case claim_spec [\<lparr>comida_id = js ''1'', nombre = js ''Tacos'', seleccionadoPor = None\<rparr>] (js ''2'') (js ''Luis'') of
      Inl err \<Rightarrow> seleccionarComida (js ''2'') (Some (js ''Luis''))
                  (pagina [\<lparr>comida_id = js ''1'', nombre = js ''Tacos'', seleccionadoPor = None\<rparr>] []) =
                Inr (alert (claim_message err)
                  (pagina [\<lparr>comida_id = js ''1'', nombre = js ''Tacos'', seleccionadoPor = None\<rparr>] []))
    | Inr cs' \<Rightarrow> \<exists>p'. seleccionarComida (js ''2'') (Some (js ''Luis''))
                  (pagina [\<lparr>comida_id = js ''1'', nombre = js ''Tacos'', seleccionadoPor = None\<rparr>] []) = Inr p' \<and>
                obtenerComidas (local_st p') = Inr cs' \<and> mailbox_empty p')"
  using seleccionar_refina_claim
    [of "pagina [\<lparr>comida_id = js ''1'', nombre = js ''Tacos'', seleccionadoPor = None\<rparr>] []"
        "[\<lparr>comida_id = js ''1'', nombre = js ''Tacos'', seleccionadoPor = None\<rparr>]" "js ''2''" "js ''Luis''"]
  by simp

end
