(* ===== verification/App.thy ===== *)
theory App
  imports Selection
begin

text \<open>
  The whole application as the browser runs it: any number of tabs of the page, sharing
  one \<open>localStorage\<close>, each with its own \<open>sessionStorage\<close>, document and
  alert history.  A tab goes through the phases of \<open>window.onload\<close>
  (lines 143--165 of \<open>src/scripts.js\<close>): \<open>Cargando\<close> before it runs,
  \<open>Lista\<close> once the first \<open>renderizarComidas\<close> returned and the three listeners
  are registered, and \<open>Rota\<close> when that render threw, so that no listener was ever
  registered.  A tab blocked in the \<open>prompt\<close> of \<open>seleccionarComida\<close> holds the
  list and index the handler loaded (\<open>t_prompt\<close>); it handles no event until the
  user answers.  Every \<open>localStorage.setItem\<close> that changes the stored value queues
  one \<open>storage\<close> event in every other tab whose listener is registered
  (\<open>t_eventos\<close> counts the queued ones); \<open>sessionStorage\<close> writes are seen by no
  other tab.  \<open>paso\<close> is one event handled to completion, \<open>None\<close> when the event
  cannot happen in that state; \<open>alcanzable ls0\<close> is the set of states the browser
  reaches from no open tab and the stored value \<open>ls0\<close>.
\<close>

datatype fase = Cargando | Lista | Rota

record tab =
  t_session :: storage
  t_doc :: dom
  t_alerts :: "jstr list"
  t_fase :: fase
  t_prompt :: "pending option"
  t_eventos :: nat

record sistema =
  ls :: storage
  tabs :: "tab list"

text \<open>The events: opening a tab on the document of \<open>index.html\<close>, its
  \<open>onload\<close>, typing into \<open>#input-comida\<close>, a click on \<open>#add-button\<close> at clock
  value \<open>now\<close>, a click on the \<open>k\<close>-th button of \<open>#lista-comidas\<close>, the answer
  to the open prompt, and the delivery of a queued \<open>storage\<close> event.\<close>

datatype evento =
    Abrir dom
  | Cargar nat
  | Escribir nat jstr
  | ClickAgregar nat nat
  | ClickBoton nat nat
  | Responder nat "jstr option"
  | EventoStorage nat

definition tab_nueva :: "dom \<Rightarrow> tab" where
  "tab_nueva d = \<lparr>t_session = Map.empty, t_doc = d, t_alerts = [], t_fase = Cargando,
                  t_prompt = None, t_eventos = 0\<rparr>"

text \<open>The page a handler of tab \<open>i\<close> sees, and the system after the handler returned
  the page \<open>p\<close>: the shared store is the one \<open>p\<close> holds, and if the stored list
  changed, every other tab with a \<open>storage\<close> listener gets one more queued event.\<close>

definition pagina_de :: "sistema \<Rightarrow> nat \<Rightarrow> page" where
  "pagina_de s i =
     \<lparr>local_st = ls s, session_st = t_session (tabs s ! i), doc = t_doc (tabs s ! i),
      alerts = t_alerts (tabs s ! i)\<rparr>"

definition avisar :: "nat \<Rightarrow> tab list \<Rightarrow> tab list" where
  "avisar i ts =
     map (\<lambda>j. if j \<noteq> i \<and> t_fase (ts ! j) = Lista
              then (ts ! j)\<lparr>t_eventos := Suc (t_eventos (ts ! j))\<rparr> else ts ! j)
         [0..<length ts]"

definition con_pagina :: "nat \<Rightarrow> page \<Rightarrow> sistema \<Rightarrow> sistema" where
  "con_pagina i p s =
     (let ts = (tabs s)[i := (tabs s ! i)\<lparr>t_session := session_st p, t_doc := doc p,
                                          t_alerts := alerts p\<rparr>]
      in \<lparr>ls = local_st p,
          tabs = (if local_st p STORAGE_KEY \<noteq> ls s STORAGE_KEY then avisar i ts else ts)\<rparr>)"

definition set_tab :: "nat \<Rightarrow> (tab \<Rightarrow> tab) \<Rightarrow> sistema \<Rightarrow> sistema" where
  "set_tab i f s = s\<lparr>tabs := (tabs s)[i := f (tabs s ! i)]\<rparr>"

text \<open>A tab whose listeners are registered and that is not blocked in a prompt.\<close>

definition libre :: "sistema \<Rightarrow> nat \<Rightarrow> bool" where
  "libre s i \<longleftrightarrow> i < length (tabs s) \<and> t_fase (tabs s ! i) = Lista \<and> t_prompt (tabs s ! i) = None"

text \<open>A handler that throws: \<open>StorageCorrupt\<close> leaves the state \<open>s\<close> the handler
  started from (every throw of the code comes before its first write); a store the model
  does not represent (\<open>FueraDeModelo\<close>) has no step.\<close>

definition lanzar :: "js_error \<Rightarrow> sistema \<Rightarrow> sistema option" where
  "lanzar e s = (case e of StorageCorrupt \<Rightarrow> Some s | FueraDeModelo \<Rightarrow> None)"

text \<open>The click listener of \<open>#lista-comidas\<close> (lines 150--157): a disabled button
  dispatches no click; the \<open>data-id\<close> of the button must be truthy; the handler then
  runs \<open>seleccionarComida\<close> up to its prompt.  A handler that throws leaves the state
  as it was, since every throw of \<open>agregarComida\<close>, of \<open>seleccionarComida\<close> before
  its prompt and of \<open>renderizarComidas\<close> happens at the first read of the store,
  before any write.\<close>

fun paso :: "evento \<Rightarrow> sistema \<Rightarrow> sistema option" where
  "paso (Abrir d) s = Some (s\<lparr>tabs := tabs s @ [tab_nueva d]\<rparr>)"
| "paso (Cargar i) s =
     (if i < length (tabs s) \<and> t_fase (tabs s ! i) = Cargando then
        (case renderizarComidas (pagina_de s i) of
           Inl e \<Rightarrow> lanzar e (set_tab i (\<lambda>t. t\<lparr>t_fase := Rota\<rparr>) s)
         | Inr p \<Rightarrow> Some (set_tab i (\<lambda>t. t\<lparr>t_fase := Lista\<rparr>) (con_pagina i p s)))
      else None)"
| "paso (Escribir i v) s =
     (if i < length (tabs s) \<and> t_prompt (tabs s ! i) = None then
        Some (set_tab i (\<lambda>t. t\<lparr>t_doc := (t_doc t)\<lparr>input_comida := v\<rparr>\<rparr>) s)
      else None)"
| "paso (ClickAgregar i now) s =
     (if libre s i then
        (case agregarComida now (pagina_de s i) of
           Inl e \<Rightarrow> lanzar e s
         | Inr p \<Rightarrow> Some (con_pagina i p s))
      else None)"
| "paso (ClickBoton i k) s =
     (if libre s i \<and> k < length (lista (t_doc (tabs s ! i))) \<and>
         \<not> iv_disabled (lista (t_doc (tabs s ! i)) ! k) then
        (let cid = iv_data_id (lista (t_doc (tabs s ! i)) ! k) in
         if truthy cid then
           (case seleccionar_inicio cid (pagina_de s i) of
              Inl e \<Rightarrow> lanzar e s
            | Inr (p, pend) \<Rightarrow> Some (set_tab i (\<lambda>t. t\<lparr>t_prompt := pend\<rparr>) (con_pagina i p s)))
         else Some s)
      else None)"
| "paso (Responder i r) s =
     (if i < length (tabs s) then
        (case t_prompt (tabs s ! i) of
           None \<Rightarrow> None
         | Some pend \<Rightarrow>
             (case seleccionar_fin pend r (pagina_de s i) of
                Inl e \<Rightarrow> lanzar e (set_tab i (\<lambda>t. t\<lparr>t_prompt := None\<rparr>) s)
              | Inr p \<Rightarrow> Some (set_tab i (\<lambda>t. t\<lparr>t_prompt := None\<rparr>) (con_pagina i p s))))
      else None)"
| "paso (EventoStorage i) s =
     (if libre s i \<and> 0 < t_eventos (tabs s ! i) then
        (let s1 = set_tab i (\<lambda>t. t\<lparr>t_eventos := t_eventos t - 1\<rparr>) s in
         case renderizarComidas (pagina_de s1 i) of
           Inl e \<Rightarrow> lanzar e s1
         | Inr p \<Rightarrow> Some (con_pagina i p s1))
      else None)"

fun ejecutar :: "evento list \<Rightarrow> sistema \<Rightarrow> sistema option" where
  "ejecutar [] s = Some s"
| "ejecutar (e # es) s = (case paso e s of None \<Rightarrow> None | Some s' \<Rightarrow> ejecutar es s')"

inductive alcanzable :: "storage \<Rightarrow> sistema \<Rightarrow> bool" for ls0 where
  inicio: "alcanzable ls0 \<lparr>ls = ls0, tabs = []\<rparr>"
| paso: "alcanzable ls0 s \<Longrightarrow> paso e s = Some s' \<Longrightarrow> alcanzable ls0 s'"

end
