(* ===== verification/Sync.thy ===== *)
theory Sync
  imports App
begin

text \<open>
  The consistency of the running application.  \<open>tab_ok\<close> says what holds of one
  tab against the stored value (no message waiting in its mailbox; no queued event or
  prompt before its listeners are registered; after that a readable store and, with no
  queued event, a document showing the stored list), \<open>inv\<close> says it of every tab,
  and every event preserves it; so every reachable state satisfies it
  (\<open>alcanzable_inv\<close>, by rule induction).  The claims of this theory follow from it:
  synchronised views, growth of the list while no prompt is open, and the fate of a
  corrupt store.
\<close>

subsection \<open>The invariant of a reachable state\<close>

text \<open>The document of a tab shows the list \<open>cs\<close>: one element per meal and both
  counters, as \<open>renderizarComidas\<close> leaves them.\<close>

definition vista_de :: "comida list \<Rightarrow> dom \<Rightarrow> bool" where
  "vista_de cs d \<longleftrightarrow>
     lista d = map item_of_comida cs \<and> total_comidas d = num_to_string (length cs) \<and>
     restantes_comidas d = num_to_string (length (filter (\<lambda>c. \<not> seleccionada c) cs))"

definition buzon_vacio :: "tab \<Rightarrow> bool" where
  "buzon_vacio t \<longleftrightarrow>
     (case t_session t NOTIFICATION_KEY of None \<Rightarrow> True | Some m \<Rightarrow> \<not> truthy m)"

text \<open>A tab is consistent with the stored value \<open>ls\<close>: no message waits in its
  mailbox; before \<open>onload\<close> succeeded it has no queued event and no prompt; once its
  listeners are registered the store is readable, and with no queued \<open>storage\<close> event
  its document shows the stored list.\<close>

definition tab_ok :: "storage \<Rightarrow> tab \<Rightarrow> bool" where
  "tab_ok l t \<longleftrightarrow>
     buzon_vacio t \<and>
     (t_fase t \<noteq> Lista \<longrightarrow> t_eventos t = 0 \<and> t_prompt t = None) \<and>
     (t_fase t = Lista \<longrightarrow>
        (case obtenerComidas l of
           Inl _ \<Rightarrow> False
         | Inr cs \<Rightarrow> t_eventos t = 0 \<longrightarrow> vista_de cs (t_doc t)))"

definition inv :: "sistema \<Rightarrow> bool" where
  "inv s \<longleftrightarrow> (\<forall>t\<in>set (tabs s). tab_ok (ls s) t)"

named_theorems app_simps "how the system operations act on the fields of a state"

lemma lanzar_Some [simp]: "lanzar e s = Some s' \<longleftrightarrow> e = StorageCorrupt \<and> s' = s"
  by (cases e) (auto simp: lanzar_def)

lemma lanzar_None [simp]: "lanzar e s = None \<longleftrightarrow> e = FueraDeModelo"
  by (cases e) (simp_all add: lanzar_def)

lemma inv_nth: "inv s \<longleftrightarrow> (\<forall>j<length (tabs s). tab_ok (ls s) (tabs s ! j))"
  by (simp add: inv_def all_set_conv_all_nth)

lemma length_avisar [simp]: "length (avisar i ts) = length ts"
  by (simp add: avisar_def)

lemma nth_avisar [app_simps]:
  "j < length ts \<Longrightarrow> avisar i ts ! j =
     (if j \<noteq> i \<and> t_fase (ts ! j) = Lista then (ts ! j)\<lparr>t_eventos := Suc (t_eventos (ts ! j))\<rparr> else ts ! j)"
  by (simp add: avisar_def)

lemma set_tab_fields [app_simps]:
  "ls (set_tab i f s) = ls s" "length (tabs (set_tab i f s)) = length (tabs s)"
  "j < length (tabs s) \<Longrightarrow> tabs (set_tab i f s) ! j = (if j = i then f (tabs s ! i) else tabs s ! j)"
  by (simp_all add: set_tab_def)

lemma set_tab_set_tab: "i < length (tabs s) \<Longrightarrow> set_tab i f (set_tab i g s) = set_tab i (f \<circ> g) s"
  by (simp add: set_tab_def)

lemma con_pagina_fields [app_simps]:
  "ls (con_pagina i p s) = local_st p" "length (tabs (con_pagina i p s)) = length (tabs s)"
  by (simp_all add: con_pagina_def Let_def)

lemma con_pagina_mismo:
  "local_st p = ls s \<Longrightarrow>
   con_pagina i p s = set_tab i (\<lambda>t. t\<lparr>t_session := session_st p, t_doc := doc p, t_alerts := alerts p\<rparr>) s"
  by (simp add: con_pagina_def set_tab_def)

lemma con_pagina_pagina_de [simp]: "i < length (tabs s) \<Longrightarrow> con_pagina i (pagina_de s i) s = s"
  by (simp add: con_pagina_def pagina_de_def)

lemma pagina_de_fields [simp]:
  "local_st (pagina_de s i) = ls s" "session_st (pagina_de s i) = t_session (tabs s ! i)"
  "doc (pagina_de s i) = t_doc (tabs s ! i)" "alerts (pagina_de s i) = t_alerts (tabs s ! i)"
  by (simp_all add: pagina_de_def)

lemma pagina_de_set_tab:
  "i < length (tabs s) \<Longrightarrow> t_session (f (tabs s ! i)) = t_session (tabs s ! i) \<Longrightarrow>
   t_doc (f (tabs s ! i)) = t_doc (tabs s ! i) \<Longrightarrow> t_alerts (f (tabs s ! i)) = t_alerts (tabs s ! i) \<Longrightarrow>
   pagina_de (set_tab i f s) i = pagina_de s i"
  by (simp add: pagina_de_def app_simps)

subsection \<open>What a handler leaves in its page\<close>

lemma render_vista:
  "renderizarComidas q = Inr p' \<Longrightarrow>
   \<exists>cs. obtenerComidas (local_st p') = Inr cs \<and> vista_de cs (doc p') \<and> mailbox_empty p'"
  by (cases "obtenerComidas (local_st q)")
     (auto simp: renderizarComidas_def pintar_doc vista_de_def)

lemma agregar_resultado:
  "agregarComida now p = Inr p' \<Longrightarrow> p' = p \<or> (\<exists>q. renderizarComidas q = Inr p')"
  by (auto simp: agregarComida_def Let_def split: if_splits sum.splits)

lemma inicio_resultado:
  "seleccionar_inicio cid p = Inr (p', x) \<Longrightarrow>
   local_st p' = local_st p \<and> session_st p' = session_st p \<and> doc p' = doc p"
  by (cases "obtenerComidas (local_st p)") (auto simp: seleccionar_inicio_def Let_def split: if_splits)

lemma fin_resultado:
  "seleccionar_fin pend r p = Inr p' \<Longrightarrow> p' = alert MSG_NOMBRE p \<or> (\<exists>q. renderizarComidas q = Inr p')"
  by (cases pend) (auto simp: seleccionar_fin_def Let_def split: if_splits option.splits)

text \<open>After the prompt nothing throws: the render reads the list the handler has just
  written.\<close>

lemma fin_total: "\<exists>p'. seleccionar_fin pend r p = Inr p'"
  by (cases pend) (auto simp: seleccionar_fin_def Let_def render_Inr split: option.splits)

lemma mailbox_pagina_de [simp]: "mailbox_empty (pagina_de s i) \<longleftrightarrow> buzon_vacio (tabs s ! i)"
  by (simp add: mailbox_empty_def buzon_vacio_def)

subsection \<open>Consistency of one tab\<close>

lemma tab_ok_render:
  assumes "renderizarComidas q = Inr p'" and "t_fase t = Lista"
  shows "tab_ok (local_st p') (t\<lparr>t_session := session_st p', t_doc := doc p', t_alerts := alerts p'\<rparr>)"
  using render_vista [OF assms(1)] assms(2)
  by (auto simp: tab_ok_def buzon_vacio_def mailbox_empty_def)

lemma tab_ok_frame:
  assumes "tab_ok l t" and "t_session t' = t_session t" and "t_doc t' = t_doc t"
    and "t_fase t' = t_fase t" and "t_eventos t' = t_eventos t"
    and "t_fase t \<noteq> Lista \<Longrightarrow> t_prompt t' = None"
  shows "tab_ok l t'"
  using assms unfolding tab_ok_def buzon_vacio_def by (auto split: sum.splits)

lemma tab_ok_cong: "obtenerComidas l = obtenerComidas l' \<Longrightarrow> tab_ok l t = tab_ok l' t"
  by (simp add: tab_ok_def)

lemma tab_ok_no_lista: "t_fase t \<noteq> Lista \<Longrightarrow> tab_ok l t = tab_ok l' t"
  by (simp add: tab_ok_def)

lemma tab_ok_avisado:
  "tab_ok l t \<Longrightarrow> t_fase t = Lista \<Longrightarrow> obtenerComidas l' = Inr cs \<Longrightarrow> tab_ok l' (t\<lparr>t_eventos := Suc (t_eventos t)\<rparr>)"
  by (simp add: tab_ok_def buzon_vacio_def)

lemma tab_ok_legible: "tab_ok l t \<Longrightarrow> t_fase t = Lista \<Longrightarrow> \<exists>cs. obtenerComidas l = Inr cs"
  by (cases "obtenerComidas l") (simp_all add: tab_ok_def)

subsection \<open>Consistency of the system\<close>

lemma inv_otras: "inv s \<Longrightarrow> \<forall>j<length (tabs s). j \<noteq> i \<longrightarrow> tab_ok (ls s) (tabs s ! j)"
  by (simp add: inv_nth)

lemma set_tab_inv:
  assumes "\<forall>j<length (tabs s). j \<noteq> i \<longrightarrow> tab_ok (ls s) (tabs s ! j)"
    and "i < length (tabs s) \<Longrightarrow> tab_ok (ls s) (f (tabs s ! i))"
  shows "inv (set_tab i f s)"
  using assms by (auto simp: inv_nth app_simps)

lemma con_pagina_inv:
  assumes otras: "\<forall>j<length (tabs s). j \<noteq> i \<longrightarrow> tab_ok (ls s) (tabs s ! j)"
    and i: "i < length (tabs s)"
    and esta: "tab_ok (local_st p) ((tabs s ! i)\<lparr>t_session := session_st p, t_doc := doc p, t_alerts := alerts p\<rparr>)"
    and escrita: "local_st p STORAGE_KEY \<noteq> ls s STORAGE_KEY \<Longrightarrow> \<exists>cs. obtenerComidas (local_st p) = Inr cs"
  shows "inv (con_pagina i p s)"
proof (cases "local_st p STORAGE_KEY = ls s STORAGE_KEY")
  case True
  then have "obtenerComidas (local_st p) = obtenerComidas (ls s)" by (rule obtener_cong)
  then have "\<And>t. tab_ok (local_st p) t = tab_ok (ls s) t" by (rule tab_ok_cong)
  with otras esta True i show ?thesis
    by (auto simp: inv_nth con_pagina_def nth_list_update)
next
  case False
  with escrita obtain cs where cs: "obtenerComidas (local_st p) = Inr cs" by blast
  have "tab_ok (local_st p) (tabs s ! j)" if "j < length (tabs s)" "j \<noteq> i" "t_fase (tabs s ! j) \<noteq> Lista" for j
    using that otras tab_ok_no_lista by blast
  moreover have "tab_ok (local_st p) ((tabs s ! j)\<lparr>t_eventos := Suc (t_eventos (tabs s ! j))\<rparr>)"
    if "j < length (tabs s)" "j \<noteq> i" "t_fase (tabs s ! j) = Lista" for j
    using that otras cs by (blast intro: tab_ok_avisado)
  ultimately show ?thesis
    using False esta i by (auto simp: inv_nth con_pagina_def nth_avisar nth_list_update)
qed

lemma vista_de_input [simp]: "vista_de cs (d\<lparr>input_comida := v\<rparr>) = vista_de cs d"
  by (simp add: vista_de_def)

lemma set_tab_frame_inv:
  assumes "inv s"
    and "i < length (tabs s) \<Longrightarrow>
           t_session (f (tabs s ! i)) = t_session (tabs s ! i) \<and> t_doc (f (tabs s ! i)) = t_doc (tabs s ! i) \<and>
           t_fase (f (tabs s ! i)) = t_fase (tabs s ! i) \<and> t_eventos (f (tabs s ! i)) = t_eventos (tabs s ! i) \<and>
           (t_fase (tabs s ! i) \<noteq> Lista \<longrightarrow> t_prompt (f (tabs s ! i)) = None)"
  shows "inv (set_tab i f s)"
proof (rule set_tab_inv)
  show "\<forall>j<length (tabs s). j \<noteq> i \<longrightarrow> tab_ok (ls s) (tabs s ! j)"
    using assms(1) by (rule inv_otras)
next
  assume i: "i < length (tabs s)"
  with assms(1) have t: "tab_ok (ls s) (tabs s ! i)" by (simp add: inv_nth)
  from assms(2) [OF i] show "tab_ok (ls s) (f (tabs s ! i))"
    by (intro tab_ok_frame [OF t]) simp_all
qed

subsection \<open>Every event keeps the system consistent\<close>

lemma inv_inicio: "inv \<lparr>ls = ls0, tabs = []\<rparr>"
  by (simp add: inv_def)

lemma tab_ok_nueva: "tab_ok l (tab_nueva d)"
  by (simp add: tab_ok_def tab_nueva_def buzon_vacio_def)

lemma inv_abrir: "inv s \<Longrightarrow> paso (Abrir d) s = Some s' \<Longrightarrow> inv s'"
  by (auto simp: inv_def tab_ok_nueva)

lemma inv_cargar:
  assumes "inv s" and "paso (Cargar i) s = Some s'"
  shows "inv s'"
proof -
  from assms(2) have i: "i < length (tabs s)" and c: "t_fase (tabs s ! i) = Cargando"
    by (auto split: if_splits)
  with assms(1) have t: "tab_ok (ls s) (tabs s ! i)" by (simp add: inv_nth)
  with c have e: "t_eventos (tabs s ! i) = 0" "t_prompt (tabs s ! i) = None" by (simp_all add: tab_ok_def)
  show ?thesis
  proof (cases "renderizarComidas (pagina_de s i)")
    case (Inl x)
    with assms(2) i c have "s' = set_tab i (\<lambda>t. t\<lparr>t_fase := Rota\<rparr>) s" by simp
    with assms(1) t e i show ?thesis
      by (auto intro!: set_tab_inv inv_otras simp: tab_ok_def buzon_vacio_def)
  next
    case (Inr p)
    with assms(2) i c render_local [OF Inr] have
      "s' = set_tab i ((\<lambda>t. t\<lparr>t_fase := Lista\<rparr>) \<circ>
              (\<lambda>t. t\<lparr>t_session := session_st p, t_doc := doc p, t_alerts := alerts p\<rparr>)) s"
      by (simp add: con_pagina_mismo set_tab_set_tab app_simps)
    moreover have "tab_ok (ls s) ((tabs s ! i)\<lparr>t_session := session_st p, t_doc := doc p,
                      t_alerts := alerts p, t_fase := Lista\<rparr>)"
      using render_vista [OF Inr] render_local [OF Inr] e
      by (auto simp: tab_ok_def buzon_vacio_def mailbox_empty_def)
    ultimately show ?thesis
      using assms(1) by (auto intro!: set_tab_inv inv_otras)
  qed
qed

lemma tab_ok_input [simp]:
  "tab_ok l (t\<lparr>t_doc := (t_doc t)\<lparr>input_comida := v\<rparr>\<rparr>) = tab_ok l t"
  by (simp add: tab_ok_def buzon_vacio_def split: sum.splits)

lemma inv_escribir:
  assumes "inv s" and "paso (Escribir i v) s = Some s'"
  shows "inv s'"
proof -
  from assms(2) have s': "s' = set_tab i (\<lambda>t. t\<lparr>t_doc := (t_doc t)\<lparr>input_comida := v\<rparr>\<rparr>) s"
    by (simp split: if_splits)
  show ?thesis unfolding s'
    using assms(1) by (intro set_tab_inv inv_otras) (simp_all add: inv_nth)
qed

lemma inv_agregar:
  assumes "inv s" and "paso (ClickAgregar i now) s = Some s'"
  shows "inv s'"
proof -
  from assms(2) have l: "libre s i" by (simp split: if_splits)
  then have i: "i < length (tabs s)" and f: "t_fase (tabs s ! i) = Lista" by (simp_all add: libre_def)
  show ?thesis
  proof (cases "agregarComida now (pagina_de s i)")
    case (Inl x)
    with assms l show ?thesis by simp
  next
    case (Inr p)
    with assms(2) l have s': "s' = con_pagina i p s" by simp
    from agregar_resultado [OF Inr] show ?thesis
    proof
      assume "p = pagina_de s i"
      with s' i assms(1) show ?thesis by simp
    next
      assume "\<exists>q. renderizarComidas q = Inr p"
      then obtain q where q: "renderizarComidas q = Inr p" ..
      from render_vista [OF q] have "\<exists>cs. obtenerComidas (local_st p) = Inr cs" by blast
      with tab_ok_render [OF q f] show ?thesis unfolding s'
        by (intro con_pagina_inv [OF inv_otras [OF assms(1)] i])
    qed
  qed
qed

lemma inv_boton:
  assumes "inv s" and "paso (ClickBoton i k) s = Some s'"
  shows "inv s'"
proof -
  let ?cid = "iv_data_id (lista (t_doc (tabs s ! i)) ! k)"
  from assms(2) have l: "libre s i"
    and d: "k < length (lista (t_doc (tabs s ! i))) \<and> \<not> iv_disabled (lista (t_doc (tabs s ! i)) ! k)"
    by (simp_all split: if_splits)
  then have i: "i < length (tabs s)" and f: "t_fase (tabs s ! i) = Lista" by (simp_all add: libre_def)
  show ?thesis
  proof (cases "truthy ?cid")
    case False
    with assms l d show ?thesis by (simp add: Let_def)
  next
    case True
    show ?thesis
    proof (cases "seleccionar_inicio ?cid (pagina_de s i)")
      case (Inl e)
      with True assms l d show ?thesis by (simp add: Let_def)
    next
      case (Inr x)
      obtain p pend where x: "x = (p, pend)" by (cases x)
      with Inr True assms(2) l d have s': "s' = set_tab i (\<lambda>t. t\<lparr>t_prompt := pend\<rparr>) (con_pagina i p s)"
        by (simp add: Let_def)
      from inicio_resultado [OF Inr [unfolded x]] have
        "s' = set_tab i (\<lambda>t. t\<lparr>t_session := session_st p, t_doc := doc p, t_alerts := alerts p,
                              t_prompt := pend\<rparr>) s"
        and "session_st p = t_session (tabs s ! i)" and "doc p = t_doc (tabs s ! i)"
        using s' i by (simp_all add: con_pagina_mismo set_tab_set_tab comp_def)
      with assms(1) f show ?thesis
        by (simp add: set_tab_frame_inv)
    qed
  qed
qed

lemma inv_responder:
  assumes "inv s" and "paso (Responder i r) s = Some s'"
  shows "inv s'"
proof -
  from assms(2) obtain pend where i: "i < length (tabs s)" and pr: "t_prompt (tabs s ! i) = Some pend"
    by (auto split: if_splits option.splits)
  from assms(1) i have t: "tab_ok (ls s) (tabs s ! i)" by (simp add: inv_nth)
  with pr have f: "t_fase (tabs s ! i) = Lista" by (auto simp: tab_ok_def)
  obtain p where p: "seleccionar_fin pend r (pagina_de s i) = Inr p" using fin_total by blast
  with assms(2) i pr have s': "s' = set_tab i (\<lambda>t. t\<lparr>t_prompt := None\<rparr>) (con_pagina i p s)"
    by simp
  from fin_resultado [OF p] show ?thesis
  proof
    assume "p = alert MSG_NOMBRE (pagina_de s i)"
    then have "s' = set_tab i (\<lambda>t. t\<lparr>t_session := t_session (tabs s ! i), t_doc := t_doc (tabs s ! i),
                     t_alerts := t_alerts (tabs s ! i) @ [MSG_NOMBRE], t_prompt := None\<rparr>) s"
      using s' i by (simp add: con_pagina_mismo set_tab_set_tab comp_def)
    with assms(1) show ?thesis by (simp add: set_tab_frame_inv)
  next
    assume "\<exists>q. renderizarComidas q = Inr p"
    then obtain q where q: "renderizarComidas q = Inr p" ..
    from render_vista [OF q] have "\<exists>cs. obtenerComidas (local_st p) = Inr cs" by blast
    with tab_ok_render [OF q f] have c: "inv (con_pagina i p s)"
      by (intro con_pagina_inv [OF inv_otras [OF assms(1)] i])
    have "t_fase (tabs (con_pagina i p s) ! i) = Lista"
      using f i by (simp add: con_pagina_def Let_def nth_avisar)
    with c show ?thesis unfolding s' by (simp add: set_tab_frame_inv)
  qed
qed

text \<open>A delivered \<open>storage\<close> event, in a consistent state: the tab is registered
  and free, the store is readable, and the tab consumes one queued event and repaints.\<close>

lemma storage_paso:
  assumes "inv s" and "paso (EventoStorage i) s = Some s'"
  obtains cs where "obtenerComidas (ls s) = Inr cs" and "libre s i" and "0 < t_eventos (tabs s ! i)"
    and "s' = set_tab i (\<lambda>t. t\<lparr>t_eventos := t_eventos t - 1,
             t_session := session_st (pintarComidas cs (pagina_de s i)),
             t_doc := doc (pintarComidas cs (pagina_de s i)),
             t_alerts := alerts (pintarComidas cs (pagina_de s i))\<rparr>) s"
proof -
  let ?s1 = "set_tab i (\<lambda>t. t\<lparr>t_eventos := t_eventos t - 1\<rparr>) s"
  from assms(2) have l: "libre s i" and e: "0 < t_eventos (tabs s ! i)" by (simp_all split: if_splits)
  then have i: "i < length (tabs s)" and f: "t_fase (tabs s ! i) = Lista" by (simp_all add: libre_def)
  from assms(1) i have "tab_ok (ls s) (tabs s ! i)" by (simp add: inv_nth)
  with f obtain cs where cs: "obtenerComidas (ls s) = Inr cs" using tab_ok_legible by blast
  have pd: "pagina_de ?s1 i = pagina_de s i" using i by (simp add: pagina_de_set_tab)
  let ?p = "pintarComidas cs (pagina_de s i)"
  have r: "renderizarComidas (pagina_de s i) = Inr ?p" using cs by (simp add: render_Inr)
  with assms(2) l e pd have "s' = con_pagina i ?p ?s1" by (simp add: Let_def)
  also have "\<dots> = set_tab i (\<lambda>t. t\<lparr>t_eventos := t_eventos t - 1, t_session := session_st ?p,
                      t_doc := doc ?p, t_alerts := alerts ?p\<rparr>) s"
    using i by (simp add: con_pagina_mismo set_tab_set_tab comp_def app_simps)
  finally show ?thesis using that cs l e by blast
qed

lemma inv_storage:
  assumes "inv s" and "paso (EventoStorage i) s = Some s'"
  shows "inv s'"
proof -
  obtain cs where cs: "obtenerComidas (ls s) = Inr cs" and l: "libre s i"
    and s': "s' = set_tab i (\<lambda>t. t\<lparr>t_eventos := t_eventos t - 1,
             t_session := session_st (pintarComidas cs (pagina_de s i)),
             t_doc := doc (pintarComidas cs (pagina_de s i)),
             t_alerts := alerts (pintarComidas cs (pagina_de s i))\<rparr>) s"
    using storage_paso [OF assms] by blast
  let ?p = "pintarComidas cs (pagina_de s i)"
  have r: "renderizarComidas (pagina_de s i) = Inr ?p" using cs by (simp add: render_Inr)
  have "tab_ok (local_st ?p) ((tabs s ! i)\<lparr>t_eventos := t_eventos (tabs s ! i) - 1,
          t_session := session_st ?p, t_doc := doc ?p, t_alerts := alerts ?p\<rparr>)"
    using tab_ok_render [OF r, of "(tabs s ! i)\<lparr>t_eventos := t_eventos (tabs s ! i) - 1\<rparr>"] l
    by (simp add: libre_def)
  then show ?thesis unfolding s'
    using inv_otras [OF assms(1)] by (intro set_tab_inv) simp_all
qed

lemma inv_paso: "inv s \<Longrightarrow> paso e s = Some s' \<Longrightarrow> inv s'"
  by (cases e) (blast intro: inv_abrir inv_cargar inv_escribir inv_agregar inv_boton inv_responder inv_storage)+

lemma alcanzable_inv: "alcanzable ls0 s \<Longrightarrow> inv s"
  by (induction rule: alcanzable.induct) (auto intro: inv_inicio inv_paso)

lemma ejecutar_alcanzable: "ejecutar es s = Some s' \<Longrightarrow> alcanzable ls0 s \<Longrightarrow> alcanzable ls0 s'"
proof (induction es arbitrary: s)
  case Nil
  then show ?case by simp
next
  case (Cons e es)
  then obtain s1 where "paso e s = Some s1" and "ejecutar es s1 = Some s'"
    by (auto split: option.splits)
  with Cons show ?case by (blast intro: alcanzable.paso)
qed

lemma ejecutar_desde_inicio: "ejecutar es \<lparr>ls = ls0, tabs = []\<rparr> = Some s \<Longrightarrow> alcanzable ls0 s"
  by (erule ejecutar_alcanzable) (rule alcanzable.inicio)

text \<open>The document of \<open>index.html\<close> before the first render, used by the concrete runs
  below: an empty list, counters at zero and an empty input.\<close>

abbreviation doc0 :: dom where
  "doc0 \<equiv> \<lparr>lista = [], total_comidas = js ''0'', restantes_comidas = js ''0'', input_comida = []\<rparr>"

lemma the_Some_ne: "x \<noteq> None \<Longrightarrow> x = Some (the x)"
  by simp

lemma ejecutar_alcanzable_the:
  "ejecutar es \<lparr>ls = ls0, tabs = []\<rparr> \<noteq> None \<Longrightarrow> alcanzable ls0 (the (ejecutar es \<lparr>ls = ls0, tabs = []\<rparr>))"
  by (rule ejecutar_desde_inicio) simp

lemma buzon_tab_ok: "tab_ok l t \<Longrightarrow> buzon_vacio t"
  by (simp add: tab_ok_def)

lemma inv_vista:
  assumes "inv s" and "j < length (tabs s)" and "t_fase (tabs s ! j) = Lista" and "t_eventos (tabs s ! j) = 0"
  shows "\<exists>cs. obtenerComidas (ls s) = Inr cs \<and> vista_de cs (t_doc (tabs s ! j))"
proof -
  from assms(1,2) have t: "tab_ok (ls s) (tabs s ! j)" by (simp add: inv_nth)
  with assms(3) obtain cs where cs: "obtenerComidas (ls s) = Inr cs" using tab_ok_legible by blast
  with t assms(3,4) show ?thesis by (simp add: tab_ok_def)
qed

text \<open>The steps that write no list: only \<open>agregarComida\<close> and the end of
  \<open>seleccionarComida\<close> call \<open>guardarComidas\<close>.\<close>

lemma ls_cargar: "paso (Cargar i) s = Some s' \<Longrightarrow> ls s' = ls s"
  by (cases "renderizarComidas (pagina_de s i)")
     (auto simp: app_simps dest: render_local split: if_splits)

lemma ls_boton: "paso (ClickBoton i k) s = Some s' \<Longrightarrow> ls s' = ls s"
proof (cases "seleccionar_inicio (iv_data_id (lista (t_doc (tabs s ! i)) ! k)) (pagina_de s i)")
  case (Inr x)
  moreover obtain p pend where "x = (p, pend)" by (cases x)
  ultimately show "paso (ClickBoton i k) s = Some s' \<Longrightarrow> ls s' = ls s"
    using inicio_resultado by (fastforce simp: Let_def app_simps split: if_splits)
qed (auto simp: Let_def split: if_splits)

lemma ls_storage:
  assumes "inv s" and "paso (EventoStorage i) s = Some s'"
  shows "ls s' = ls s"
proof -
  obtain cs where "s' = set_tab i (\<lambda>t. t\<lparr>t_eventos := t_eventos t - 1,
             t_session := session_st (pintarComidas cs (pagina_de s i)),
             t_doc := doc (pintarComidas cs (pagina_de s i)),
             t_alerts := alerts (pintarComidas cs (pagina_de s i))\<rparr>) s"
    using storage_paso [OF assms] by blast
  then show ?thesis by (simp add: app_simps)
qed

lemma agregar_crece:
  assumes "agregarComida now p = Inr p'" and "obtenerComidas (local_st p) = Inr cs"
  shows "\<exists>ys. obtenerComidas (local_st p') = Inr (cs @ ys)"
proof (cases "js_trim (input_comida (doc p)) = []")
  case True
  with assms show ?thesis by (simp add: agregar_blank)
next
  case False
  with assms show ?thesis by (auto simp: agregar_eq)
qed

subsection \<open>Delivering the queued events\<close>

subsection \<open>A corrupt store\<close>

lemma set_tabs_set_tab: "t \<in> set (tabs (set_tab i f s)) \<Longrightarrow> t \<in> set (tabs s) \<or> t = f (tabs s ! i)"
  using set_update_subset_insert by (fastforce simp: set_tab_def)

lemma no_libre: "\<forall>t\<in>set (tabs s). t_fase t \<noteq> Lista \<Longrightarrow> \<not> libre s i"
  by (auto simp: libre_def)

lemma corrupto_paso:
  assumes "obtenerComidas (ls s) = Inl e" and "\<forall>t\<in>set (tabs s). t_fase t \<noteq> Lista \<and> t_prompt t = None"
    and "paso ev s = Some s'"
  shows "ls s' = ls s \<and> (\<forall>t\<in>set (tabs s'). t_fase t \<noteq> Lista \<and> t_prompt t = None)"
proof (cases ev)
  case (Abrir d)
  with assms show ?thesis by (auto simp: tab_nueva_def)
next
  case (Cargar i)
  with assms(1) have "renderizarComidas (pagina_de s i) = Inl e" by (simp add: render_Inl_iff)
  with assms Cargar show ?thesis
    by (auto simp: app_simps split: if_splits dest!: set_tabs_set_tab)
next
  case (Escribir i v)
  with assms show ?thesis
    by (auto simp: app_simps split: if_splits dest!: set_tabs_set_tab)
next
  case (Responder i r)
  with assms show ?thesis by (auto split: if_splits)
qed (use assms no_libre in auto)

subsection \<open>Properties of the running application\<close>

text \<open>C13: a tab whose listeners are registered and that has no queued \<open>storage\<close>
  event shows exactly the stored list: one element per stored meal, in order, and both
  counters of that list.  This holds in every state the browser can reach, whatever the
  interleaving of the tabs' events and prompts.\<close>

theorem vistas_sincronizadas:
  assumes "alcanzable ls0 s" and "j < length (tabs s)" and "t_fase (tabs s ! j) = Lista"
    and "t_eventos (tabs s ! j) = 0"
  shows "\<exists>cs. obtenerComidas (ls s) = Inr cs \<and> lista (t_doc (tabs s ! j)) = map item_of_comida cs \<and>
    total_comidas (t_doc (tabs s ! j)) = num_to_string (length cs) \<and>
    restantes_comidas (t_doc (tabs s ! j)) = num_to_string (length (filter (\<lambda>c. \<not> seleccionada c) cs))"
  using inv_vista [OF alcanzable_inv [OF assms(1)] assms(2-4)] by (auto simp: vista_de_def)

theorem vistas_sincronizadas_witness:
  "alcanzable Map.empty (the (ejecutar [Abrir doc0, Cargar 0] \<lparr>ls = Map.empty, tabs = []\<rparr>)) \<and>
   (\<exists>cs. obtenerComidas (ls (the (ejecutar [Abrir doc0, Cargar 0] \<lparr>ls = Map.empty, tabs = []\<rparr>))) = Inr cs \<and>
     lista (t_doc (tabs (the (ejecutar [Abrir doc0, Cargar 0] \<lparr>ls = Map.empty, tabs = []\<rparr>)) ! 0)) =
       map item_of_comida cs)"
proof -
  let ?S = "the (ejecutar [Abrir doc0, Cargar 0] \<lparr>ls = Map.empty, tabs = []\<rparr>)"
  have e: "ejecutar [Abrir doc0, Cargar 0] \<lparr>ls = Map.empty, tabs = []\<rparr> \<noteq> None" by code_simp
  have h1: "0 < length (tabs ?S)" by code_simp
  have h2: "t_fase (tabs ?S ! 0) = Lista" by code_simp
  have h3: "t_eventos (tabs ?S ! 0) = 0" by code_simp
  show ?thesis
    using vistas_sincronizadas [OF ejecutar_alcanzable_the [OF e] h1 h2 h3] ejecutar_alcanzable_the [OF e]
    by blast
qed

text \<open>C14: while no tab has a prompt open, every event only extends the stored list:
  the meals stored before the step are still stored, in the same places and with the same
  selections, with possibly new meals after them.\<close>

theorem sin_prompt_solo_crece:
  assumes "alcanzable ls0 s" and "paso e s = Some s'" and "\<forall>t\<in>set (tabs s). t_prompt t = None"
    and "obtenerComidas (ls s) = Inr cs"
  shows "\<exists>ys. obtenerComidas (ls s') = Inr (cs @ ys)"
proof (cases e)
  case (ClickAgregar i now)
  show ?thesis
  proof (cases "agregarComida now (pagina_de s i)")
    case (Inl x)
    with assms(2,4) ClickAgregar show ?thesis by (auto split: if_splits)
  next
    case (Inr p)
    with assms(2) ClickAgregar have "ls s' = local_st p" by (auto simp: app_simps split: if_splits)
    with agregar_crece [OF Inr] assms(4) show ?thesis by simp
  qed
next
  case (Responder i r)
  with assms(2,3) show ?thesis by (auto split: if_splits)
next
  case (Cargar i)
  with assms(2) have "ls s' = ls s" by (metis ls_cargar)
  with assms(4) show ?thesis by simp
next
  case (ClickBoton i k)
  with assms(2) have "ls s' = ls s" by (metis ls_boton)
  with assms(4) show ?thesis by simp
next
  case (EventoStorage i)
  with alcanzable_inv [OF assms(1)] assms(2) have "ls s' = ls s" by (metis ls_storage)
  with assms(4) show ?thesis by simp
qed (use assms in \<open>auto simp: app_simps split: if_splits\<close>)

theorem sin_prompt_solo_crece_witness:
  "alcanzable Map.empty (the (ejecutar [Abrir doc0, Cargar 0, Escribir 0 (js ''Tacos'')] \<lparr>ls = Map.empty, tabs = []\<rparr>)) \<and>
   (\<exists>ys. obtenerComidas (ls (the (paso (ClickAgregar 0 5)
        (the (ejecutar [Abrir doc0, Cargar 0, Escribir 0 (js ''Tacos'')] \<lparr>ls = Map.empty, tabs = []\<rparr>))))) = Inr ([] @ ys))"
proof -
  let ?S = "the (ejecutar [Abrir doc0, Cargar 0, Escribir 0 (js ''Tacos'')] \<lparr>ls = Map.empty, tabs = []\<rparr>)"
  have e: "ejecutar [Abrir doc0, Cargar 0, Escribir 0 (js ''Tacos'')] \<lparr>ls = Map.empty, tabs = []\<rparr> \<noteq> None" by code_simp
  have p: "paso (ClickAgregar 0 5) ?S \<noteq> None" by code_simp
  have n: "list_all (\<lambda>t. t_prompt t = None) (tabs ?S)" by code_simp
  have c: "obtenerComidas (ls ?S) = Inr []" by code_simp
  show ?thesis
    using sin_prompt_solo_crece [OF ejecutar_alcanzable_the [OF e] the_Some_ne [OF p] _ c] n
      ejecutar_alcanzable_the [OF e]
    by (simp add: list_all_iff)
qed

text \<open>C15: a corrupt stored list disables the page for good.  When the stored text is not
  JSON, or its value is not an array, \<open>obtenerComidas\<close> or the \<open>forEach\<close> after it
  throws in the first \<open>renderizarComidas\<close> of \<open>window.onload\<close>, so no listener is
  registered: no tab ever reaches the phase in which it handles a click, and the stored
  value is never repaired.\<close>

theorem almacen_corrupto:
  assumes "alcanzable ls0 s" and "obtenerComidas ls0 = Inl StorageCorrupt"
  shows "ls s = ls0 \<and> (\<forall>t\<in>set (tabs s). t_fase t \<noteq> Lista)"
proof -
  have "ls s = ls0 \<and> (\<forall>t\<in>set (tabs s). t_fase t \<noteq> Lista \<and> t_prompt t = None)"
    using assms(1)
  proof (induction rule: alcanzable.induct)
    case inicio
    then show ?case by simp
  next
    case (paso s ev s')
    with assms(2) show ?case using corrupto_paso [of s StorageCorrupt ev s'] by auto
  qed
  then show ?thesis by blast
qed

theorem almacen_corrupto_witness:
  "alcanzable [STORAGE_KEY \<mapsto> js ''{''] (the (ejecutar [Abrir doc0, Cargar 0] \<lparr>ls = [STORAGE_KEY \<mapsto> js ''{''], tabs = []\<rparr>)) \<and>
   obtenerComidas [STORAGE_KEY \<mapsto> js ''{''] = Inl StorageCorrupt \<and>
   t_fase (tabs (the (ejecutar [Abrir doc0, Cargar 0] \<lparr>ls = [STORAGE_KEY \<mapsto> js ''{''], tabs = []\<rparr>)) ! 0) \<noteq> Lista"
proof -
  let ?l = "[STORAGE_KEY \<mapsto> js ''{'']"
  have e: "ejecutar [Abrir doc0, Cargar 0] \<lparr>ls = ?l, tabs = []\<rparr> \<noteq> None" by code_simp
  have c: "obtenerComidas ?l = Inl StorageCorrupt" by code_simp
  have n: "0 < length (tabs (the (ejecutar [Abrir doc0, Cargar 0] \<lparr>ls = ?l, tabs = []\<rparr>)))" by code_simp
  show ?thesis
    using almacen_corrupto [OF ejecutar_alcanzable_the [OF e] c] ejecutar_alcanzable_the [OF e] c n
    by auto
qed

end
