(* ===== verification/Wellformed.thy ===== *)
theory Wellformed
  imports Sync
begin

text \<open>
  The well-formedness of the stored list, the type invariant the code maintains without
  checking it: every meal name and every claimer name is non-empty and already trimmed,
  since \<open>agregarComida\<close> stores \<open>input.value.trim()\<close> only when it is truthy and
  \<open>seleccionarComida\<close> stores \<open>nombreUsuario.trim()\<close> only when it is not empty.
  The handlers preserve it (\<open>handlers_bien_formados\<close>), and so does every step of the
  running application, including the answer to a prompt opened on an older list
  (\<open>almacen_bien_formado\<close>).
\<close>

definition nombre_ok :: "jstr \<Rightarrow> bool" where
  "nombre_ok n \<longleftrightarrow> n \<noteq> [] \<and> js_trim n = n"

definition comida_ok :: "comida \<Rightarrow> bool" where
  "comida_ok c \<longleftrightarrow>
     nombre_ok (nombre c) \<and> (case seleccionadoPor c of None \<Rightarrow> True | Some q \<Rightarrow> nombre_ok q)"

definition lista_ok :: "comida list \<Rightarrow> bool" where
  "lista_ok cs \<longleftrightarrow> list_all comida_ok cs"

text \<open>A stored value is well-formed when the list it holds is; a value the code cannot read
  says nothing.\<close>

definition almacen_ok :: "storage \<Rightarrow> bool" where
  "almacen_ok l \<longleftrightarrow> (case obtenerComidas l of Inl _ \<Rightarrow> True | Inr cs \<Rightarrow> lista_ok cs)"

subsection \<open>The list operations keep it\<close>

lemma nombre_ok_trim: "js_trim u \<noteq> [] \<Longrightarrow> nombre_ok (js_trim u)"
  by (simp add: nombre_ok_def)

lemma lista_ok_snoc: "lista_ok (cs @ [c]) \<longleftrightarrow> lista_ok cs \<and> comida_ok c"
  by (simp add: lista_ok_def)

lemma lista_ok_claim:
  assumes "lista_ok cs" and "i < length cs" and "js_trim u \<noteq> []"
  shows "lista_ok (cs[i := (cs ! i)\<lparr>seleccionadoPor := Some (js_trim u)\<rparr>])"
proof -
  from assms(1,2) have "comida_ok (cs ! i)" by (simp add: lista_ok_def list_all_length)
  with assms(3) have "comida_ok ((cs ! i)\<lparr>seleccionadoPor := Some (js_trim u)\<rparr>)"
    by (simp add: comida_ok_def nombre_ok_trim)
  with assms(1,2) show ?thesis
    by (auto simp: lista_ok_def list_all_length nth_list_update)
qed

subsection \<open>What the handlers write\<close>

lemma find_index_found:
  assumes "find_index P xs \<noteq> -1"
  shows "find_index P xs = int (nat (find_index P xs)) \<and> nat (find_index P xs) < length xs"
proof -
  from assms have "\<exists>x\<in>set xs. P x" using find_index_none by blast
  then have "find_index P xs = int (length (takeWhile (\<lambda>x. \<not> P x) xs))"
    by (simp add: find_index_eq)
  then show ?thesis using find_index_nth by force
qed

lemma inicio_pend:
  assumes "seleccionar_inicio cid p = Inr (p', Some (cs', i))"
  shows "obtenerComidas (local_st p) = Inr cs' \<and> i < length cs' \<and> p' = p"
proof (cases "obtenerComidas (local_st p)")
  case (Inl e)
  with assms show ?thesis by (simp add: seleccionar_inicio_def)
next
  case (Inr cs)
  with assms have "find_index (\<lambda>c. comida_id c = cid) cs \<noteq> -1" and "cs' = cs" and "p' = p"
    and "i = nat (find_index (\<lambda>c. comida_id c = cid) cs)"
    by (auto simp: seleccionar_inicio_def Let_def split: if_splits)
  with Inr find_index_found show ?thesis by blast
qed

lemma fin_efecto:
  assumes "seleccionar_fin (cs, i) r p = Inr p'"
  shows "local_st p' = local_st p \<or>
    (\<exists>u. js_trim u \<noteq> [] \<and>
         local_st p' = guardarComidas (cs[i := (cs ! i)\<lparr>seleccionadoPor := Some (js_trim u)\<rparr>]) (local_st p))"
  using assms
  by (auto simp: seleccionar_fin_def Let_def truthy_def dest!: render_local split: if_splits option.splits)

lemma agregar_efecto:
  assumes "agregarComida now p = Inr p'" and "obtenerComidas (local_st p) = Inr cs"
  shows "local_st p' = local_st p \<or>
    (js_trim (input_comida (doc p)) \<noteq> [] \<and>
     obtenerComidas (local_st p') =
       Inr (cs @ [\<lparr>comida_id = num_to_string now, nombre = js_trim (input_comida (doc p)),
                  seleccionadoPor = None\<rparr>]))"
proof (cases "js_trim (input_comida (doc p)) = []")
  case True
  with assms show ?thesis by (simp add: agregar_blank)
next
  case False
  from agregar_eq [OF False assms(2), of now] assms(1)
  have "p' = pintarComidas (cs @ [\<lparr>comida_id = num_to_string now, nombre = js_trim (input_comida (doc p)),
                               seleccionadoPor = None\<rparr>])
          (p\<lparr>local_st := guardarComidas (cs @ [\<lparr>comida_id = num_to_string now,
                 nombre = js_trim (input_comida (doc p)), seleccionadoPor = None\<rparr>]) (local_st p),
             doc := (doc p)\<lparr>input_comida := []\<rparr>\<rparr>)"
    by simp
  with False show ?thesis by simp
qed

lemma agregar_ok:
  assumes "agregarComida now p = Inr p1" and "almacen_ok (local_st p)"
  shows "almacen_ok (local_st p1)"
proof (cases "obtenerComidas (local_st p)")
  case (Inl e)
  with assms(1) have "js_trim (input_comida (doc p)) = []"
    by (auto simp: agregarComida_def truthy_def Let_def split: if_splits)
  with assms show ?thesis by (simp add: agregar_blank)
next
  case (Inr cs)
  with assms(2) have "lista_ok cs" by (simp add: almacen_ok_def)
  with agregar_efecto [OF assms(1) Inr] assms(2) show ?thesis
    by (auto simp: almacen_ok_def lista_ok_snoc comida_ok_def nombre_ok_trim)
qed

lemma fin_ok:
  assumes "seleccionar_fin (cs, i) r p = Inr p1" and "lista_ok cs" and "i < length cs"
    and "almacen_ok (local_st p)"
  shows "almacen_ok (local_st p1)"
  using fin_efecto [OF assms(1)] assms(2-4) by (auto simp: almacen_ok_def lista_ok_claim)

text \<open>C22: both handlers keep the stored list well-formed.  From a readable, well-formed
  list, \<open>agregarComida\<close> and \<open>seleccionarComida\<close>, whatever their input, leave a readable
  list in which every name and every claimer is non-empty and trimmed.\<close>

theorem handlers_bien_formados:
  assumes "obtenerComidas (local_st p) = Inr cs" and "lista_ok cs"
  shows "(agregarComida now p = Inr p1 \<longrightarrow>
            (\<exists>cs1. obtenerComidas (local_st p1) = Inr cs1 \<and> lista_ok cs1)) \<and>
         (seleccionarComida cid r p = Inr p2 \<longrightarrow>
            (\<exists>cs2. obtenerComidas (local_st p2) = Inr cs2 \<and> lista_ok cs2))"
proof (intro conjI impI)
  assume a: "agregarComida now p = Inr p1"
  from agregar_efecto [OF a assms(1)] assms show "\<exists>cs1. obtenerComidas (local_st p1) = Inr cs1 \<and> lista_ok cs1"
    by (auto simp: lista_ok_snoc comida_ok_def nombre_ok_trim)
next
  assume sel: "seleccionarComida cid r p = Inr p2"
  show "\<exists>cs2. obtenerComidas (local_st p2) = Inr cs2 \<and> lista_ok cs2"
  proof (cases "seleccionar_inicio cid p")
    case (Inl e)
    with sel show ?thesis by (simp add: seleccionarComida_def)
  next
    case (Inr x)
    obtain p' pend where x: "x = (p', pend)" by (cases x)
    show ?thesis
    proof (cases pend)
      case None
      with sel Inr x have "local_st p2 = local_st p"
        using inicio_resultado [of cid p p' None] by (simp add: seleccionarComida_def)
      with assms show ?thesis by simp
    next
      case (Some q)
      obtain cs' i where q: "q = (cs', i)" by (cases q)
      with Inr x Some have "obtenerComidas (local_st p) = Inr cs' \<and> i < length cs' \<and> p' = p"
        by (intro inicio_pend) simp
      with assms(1) have c: "cs' = cs" "i < length cs" "p' = p" by simp_all
      with sel Inr x Some q have f: "seleccionar_fin (cs, i) r p = Inr p2" by (simp add: seleccionarComida_def)
      from fin_efecto [OF f] assms c show ?thesis by (auto simp: lista_ok_claim)
    qed
  qed
qed

theorem handlers_bien_formados_witness:
  "(\<exists>p1. agregarComida 7 (pagina [] (js '' Tacos '')) = Inr p1 \<and>
      (\<exists>cs1. obtenerComidas (local_st p1) = Inr cs1 \<and> lista_ok cs1)) \<and>
   seleccionarComida (js ''1'') None (pagina [] (js '' Tacos '')) =
     Inr (alert MSG_YA_SELECCIONADA (pagina [] (js '' Tacos ''))) \<and>
   (\<exists>cs2. obtenerComidas (local_st (alert MSG_YA_SELECCIONADA (pagina [] (js '' Tacos '')))) = Inr cs2 \<and>
      lista_ok cs2)"
proof -
  let ?p = "pagina [] (js '' Tacos '')"
  have o: "obtenerComidas (local_st ?p) = Inr []" by simp
  have l: "lista_ok []" by (simp add: lista_ok_def)
  have t: "js_trim (input_comida (doc ?p)) \<noteq> []" by (simp add: js_trim_def is_ws_def js_def)
  obtain p1 where a: "agregarComida 7 ?p = Inr p1" using agregar_eq [OF t o, of 7] by blast
  have s: "seleccionarComida (js ''1'') None ?p = Inr (alert MSG_YA_SELECCIONADA ?p)"
    by (rule seleccionar_rechazo [OF o]) simp
  show ?thesis
    using handlers_bien_formados [OF o l, of 7 p1 "js ''1''" None "alert MSG_YA_SELECCIONADA ?p"] a s
    by blast
qed

subsection \<open>The running application keeps it\<close>

text \<open>A prompt holds a list that was read from the store and an index into it.\<close>

definition prompt_ok :: "pending option \<Rightarrow> bool" where
  "prompt_ok x \<longleftrightarrow> (case x of None \<Rightarrow> True | Some (cs, i) \<Rightarrow> lista_ok cs \<and> i < length cs)"

definition sistema_ok :: "sistema \<Rightarrow> bool" where
  "sistema_ok s \<longleftrightarrow> almacen_ok (ls s) \<and> list_all prompt_ok (map t_prompt (tabs s))"

lemma prompts_set_tab:
  "(\<And>t. t_prompt (f t) = t_prompt t) \<Longrightarrow> map t_prompt (tabs (set_tab i f s)) = map t_prompt (tabs s)"
  by (rule nth_equalityI) (simp_all add: app_simps)

lemma prompts_con_pagina: "map t_prompt (tabs (con_pagina i p s)) = map t_prompt (tabs s)"
proof (cases "i < length (tabs s)")
  case True
  then show ?thesis
    by (intro nth_equalityI) (auto simp: con_pagina_def Let_def nth_avisar nth_list_update)
next
  case False
  then show ?thesis
    by (intro nth_equalityI) (auto simp: con_pagina_def Let_def nth_avisar list_update_beyond)
qed

lemma prompts_set_prompt:
  "map t_prompt (tabs (set_tab i (\<lambda>t. t\<lparr>t_prompt := x\<rparr>) s)) = (map t_prompt (tabs s))[i := x]"
  by (rule nth_equalityI) (auto simp: app_simps nth_list_update)

lemma list_all_update: "list_all P xs \<Longrightarrow> P x \<Longrightarrow> list_all P (xs[i := x])"
  by (auto simp: list_all_iff dest: set_update_subset_insert [THEN subsetD])

lemma paso_agregar:
  "paso (ClickAgregar i now) s = Some s' \<Longrightarrow>
   s' = s \<or> (\<exists>p. agregarComida now (pagina_de s i) = Inr p \<and> s' = con_pagina i p s)"
  by (auto split: if_splits sum.splits)

lemma paso_boton:
  assumes "paso (ClickBoton i k) s = Some s'"
  shows "s' = s \<or> (\<exists>cid p pend. seleccionar_inicio cid (pagina_de s i) = Inr (p, pend) \<and>
                      s' = set_tab i (\<lambda>t. t\<lparr>t_prompt := pend\<rparr>) (con_pagina i p s))"
proof (cases "seleccionar_inicio (iv_data_id (lista (t_doc (tabs s ! i)) ! k)) (pagina_de s i)")
  case (Inl e)
  with assms show ?thesis by (simp add: Let_def split: if_splits)
next
  case (Inr x)
  obtain p pend where "x = (p, pend)" by (cases x)
  with Inr assms show ?thesis by (auto simp: Let_def split: if_splits)
qed

lemma paso_responder:
  assumes "paso (Responder i r) s = Some s'"
  obtains pend p where "i < length (tabs s)" and "t_prompt (tabs s ! i) = Some pend"
    and "seleccionar_fin pend r (pagina_de s i) = Inr p"
    and "s' = set_tab i (\<lambda>t. t\<lparr>t_prompt := None\<rparr>) (con_pagina i p s)"
proof -
  from assms obtain pend where i: "i < length (tabs s)" and pr: "t_prompt (tabs s ! i) = Some pend"
    by (auto split: if_splits option.splits)
  obtain p where f: "seleccionar_fin pend r (pagina_de s i) = Inr p" using fin_total by blast
  with assms i pr have "s' = set_tab i (\<lambda>t. t\<lparr>t_prompt := None\<rparr>) (con_pagina i p s)" by simp
  with i pr f that show ?thesis by blast
qed

lemma prompts_cargar: "paso (Cargar i) s = Some s' \<Longrightarrow> map t_prompt (tabs s') = map t_prompt (tabs s)"
  by (cases "renderizarComidas (pagina_de s i)")
     (auto simp: prompts_set_tab prompts_con_pagina split: if_splits)

lemma prompts_escribir: "paso (Escribir i v) s = Some s' \<Longrightarrow> map t_prompt (tabs s') = map t_prompt (tabs s)"
  by (auto simp: prompts_set_tab split: if_splits)

lemma prompts_storage:
  assumes "inv s" and "paso (EventoStorage i) s = Some s'"
  shows "map t_prompt (tabs s') = map t_prompt (tabs s)"
proof -
  obtain cs where "s' = set_tab i (\<lambda>t. t\<lparr>t_eventos := t_eventos t - 1,
             t_session := session_st (pintarComidas cs (pagina_de s i)),
             t_doc := doc (pintarComidas cs (pagina_de s i)),
             t_alerts := alerts (pintarComidas cs (pagina_de s i))\<rparr>) s"
    using storage_paso [OF assms] by blast
  then show ?thesis by (simp add: prompts_set_tab)
qed

lemma ok_abrir: "sistema_ok s \<Longrightarrow> paso (Abrir d) s = Some s' \<Longrightarrow> sistema_ok s'"
  by (auto simp: sistema_ok_def tab_nueva_def prompt_ok_def)

lemma ok_cargar: "sistema_ok s \<Longrightarrow> paso (Cargar i) s = Some s' \<Longrightarrow> sistema_ok s'"
  using ls_cargar [of i s s'] prompts_cargar [of i s s'] by (simp add: sistema_ok_def)

lemma ok_escribir: "sistema_ok s \<Longrightarrow> paso (Escribir i v) s = Some s' \<Longrightarrow> sistema_ok s'"
proof -
  assume ok: "sistema_ok s" and p: "paso (Escribir i v) s = Some s'"
  from p have "ls s' = ls s" by (auto simp: app_simps split: if_splits)
  with ok prompts_escribir [OF p] show ?thesis by (simp add: sistema_ok_def)
qed

lemma ok_storage: "inv s \<Longrightarrow> sistema_ok s \<Longrightarrow> paso (EventoStorage i) s = Some s' \<Longrightarrow> sistema_ok s'"
  using ls_storage [of s i s'] prompts_storage [of s i s'] by (simp add: sistema_ok_def)

lemma ok_agregar:
  assumes ok: "sistema_ok s" and p: "paso (ClickAgregar i now) s = Some s'"
  shows "sistema_ok s'"
  using paso_agregar [OF p]
proof
  assume "\<exists>q. agregarComida now (pagina_de s i) = Inr q \<and> s' = con_pagina i q s"
  then obtain q where a: "agregarComida now (pagina_de s i) = Inr q" and s': "s' = con_pagina i q s" by blast
  from ok have "almacen_ok (local_st (pagina_de s i))" by (simp add: sistema_ok_def)
  from agregar_ok [OF a this] ok s' show ?thesis
    by (simp add: sistema_ok_def prompts_con_pagina app_simps)
qed (use ok in simp)

lemma ok_boton:
  assumes ok: "sistema_ok s" and p: "paso (ClickBoton i k) s = Some s'"
  shows "sistema_ok s'"
  using paso_boton [OF p]
proof
  assume "\<exists>cid q pend. seleccionar_inicio cid (pagina_de s i) = Inr (q, pend) \<and>
                    s' = set_tab i (\<lambda>t. t\<lparr>t_prompt := pend\<rparr>) (con_pagina i q s)"
  then obtain cid q pend where ini: "seleccionar_inicio cid (pagina_de s i) = Inr (q, pend)"
    and s': "s' = set_tab i (\<lambda>t. t\<lparr>t_prompt := pend\<rparr>) (con_pagina i q s)" by blast
  have "prompt_ok pend"
  proof (cases pend)
    case (Some x)
    obtain cs j where x: "x = (cs, j)" by (cases x)
    with ini Some have "obtenerComidas (ls s) = Inr cs \<and> j < length cs"
      using inicio_pend [of cid "pagina_de s i" q cs j] by simp
    with ok Some x show ?thesis by (simp add: sistema_ok_def almacen_ok_def prompt_ok_def)
  qed (simp add: prompt_ok_def)
  moreover have "local_st q = ls s" using inicio_resultado [OF ini] by simp
  ultimately show ?thesis
    using ok unfolding s' sistema_ok_def
    by (simp add: prompts_set_prompt prompts_con_pagina list_all_update app_simps)
qed (use ok in simp)

lemma ok_responder:
  assumes ok: "sistema_ok s" and p: "paso (Responder i r) s = Some s'"
  shows "sistema_ok s'"
proof -
  obtain pend q where i: "i < length (tabs s)" and pr: "t_prompt (tabs s ! i) = Some pend"
    and f: "seleccionar_fin pend r (pagina_de s i) = Inr q"
    and s': "s' = set_tab i (\<lambda>t. t\<lparr>t_prompt := None\<rparr>) (con_pagina i q s)"
    using paso_responder [OF p] by blast
  obtain cs j where pend: "pend = (cs, j)" by (cases pend)
  from ok have la: "list_all prompt_ok (map t_prompt (tabs s))" and al: "almacen_ok (ls s)"
    by (simp_all add: sistema_ok_def)
  from la i have "prompt_ok (t_prompt (tabs s ! i))" by (simp add: list_all_length)
  with pr pend have l: "lista_ok cs" "j < length cs" by (simp_all add: prompt_ok_def)
  from f pend have f': "seleccionar_fin (cs, j) r (pagina_de s i) = Inr q" by simp
  from al have "almacen_ok (local_st (pagina_de s i))" by simp
  from fin_ok [OF f' l this] have "almacen_ok (ls s')" by (simp add: s' app_simps)
  moreover have "list_all prompt_ok (map t_prompt (tabs s'))"
    unfolding s' prompts_set_prompt prompts_con_pagina
    using la by (rule list_all_update) (simp add: prompt_ok_def)
  ultimately show ?thesis by (simp add: sistema_ok_def)
qed

lemma sistema_ok_paso:
  assumes "inv s" and "sistema_ok s" and "paso e s = Some s'"
  shows "sistema_ok s'"
proof (cases e)
  case (Abrir d)
  with assms(2,3) show ?thesis by (simp add: ok_abrir)
next
  case (Cargar i)
  with assms(2,3) show ?thesis by (simp add: ok_cargar)
next
  case (Escribir i v)
  with assms(2,3) show ?thesis by (simp add: ok_escribir)
next
  case (ClickAgregar i now)
  with assms(2,3) show ?thesis by (simp add: ok_agregar)
next
  case (ClickBoton i k)
  with assms(2,3) show ?thesis by (simp add: ok_boton)
next
  case (Responder i r)
  with assms(2,3) show ?thesis by (simp add: ok_responder)
next
  case (EventoStorage i)
  with assms show ?thesis by (simp add: ok_storage)
qed

lemma alcanzable_sistema_ok: "alcanzable ls0 s \<Longrightarrow> almacen_ok ls0 \<Longrightarrow> sistema_ok s"
proof (induction rule: alcanzable.induct)
  case inicio
  then show ?case by (simp add: sistema_ok_def)
next
  case (paso s e s')
  then show ?case using alcanzable_inv [OF paso.hyps(1)] by (blast intro: sistema_ok_paso)
qed

text \<open>C23: the stored list stays well-formed in every reachable state.  From a
  well-formed stored value, whatever the tabs do and however their prompts interleave,
  every name and every claimer stored is non-empty and trimmed.  The answer to a prompt
  writes a list loaded before the prompt, which was well-formed when it was loaded.\<close>

theorem almacen_bien_formado:
  assumes "alcanzable ls0 s" and "almacen_ok ls0"
  shows "almacen_ok (ls s)"
  using alcanzable_sistema_ok [OF assms] by (simp add: sistema_ok_def)

theorem almacen_bien_formado_witness:
  "alcanzable Map.empty (the (ejecutar [Abrir doc0, Cargar 0, Escribir 0 (js '' Tacos ''), ClickAgregar 0 5]
      \<lparr>ls = Map.empty, tabs = []\<rparr>)) \<and>
   almacen_ok Map.empty \<and>
   almacen_ok (ls (the (ejecutar [Abrir doc0, Cargar 0, Escribir 0 (js '' Tacos ''), ClickAgregar 0 5]
      \<lparr>ls = Map.empty, tabs = []\<rparr>)))"
proof -
  have e: "ejecutar [Abrir doc0, Cargar 0, Escribir 0 (js '' Tacos ''), ClickAgregar 0 5]
      \<lparr>ls = Map.empty, tabs = []\<rparr> \<noteq> None" by code_simp
  have o: "almacen_ok Map.empty" by (simp add: almacen_ok_def lista_ok_def)
  show ?thesis
    using almacen_bien_formado [OF ejecutar_alcanzable_the [OF e] o] ejecutar_alcanzable_the [OF e] o
    by blast
qed

end
