(* ===== verification/Races.thy ===== *)
theory Races
  imports Wellformed
begin

text \<open>
  The races that the code's read-modify-write of the whole list and its clock-based ids
  allow, proved for every state of the browser that meets their conditions: a meal
  claimed by two users (C16), a meal deleted by a prompt's answer (C17), two meals with
  one id (C18), of which only the first can ever be claimed (C19).  The lemmas of the
  first part give the exact effect of the three steps a race is made of: a click on a
  free meal's button, an answer with a name, and a click on \<open>Agregar\<close>.
\<close>

abbreviation reclamada :: "comida list \<Rightarrow> nat \<Rightarrow> jstr \<Rightarrow> comida list" where
  "reclamada cs k u \<equiv> cs[k := (cs ! k)\<lparr>seleccionadoPor := Some u\<rparr>]"

abbreviation comida_nueva :: "nat \<Rightarrow> jstr \<Rightarrow> comida" where
  "comida_nueva now n \<equiv> \<lparr>comida_id = num_to_string now, nombre = n, seleccionadoPor = None\<rparr>"

text \<open>Two free tabs that show the list \<open>cs\<close> stored, with \<open>v\<close> and \<open>w\<close> typed:
  the states of the instances below.\<close>

abbreviation tab_con :: "comida list \<Rightarrow> jstr \<Rightarrow> tab" where
  "tab_con cs v \<equiv>
     \<lparr>t_session = Map.empty,
      t_doc = \<lparr>lista = map item_of_comida cs, total_comidas = [], restantes_comidas = [], input_comida = v\<rparr>,
      t_alerts = [], t_fase = Lista, t_prompt = None, t_eventos = 0\<rparr>"

abbreviation sistema_con :: "comida list \<Rightarrow> jstr \<Rightarrow> jstr \<Rightarrow> sistema" where
  "sistema_con cs v w \<equiv> \<lparr>ls = guardarComidas cs Map.empty, tabs = [tab_con cs v, tab_con cs w]\<rparr>"

abbreviation tacos :: comida where
  "tacos \<equiv> \<lparr>comida_id = js ''5'', nombre = js ''Tacos'', seleccionadoPor = None\<rparr>"

lemma con_pagina_nth:
  assumes "j < length (tabs s)" and "j \<noteq> i"
  shows "tabs (con_pagina i p s) ! j =
    (if local_st p STORAGE_KEY \<noteq> ls s STORAGE_KEY \<and> t_fase (tabs s ! j) = Lista
     then (tabs s ! j)\<lparr>t_eventos := Suc (t_eventos (tabs s ! j))\<rparr> else tabs s ! j)"
  using assms by (simp add: con_pagina_def Let_def nth_avisar)

lemma con_pagina_propia:
  "i < length (tabs s) \<Longrightarrow> tabs (con_pagina i p s) ! i =
     (tabs s ! i)\<lparr>t_session := session_st p, t_doc := doc p, t_alerts := alerts p\<rparr>"
  by (simp add: con_pagina_def Let_def nth_avisar)

text \<open>What another tab's handler leaves of tab \<open>j\<close>: at most one more queued event.\<close>

lemma con_pagina_otra [simp]:
  assumes "j < length (tabs s)" and "j \<noteq> i"
  shows "t_prompt (tabs (con_pagina i p s) ! j) = t_prompt (tabs s ! j)"
    "t_alerts (tabs (con_pagina i p s) ! j) = t_alerts (tabs s ! j)"
    "t_doc (tabs (con_pagina i p s) ! j) = t_doc (tabs s ! j)"
    "t_fase (tabs (con_pagina i p s) ! j) = t_fase (tabs s ! j)"
  using assms by (simp_all add: con_pagina_nth)

lemma libre_otra:
  "libre s j \<Longrightarrow> j \<noteq> i \<Longrightarrow> libre (con_pagina i p s) j"
  "libre s j \<Longrightarrow> j \<noteq> i \<Longrightarrow> libre (set_tab i f s) j"
  by (simp_all add: libre_def app_simps)

subsection \<open>The steps a race is made of\<close>

text \<open>A click on the button of a free meal, the first with its id, in a tab that shows
  the stored list: the tab opens the prompt for it and changes nothing else.\<close>

lemma boton_abre:
  assumes "libre s i" and "obtenerComidas (ls s) = Inr cs"
    and "lista (t_doc (tabs s ! i)) = map item_of_comida cs" and "k < length cs"
    and "truthy (comida_id (cs ! k))" and "\<forall>j<k. comida_id (cs ! j) \<noteq> comida_id (cs ! k)"
    and "\<not> seleccionada (cs ! k)"
  shows "paso (ClickBoton i k) s = Some (set_tab i (\<lambda>t. t\<lparr>t_prompt := Some (cs, k)\<rparr>) s)"
proof -
  have "find_index (\<lambda>c. comida_id c = comida_id (cs ! k)) cs = int k"
    using assms(4,6) by (simp add: find_index_first)
  with assms(2,7) have "seleccionar_inicio (comida_id (cs ! k)) (pagina_de s i) = Inr (pagina_de s i, Some (cs, k))"
    by (simp add: seleccionar_inicio_libre)
  with assms show ?thesis by (simp add: libre_def Let_def)
qed

text \<open>The answer of a name that trims to \<open>u\<close> to the prompt for meal \<open>k\<close> of the list
  \<open>cs\<close>: the store holds \<open>cs\<close> with that meal claimed by \<open>u\<close>, whatever it held before,
  and the tab shows the announcement.\<close>

lemma responder_reclama:
  assumes "i < length (tabs s)" and "t_prompt (tabs s ! i) = Some (cs, k)" and "k < length cs"
    and "js_trim a \<noteq> []"
  obtains s' where "paso (Responder i (Some a)) s = Some s'"
    and "ls s' = guardarComidas (reclamada cs k (js_trim a)) (ls s)"
    and "length (tabs s') = length (tabs s)"
    and "t_alerts (tabs s' ! i) = t_alerts (tabs s ! i) @ [aviso (js_trim a) (nombre (cs ! k))]"
    and "t_prompt (tabs s' ! i) = None"
    and "\<And>j. j < length (tabs s) \<Longrightarrow> j \<noteq> i \<Longrightarrow>
           t_prompt (tabs s' ! j) = t_prompt (tabs s ! j) \<and> t_alerts (tabs s' ! j) = t_alerts (tabs s ! j)"
proof -
  let ?cs = "reclamada cs k (js_trim a)"
  let ?p = "pintarComidas ?cs (post (aviso (js_trim a) (nombre (cs ! k)))
              ((pagina_de s i)\<lparr>local_st := guardarComidas ?cs (ls s)\<rparr>))"
  let ?s = "set_tab i (\<lambda>t. t\<lparr>t_prompt := None\<rparr>) (con_pagina i ?p s)"
  have step: "paso (Responder i (Some a)) s = Some ?s"
    using assms seleccionar_fin_ok [of a k cs "pagina_de s i"] by simp
  have "alerts ?p = t_alerts (tabs s ! i) @ [aviso (js_trim a) (nombre (cs ! k))]"
    by (simp add: pintar_alerts post_def)
  with assms(1) show ?thesis
    by (rule_tac that [OF step]) (simp_all add: app_simps con_pagina_propia)
qed

text \<open>A click on \<open>Agregar\<close> with a name typed: the store holds the loaded list with
  the new meal appended, whose id is the clock's reading; the other tabs keep their
  prompts, alerts, page and phase.\<close>

lemma agregar_alta:
  assumes "libre s j" and "obtenerComidas (ls s) = Inr cs"
    and "js_trim (input_comida (t_doc (tabs s ! j))) \<noteq> []"
  obtains s' where "paso (ClickAgregar j now) s = Some s'"
    and "ls s' = guardarComidas (cs @ [comida_nueva now (js_trim (input_comida (t_doc (tabs s ! j))))]) (ls s)"
    and "length (tabs s') = length (tabs s)"
    and "\<And>i. i < length (tabs s) \<Longrightarrow> i \<noteq> j \<Longrightarrow>
           t_prompt (tabs s' ! i) = t_prompt (tabs s ! i) \<and> t_alerts (tabs s' ! i) = t_alerts (tabs s ! i) \<and>
           t_doc (tabs s' ! i) = t_doc (tabs s ! i) \<and> t_fase (tabs s' ! i) = t_fase (tabs s ! i)"
proof -
  let ?n = "js_trim (input_comida (t_doc (tabs s ! j)))"
  let ?p = "pintarComidas (cs @ [comida_nueva now ?n])
              ((pagina_de s j)\<lparr>local_st := guardarComidas (cs @ [comida_nueva now ?n]) (ls s),
                 doc := (t_doc (tabs s ! j))\<lparr>input_comida := []\<rparr>\<rparr>)"
  have step: "paso (ClickAgregar j now) s = Some (con_pagina j ?p s)"
    using assms agregar_eq [of "pagina_de s j" cs now] by simp
  show ?thesis
    by (rule that [OF step]) (simp_all add: app_simps)
qed

subsection \<open>The races\<close>

text \<open>C16: two users can claim the same meal.  \<open>seleccionarComida\<close> checks that the
  meal is free before its \<open>prompt\<close> and writes the list it loaded before the prompt after
  it, without reading the store again.  In any state where two free tabs show the stored
  list and meal \<open>k\<close> (the first with its id) is unclaimed, both users can click its
  button and both answer: each tab announces that its user selected the meal, and the
  store ends with the meal claimed by the name given last.\<close>

theorem doble_seleccion:
  assumes "libre s i" and "libre s j" and "i \<noteq> j" and "obtenerComidas (ls s) = Inr cs"
    and "lista (t_doc (tabs s ! i)) = map item_of_comida cs"
    and "lista (t_doc (tabs s ! j)) = map item_of_comida cs"
    and "k < length cs" and "truthy (comida_id (cs ! k))"
    and "\<forall>m<k. comida_id (cs ! m) \<noteq> comida_id (cs ! k)" and "\<not> seleccionada (cs ! k)"
    and "js_trim a \<noteq> []" and "js_trim b \<noteq> []"
  shows "\<exists>s'. ejecutar [ClickBoton i k, ClickBoton j k, Responder i (Some a), Responder j (Some b)] s = Some s' \<and>
    obtenerComidas (ls s') = Inr (reclamada cs k (js_trim b)) \<and>
    last (t_alerts (tabs s' ! i)) = aviso (js_trim a) (nombre (cs ! k)) \<and>
    last (t_alerts (tabs s' ! j)) = aviso (js_trim b) (nombre (cs ! k))"
proof -
  let ?s1 = "set_tab i (\<lambda>t. t\<lparr>t_prompt := Some (cs, k)\<rparr>) s"
  let ?s2 = "set_tab j (\<lambda>t. t\<lparr>t_prompt := Some (cs, k)\<rparr>) ?s1"
  have li: "i < length (tabs s)" and lj: "j < length (tabs s)" using assms(1,2) by (simp_all add: libre_def)
  have e1: "paso (ClickBoton i k) s = Some ?s1" using assms by (intro boton_abre) simp_all
  have "libre ?s1 j" using assms(2,3) by (simp add: libre_otra)
  then have e2: "paso (ClickBoton j k) ?s1 = Some ?s2"
    using assms lj by (intro boton_abre) (simp_all add: app_simps)
  have l2: "i < length (tabs ?s2)" "j < length (tabs ?s2)" using li lj by (simp_all add: app_simps)
  have "t_prompt (tabs ?s2 ! i) = Some (cs, k)" using li lj assms(3) by (simp add: app_simps)
  then obtain s3 where e3: "paso (Responder i (Some a)) ?s2 = Some s3"
    and ls3: "ls s3 = guardarComidas (reclamada cs k (js_trim a)) (ls ?s2)"
    and len3: "length (tabs s3) = length (tabs ?s2)"
    and al3: "t_alerts (tabs s3 ! i) = t_alerts (tabs ?s2 ! i) @ [aviso (js_trim a) (nombre (cs ! k))]"
    and o3: "\<And>m. m < length (tabs ?s2) \<Longrightarrow> m \<noteq> i \<Longrightarrow>
           t_prompt (tabs s3 ! m) = t_prompt (tabs ?s2 ! m) \<and> t_alerts (tabs s3 ! m) = t_alerts (tabs ?s2 ! m)"
    by (rule responder_reclama [OF l2(1) _ assms(7,11)]) blast+
  have p3: "t_prompt (tabs s3 ! j) = Some (cs, k)" using o3 [OF l2(2)] assms(3) lj by (simp add: app_simps)
  have l3: "j < length (tabs s3)" using len3 l2 by simp
  obtain s4 where e4: "paso (Responder j (Some b)) s3 = Some s4"
    and ls4: "ls s4 = guardarComidas (reclamada cs k (js_trim b)) (ls s3)"
    and "length (tabs s4) = length (tabs s3)"
    and al4j: "t_alerts (tabs s4 ! j) = t_alerts (tabs s3 ! j) @ [aviso (js_trim b) (nombre (cs ! k))]"
    and "t_prompt (tabs s4 ! j) = None"
    and o4: "\<And>m. m < length (tabs s3) \<Longrightarrow> m \<noteq> j \<Longrightarrow>
           t_prompt (tabs s4 ! m) = t_prompt (tabs s3 ! m) \<and> t_alerts (tabs s4 ! m) = t_alerts (tabs s3 ! m)"
    by (rule responder_reclama [OF l3 p3 assms(7,12)]) blast+
  have al4i: "t_alerts (tabs s4 ! i) = t_alerts (tabs s3 ! i)" using o4 [of i] l2 len3 assms(3) by simp
  have "ejecutar [ClickBoton i k, ClickBoton j k, Responder i (Some a), Responder j (Some b)] s = Some s4"
    using e1 e2 e3 e4 by simp
  with ls4 al4i al4j al3 show ?thesis by simp
qed

text \<open>C17: an answer to a prompt can delete a meal added meanwhile.  While tab \<open>i\<close>
  waits for its user's name for meal \<open>k\<close>, tab \<open>j\<close> adds a meal, which the store then
  holds; the answer stores the list tab \<open>i\<close> loaded before its prompt, in which that meal
  does not exist.\<close>

theorem perdida_alta:
  assumes "libre s i" and "libre s j" and "i \<noteq> j" and "obtenerComidas (ls s) = Inr cs"
    and "lista (t_doc (tabs s ! i)) = map item_of_comida cs"
    and "k < length cs" and "truthy (comida_id (cs ! k))"
    and "\<forall>m<k. comida_id (cs ! m) \<noteq> comida_id (cs ! k)" and "\<not> seleccionada (cs ! k)"
    and "js_trim (input_comida (t_doc (tabs s ! j))) \<noteq> []" and "js_trim a \<noteq> []"
  shows "\<exists>s1 s2. ejecutar [ClickBoton i k, ClickAgregar j now] s = Some s1 \<and>
    obtenerComidas (ls s1) = Inr (cs @ [comida_nueva now (js_trim (input_comida (t_doc (tabs s ! j))))]) \<and>
    paso (Responder i (Some a)) s1 = Some s2 \<and>
    obtenerComidas (ls s2) = Inr (reclamada cs k (js_trim a))"
proof -
  let ?s1 = "set_tab i (\<lambda>t. t\<lparr>t_prompt := Some (cs, k)\<rparr>) s"
  have li: "i < length (tabs s)" and lj: "j < length (tabs s)" using assms(1,2) by (simp_all add: libre_def)
  have e1: "paso (ClickBoton i k) s = Some ?s1" using assms by (intro boton_abre) simp_all
  have lb: "libre ?s1 j" using assms(2,3) by (simp add: libre_otra)
  have "obtenerComidas (ls ?s1) = Inr cs" and "js_trim (input_comida (t_doc (tabs ?s1 ! j))) \<noteq> []"
    using assms(3,4,10) lj by (simp_all add: app_simps)
  then obtain s2 where e2: "paso (ClickAgregar j now) ?s1 = Some s2"
    and ls2: "ls s2 = guardarComidas (cs @ [comida_nueva now (js_trim (input_comida (t_doc (tabs ?s1 ! j))))]) (ls ?s1)"
    and len2: "length (tabs s2) = length (tabs ?s1)"
    and o2: "\<And>m. m < length (tabs ?s1) \<Longrightarrow> m \<noteq> j \<Longrightarrow>
           t_prompt (tabs s2 ! m) = t_prompt (tabs ?s1 ! m) \<and> t_alerts (tabs s2 ! m) = t_alerts (tabs ?s1 ! m) \<and>
           t_doc (tabs s2 ! m) = t_doc (tabs ?s1 ! m) \<and> t_fase (tabs s2 ! m) = t_fase (tabs ?s1 ! m)"
    by (rule agregar_alta [OF lb]) blast+
  have p2: "t_prompt (tabs s2 ! i) = Some (cs, k)" using o2 [of i] li assms(3) by (simp add: app_simps)
  have l2: "i < length (tabs s2)" using len2 li by (simp add: app_simps)
  obtain s3 where e3: "paso (Responder i (Some a)) s2 = Some s3"
    and ls3: "ls s3 = guardarComidas (reclamada cs k (js_trim a)) (ls s2)"
    by (rule responder_reclama [OF l2 p2 assms(6,11)])
  have "ejecutar [ClickBoton i k, ClickAgregar j now] s = Some s2" using e1 e2 by simp
  with ls2 lj assms(3) e3 ls3 show ?thesis by (simp add: app_simps)
qed

text \<open>C18: two meals added in the same millisecond share their id, since the id is
  \<open>Date.now().toString()\<close>: whenever two free tabs each have a name typed and add it
  at the same clock reading, the store holds the loaded list with both meals appended
  under one id.\<close>

theorem ids_duplicados:
  assumes "libre s i" and "libre s j" and "i \<noteq> j" and "obtenerComidas (ls s) = Inr cs"
    and "js_trim (input_comida (t_doc (tabs s ! i))) \<noteq> []"
    and "js_trim (input_comida (t_doc (tabs s ! j))) \<noteq> []"
  shows "\<exists>s'. ejecutar [ClickAgregar i now, ClickAgregar j now] s = Some s' \<and>
    obtenerComidas (ls s') = Inr (cs @ [comida_nueva now (js_trim (input_comida (t_doc (tabs s ! i)))),
                                        comida_nueva now (js_trim (input_comida (t_doc (tabs s ! j))))])"
proof -
  have lj: "j < length (tabs s)" using assms(2) by (simp add: libre_def)
  obtain s1 where e1: "paso (ClickAgregar i now) s = Some s1"
    and ls1: "ls s1 = guardarComidas (cs @ [comida_nueva now (js_trim (input_comida (t_doc (tabs s ! i))))]) (ls s)"
    and len1: "length (tabs s1) = length (tabs s)"
    and o1: "\<And>m. m < length (tabs s) \<Longrightarrow> m \<noteq> i \<Longrightarrow>
           t_prompt (tabs s1 ! m) = t_prompt (tabs s ! m) \<and> t_alerts (tabs s1 ! m) = t_alerts (tabs s ! m) \<and>
           t_doc (tabs s1 ! m) = t_doc (tabs s ! m) \<and> t_fase (tabs s1 ! m) = t_fase (tabs s ! m)"
    by (rule agregar_alta [OF assms(1,4,5)]) blast+
  have oj: "t_prompt (tabs s1 ! j) = t_prompt (tabs s ! j) \<and> t_doc (tabs s1 ! j) = t_doc (tabs s ! j) \<and>
      t_fase (tabs s1 ! j) = t_fase (tabs s ! j)" using o1 [OF lj] assms(3) by simp
  then have lb: "libre s1 j" using assms(2) len1 by (simp add: libre_def)
  have "obtenerComidas (ls s1) = Inr (cs @ [comida_nueva now (js_trim (input_comida (t_doc (tabs s ! i))))])"
    using ls1 by simp
  moreover have "js_trim (input_comida (t_doc (tabs s1 ! j))) \<noteq> []" using oj assms(6) by simp
  ultimately obtain s2 where e2: "paso (ClickAgregar j now) s1 = Some s2"
    and ls2: "ls s2 = guardarComidas ((cs @ [comida_nueva now (js_trim (input_comida (t_doc (tabs s ! i))))]) @
                 [comida_nueva now (js_trim (input_comida (t_doc (tabs s1 ! j))))]) (ls s1)"
    by (rule agregar_alta [OF lb])
  show ?thesis using e1 e2 ls2 oj by simp
qed

text \<open>C19: of two meals with one id only the first can be claimed.  \<open>findIndex\<close> finds
  the first meal with the id, so whatever a click on the button of the later one and the
  answer to its prompt do, the later meal is left as it was.\<close>

theorem duplicado_intacto:
  assumes "obtenerComidas (local_st p) = Inr cs" and "k1 < k2" and "k2 < length cs"
    and "comida_id (cs ! k1) = comida_id (cs ! k2)"
    and "seleccionarComida (comida_id (cs ! k2)) r p = Inr p'"
  shows "\<exists>cs'. obtenerComidas (local_st p') = Inr cs' \<and> length cs' = length cs \<and> cs' ! k2 = cs ! k2"
proof (cases "seleccionar_inicio (comida_id (cs ! k2)) p")
  case (Inl e)
  with assms(5) show ?thesis by (simp add: seleccionarComida_def)
next
  case (Inr x)
  obtain q pend where x: "x = (q, pend)" by (cases x)
  show ?thesis
  proof (cases pend)
    case None
    with Inr x assms(5) have "p' = q" by (simp add: seleccionarComida_def)
    with Inr x inicio_resultado assms(1) show ?thesis by fastforce
  next
    case (Some pd)
    obtain cs0 i where pd: "pd = (cs0, i)" by (cases pd)
    with Inr x Some inicio_pend [of "comida_id (cs ! k2)" p q cs0 i] assms(1)
    have "cs0 = cs" and "q = p" and "i < length cs" by auto
    have ne: "find_index (\<lambda>c. comida_id c = comida_id (cs ! k2)) cs \<noteq> -1"
      using assms(3) nth_mem [of k2 cs] unfolding find_index_none by blast
    have "i = nat (find_index (\<lambda>c. comida_id c = comida_id (cs ! k2)) cs)"
      using Inr x Some pd \<open>cs0 = cs\<close> assms(1) by (auto simp: seleccionar_inicio_def Let_def split: if_splits)
    then have "find_index (\<lambda>c. comida_id c = comida_id (cs ! k2)) cs = int i"
      using find_index_found [OF ne] by simp
    then have "\<forall>m<i. comida_id (cs ! m) \<noteq> comida_id (cs ! k2)" by (rule find_index_nth [THEN conjunct2, THEN conjunct2])
    with assms(4) have "i \<le> k1" by (meson not_le)
    with assms(2) have "i \<noteq> k2" by simp
    have "seleccionar_fin (cs, i) r p = Inr p'"
      using Inr x Some pd \<open>cs0 = cs\<close> \<open>q = p\<close> assms(5) by (simp add: seleccionarComida_def)
    from fin_efecto [OF this] assms(1) \<open>i \<noteq> k2\<close> show ?thesis by auto
  qed
qed

theorem doble_seleccion_witness:
  "\<exists>s'. ejecutar [ClickBoton 0 0, ClickBoton 1 0, Responder 0 (Some (js ''Ana'')), Responder 1 (Some (js ''Luis''))]
          (sistema_con [tacos] [] []) = Some s' \<and>
    obtenerComidas (ls s') = Inr (reclamada [tacos] 0 (js_trim (js ''Luis''))) \<and>
    last (t_alerts (tabs s' ! 0)) = aviso (js_trim (js ''Ana'')) (nombre ([tacos] ! 0)) \<and>
    last (t_alerts (tabs s' ! 1)) = aviso (js_trim (js ''Luis'')) (nombre ([tacos] ! 0))"
  by (rule doble_seleccion) (simp_all add: libre_def truthy_def seleccionada_def js_trim_def is_ws_def js_def)

theorem perdida_alta_witness:
  "\<exists>s1 s2. ejecutar [ClickBoton 0 0, ClickAgregar 1 6] (sistema_con [tacos] [] (js ''Pizza'')) = Some s1 \<and>
    obtenerComidas (ls s1) = Inr ([tacos] @ [comida_nueva 6 (js_trim (input_comida (t_doc (tabs (sistema_con [tacos] [] (js ''Pizza'')) ! 1))))]) \<and>
    paso (Responder 0 (Some (js ''Ana''))) s1 = Some s2 \<and>
    obtenerComidas (ls s2) = Inr (reclamada [tacos] 0 (js_trim (js ''Ana'')))"
  by (rule perdida_alta) (simp_all add: libre_def truthy_def seleccionada_def js_trim_def is_ws_def js_def)

theorem ids_duplicados_witness:
  "\<exists>s'. ejecutar [ClickAgregar 0 5, ClickAgregar 1 5] (sistema_con [] (js ''Tacos'') (js ''Pizza'')) = Some s' \<and>
    obtenerComidas (ls s') =
      Inr ([] @ [comida_nueva 5 (js_trim (input_comida (t_doc (tabs (sistema_con [] (js ''Tacos'') (js ''Pizza'')) ! 0)))),
                 comida_nueva 5 (js_trim (input_comida (t_doc (tabs (sistema_con [] (js ''Tacos'') (js ''Pizza'')) ! 1))))])"
  by (rule ids_duplicados) (simp_all add: libre_def js_trim_def is_ws_def js_def)

theorem duplicado_intacto_witness:
  "\<exists>p' cs'. seleccionarComida (js ''5'') (Some (js ''Ana'')) (pagina [tacos, tacos\<lparr>nombre := js ''Pizza''\<rparr>] []) = Inr p' \<and>
     obtenerComidas (local_st p') = Inr cs' \<and> length cs' = 2 \<and> cs' ! 1 = tacos\<lparr>nombre := js ''Pizza''\<rparr>"
proof -
  let ?cs = "[tacos, tacos\<lparr>nombre := js ''Pizza''\<rparr>]"
  have pre: "obtenerComidas (local_st (pagina ?cs [])) = Inr ?cs"
    "find_index (\<lambda>c. comida_id c = js ''5'') ?cs = int 0" "\<not> seleccionada (?cs ! 0)"
    "js_trim (js ''Ana'') \<noteq> []"
    by (simp_all add: seleccionada_def js_trim_def is_ws_def js_def)
  obtain p' where p': "seleccionarComida (js ''5'') (Some (js ''Ana'')) (pagina ?cs []) = Inr p'"
    using seleccionar_exito_eq [OF pre] by blast
  have "\<exists>cs'. obtenerComidas (local_st p') = Inr cs' \<and> length cs' = length ?cs \<and> cs' ! 1 = ?cs ! 1"
    using duplicado_intacto [of "pagina ?cs []" ?cs 0 1 "Some (js ''Ana'')" p'] pre(1) p' by simp
  with p' show ?thesis by auto
qed

end
