(* ===== verification/JsonFuel.thy ===== *)
theory JsonFuel
  imports Json
begin

text \<open>
  Termination of \<open>JSON.parse\<close>.  The parser of \<open>Json\<close> is a recursive descent in four
  mutually recursive functions, made total by a fuel argument that each call spends.
  Every call consumes at least one code unit of its input, so a call on a text of length
  \<open>n\<close> never goes deeper than \<open>n\<close> calls: with more fuel than the length of the text
  the result no longer depends on the fuel.  \<open>json_parse\<close> gives \<open>Suc (length s)\<close>,
  so it computes what the unbounded recursive descent computes, and running out of fuel
  is never the reason it fails.
\<close>

lemma length_skip_ws: "length (skip_ws s) \<le> length s"
  by (simp add: skip_ws_def length_dropWhile_le)

lemma skip_ws_Cons_less: "skip_ws s = c # r \<Longrightarrow> length r < length s"
  using length_skip_ws [of s] by simp

lemma p_string_shorter: "p_string s = Some (x, r) \<Longrightarrow> length r < length s"
proof (induction s arbitrary: x rule: p_string.induct)
  case 1
  then show ?case by simp
next
  case (2 c r0)
  then show ?case
    by (fastforce split: if_splits list.splits option.splits)
qed

lemma map_apfst_Some: "map_option (apfst g) x = Some (v, r) \<longleftrightarrow> (\<exists>y. x = Some (y, r) \<and> v = g y)"
  by (cases x) auto

lemma case_pair_Some:
  "(case x of None \<Rightarrow> None | Some (a, b) \<Rightarrow> h a b) = Some y \<longleftrightarrow> (\<exists>a b. x = Some (a, b) \<and> h a b = Some y)"
  by (cases x) auto

lemmas parse_Some = map_apfst_Some case_pair_Some

lemma p_value_shorter:
  assumes ie: "\<And>s vs r. p_elems f s = Some (vs, r) \<Longrightarrow> length r < length s"
    and im: "\<And>s m r. p_member f s = Some (m, r) \<Longrightarrow> length r < length s"
    and ims: "\<And>s ms r. p_members f s = Some (ms, r) \<Longrightarrow> length r < length s"
    and iv: "\<And>s v r. p_value f s = Some (v, r) \<Longrightarrow> length r < length s"
    and h: "p_value (Suc f) s = Some (v, r)"
  shows "length r < length s"
proof (cases "skip_ws s")
  case Nil
  with h show ?thesis by simp
next
  case (Cons c r0)
  then have l: "length r0 < length s" by (rule skip_ws_Cons_less)
  from h Cons have "length r \<le> length r0"
    using length_skip_ws [of r0]
    by (auto simp: parse_Some split: if_splits dest!: p_string_shorter iv ie im ims)
  with l show ?thesis by simp
qed

lemma p_elems_shorter:
  assumes iv: "\<And>s v r. p_value f s = Some (v, r) \<Longrightarrow> length r < length s"
    and ie: "\<And>s vs r. p_elems f s = Some (vs, r) \<Longrightarrow> length r < length s"
    and h: "p_elems (Suc f) s = Some (vs, r)"
  shows "length r < length s"
proof (cases "skip_ws s")
  case Nil
  with h show ?thesis by simp
next
  case (Cons c r0)
  then have l: "length r0 < length s" by (rule skip_ws_Cons_less)
  from h Cons have "length r \<le> length r0"
    by (auto simp: parse_Some split: if_splits dest!: iv ie)
  with l show ?thesis by simp
qed

lemma p_member_shorter:
  assumes iv: "\<And>s v r. p_value f s = Some (v, r) \<Longrightarrow> length r < length s"
    and h: "p_member (Suc f) s = Some (m, r)"
  shows "length r < length s"
proof (cases "skip_ws s")
  case Nil
  with h show ?thesis by simp
next
  case (Cons c r0)
  then have l: "length r0 < length s" by (rule skip_ws_Cons_less)
  from h Cons obtain k r1 d r2 w where ps: "p_string r0 = Some (k, r1)" and sk: "skip_ws r1 = d # r2"
    and pv: "p_value f r2 = Some (w, r)"
    by (fastforce simp: parse_Some neq_Nil_conv split: if_splits list.splits)
  from p_string_shorter [OF ps] skip_ws_Cons_less [OF sk] iv [OF pv] l show ?thesis by simp
qed

lemma p_members_shorter:
  assumes im: "\<And>s m r. p_member f s = Some (m, r) \<Longrightarrow> length r < length s"
    and ims: "\<And>s ms r. p_members f s = Some (ms, r) \<Longrightarrow> length r < length s"
    and h: "p_members (Suc f) s = Some (ms, r)"
  shows "length r < length s"
proof (cases "skip_ws s")
  case Nil
  with h show ?thesis by simp
next
  case (Cons c r0)
  then have l: "length r0 < length s" by (rule skip_ws_Cons_less)
  from h Cons have "length r \<le> length r0"
    by (auto simp: parse_Some split: if_splits dest!: im ims)
  with l show ?thesis by simp
qed

lemma p_consume:
  "(\<forall>s v r. p_value f s = Some (v, r) \<longrightarrow> length r < length s) \<and>
   (\<forall>s vs r. p_elems f s = Some (vs, r) \<longrightarrow> length r < length s) \<and>
   (\<forall>s m r. p_member f s = Some (m, r) \<longrightarrow> length r < length s) \<and>
   (\<forall>s ms r. p_members f s = Some (ms, r) \<longrightarrow> length r < length s)"
proof (induction f)
  case 0
  then show ?case by simp
next
  case (Suc f)
  then have iv: "\<And>s v r. p_value f s = Some (v, r) \<Longrightarrow> length r < length s"
    and ie: "\<And>s vs r. p_elems f s = Some (vs, r) \<Longrightarrow> length r < length s"
    and im: "\<And>s m r. p_member f s = Some (m, r) \<Longrightarrow> length r < length s"
    and ims: "\<And>s ms r. p_members f s = Some (ms, r) \<Longrightarrow> length r < length s"
    by blast+
  have "p_value (Suc f) s = Some (v, r) \<Longrightarrow> length r < length s" for s v r
    by (rule p_value_shorter [of f, OF ie im ims iv])
  moreover have "p_elems (Suc f) s = Some (vs, r) \<Longrightarrow> length r < length s" for s vs r
    by (rule p_elems_shorter [of f, OF iv ie])
  moreover have "p_member (Suc f) s = Some (m, r) \<Longrightarrow> length r < length s" for s m r
    by (rule p_member_shorter [of f, OF iv])
  moreover have "p_members (Suc f) s = Some (ms, r) \<Longrightarrow> length r < length s" for s ms r
    by (rule p_members_shorter [of f, OF im ims])
  ultimately show ?case by blast
qed

lemmas p_value_consume = p_consume [THEN conjunct1, rule_format]
lemmas p_elems_consume = p_consume [THEN conjunct2, THEN conjunct1, rule_format]
lemmas p_member_consume = p_consume [THEN conjunct2, THEN conjunct2, THEN conjunct1, rule_format]
lemmas p_members_consume = p_consume [THEN conjunct2, THEN conjunct2, THEN conjunct2, rule_format]

subsection \<open>More fuel than input changes nothing\<close>

lemmas p_all_simps = p_value.simps p_elems.simps p_member.simps p_members.simps

lemma p_value_fuel:
  assumes iv: "\<And>s. length s < g \<Longrightarrow> p_value (Suc g) s = p_value g s"
    and ie: "\<And>s. length s < g \<Longrightarrow> p_elems (Suc g) s = p_elems g s"
    and im: "\<And>s. length s < g \<Longrightarrow> p_member (Suc g) s = p_member g s"
    and ims: "\<And>s. length s < g \<Longrightarrow> p_members (Suc g) s = p_members g s"
    and l: "length s < Suc g"
  shows "p_value (Suc (Suc g)) s = p_value (Suc g) s"
proof (cases "skip_ws s")
  case Nil
  then show ?thesis by simp
next
  case (Cons c r0)
  with l have r0: "length r0 < g" using skip_ws_Cons_less [OF Cons] by simp
  have e: "p_elems (Suc g) r1 = p_elems g r1" if "p_value g r0 = Some (v, r1)" for v r1
    using p_value_consume [OF that] r0 by (intro ie) simp
  have ms: "p_members (Suc g) r1 = p_members g r1" if "p_member g r0 = Some (m, r1)" for m r1
    using p_member_consume [OF that] r0 by (intro ims) simp
  show ?thesis
    using Cons iv [OF r0] im [OF r0]
    by (cases "p_value g r0"; cases "p_member g r0")
       (auto simp del: p_all_simps simp: p_value.simps(2) [of "Suc g" s] p_value.simps(2) [of g s] e ms
             split: if_split)
qed

lemma p_elems_fuel:
  assumes iv: "\<And>s. length s < g \<Longrightarrow> p_value (Suc g) s = p_value g s"
    and ie: "\<And>s. length s < g \<Longrightarrow> p_elems (Suc g) s = p_elems g s"
    and l: "length s < Suc g"
  shows "p_elems (Suc (Suc g)) s = p_elems (Suc g) s"
proof (cases "skip_ws s")
  case Nil
  then show ?thesis by simp
next
  case (Cons c r0)
  with l have r0: "length r0 < g" using skip_ws_Cons_less [OF Cons] by simp
  have e: "p_elems (Suc g) r1 = p_elems g r1" if "p_value g r0 = Some (v, r1)" for v r1
    using p_value_consume [OF that] r0 by (intro ie) simp
  show ?thesis
    using Cons iv [OF r0] by (cases "p_value g r0")
       (auto simp del: p_all_simps simp: p_elems.simps(2) [of "Suc g" s] p_elems.simps(2) [of g s] e
             split: if_split)
qed

lemma p_member_fuel:
  assumes iv: "\<And>s. length s < g \<Longrightarrow> p_value (Suc g) s = p_value g s"
    and l: "length s < Suc g"
  shows "p_member (Suc (Suc g)) s = p_member (Suc g) s"
proof (cases "skip_ws s")
  case Nil
  then show ?thesis by simp
next
  case (Cons c r0)
  with l have r0: "length r0 < g" using skip_ws_Cons_less [OF Cons] by simp
  have v: "p_value (Suc g) r2 = p_value g r2"
    if "p_string r0 = Some (k, r1)" and "skip_ws r1 = d # r2" for k r1 d r2
    using p_string_shorter [OF that(1)] skip_ws_Cons_less [OF that(2)] r0 by (intro iv) simp
  show ?thesis
    using Cons by (cases "p_string r0")
       (auto simp del: p_all_simps simp: p_member.simps(2) [of "Suc g" s] p_member.simps(2) [of g s] v
             split: if_split list.split)
qed

lemma p_members_fuel:
  assumes im: "\<And>s. length s < g \<Longrightarrow> p_member (Suc g) s = p_member g s"
    and ims: "\<And>s. length s < g \<Longrightarrow> p_members (Suc g) s = p_members g s"
    and l: "length s < Suc g"
  shows "p_members (Suc (Suc g)) s = p_members (Suc g) s"
proof (cases "skip_ws s")
  case Nil
  then show ?thesis by simp
next
  case (Cons c r0)
  with l have r0: "length r0 < g" using skip_ws_Cons_less [OF Cons] by simp
  have ms: "p_members (Suc g) r1 = p_members g r1" if "p_member g r0 = Some (m, r1)" for m r1
    using p_member_consume [OF that] r0 by (intro ims) simp
  show ?thesis
    using Cons im [OF r0] by (cases "p_member g r0")
       (auto simp del: p_all_simps simp: p_members.simps(2) [of "Suc g" s] p_members.simps(2) [of g s] ms
             split: if_split)
qed

lemma p_fuel_suc:
  "(\<forall>s. length s < g \<longrightarrow> p_value (Suc g) s = p_value g s) \<and>
   (\<forall>s. length s < g \<longrightarrow> p_elems (Suc g) s = p_elems g s) \<and>
   (\<forall>s. length s < g \<longrightarrow> p_member (Suc g) s = p_member g s) \<and>
   (\<forall>s. length s < g \<longrightarrow> p_members (Suc g) s = p_members g s)"
proof (induction g)
  case 0
  then show ?case by simp
next
  case (Suc g)
  then have iv: "\<And>s. length s < g \<Longrightarrow> p_value (Suc g) s = p_value g s"
    and ie: "\<And>s. length s < g \<Longrightarrow> p_elems (Suc g) s = p_elems g s"
    and im: "\<And>s. length s < g \<Longrightarrow> p_member (Suc g) s = p_member g s"
    and ims: "\<And>s. length s < g \<Longrightarrow> p_members (Suc g) s = p_members g s"
    by blast+
  show ?case
    using p_value_fuel [of g, OF iv ie im ims] p_elems_fuel [of g, OF iv ie]
      p_member_fuel [of g, OF iv] p_members_fuel [of g, OF im ims]
    by blast
qed

lemma p_value_fuel_add: "length s < f \<Longrightarrow> p_value (f + k) s = p_value f s"
proof (induction k)
  case 0
  then show ?case by simp
next
  case (Suc k)
  then have "length s < f + k" by simp
  with p_fuel_suc [of "f + k"] Suc show ?case by simp
qed

lemma p_value_fuel_le: "length s < f \<Longrightarrow> f \<le> f' \<Longrightarrow> p_value f' s = p_value f s"
  using p_value_fuel_add [of s f "f' - f"] by simp

text \<open>C20: \<open>JSON.parse\<close> terminates on every text with the fuel it is given: running the
  recursive descent with any fuel larger than the length of the text gives the same
  result as \<open>json_parse\<close>, so no parse of the model ever fails for lack of fuel.\<close>

theorem json_parse_fuel:
  assumes "length s < f"
  shows "json_parse s =
    (case p_value f s of None \<Rightarrow> None | Some (v, r) \<Rightarrow> if skip_ws r = [] then Some v else None)"
proof -
  have "p_value f s = p_value (Suc (length s)) s"
    using assms by (intro p_value_fuel_le) simp_all
  then show ?thesis by (simp add: json_parse_def)
qed

theorem json_parse_fuel_witness:
  "length (js ''[true]'') < 100 \<and>
   json_parse (js ''[true]'') =
     (case p_value 100 (js ''[true]'') of None \<Rightarrow> None
      | Some (v, r) \<Rightarrow> if skip_ws r = [] then Some v else None)"
  using json_parse_fuel [of "js ''[true]''" 100] by simp

end
