(* ===== verification/StoredText.thy ===== *)
theory StoredText
  imports Store
begin

text \<open>
  The text \<open>guardarComidas\<close> writes to \<open>localStorage\<close>.  \<open>JSON.stringify\<close>
  escapes every code unit below \<open>0x20\<close> and every surrogate that is not half of a pair
  (ECMA-262, QuoteJSONString), so whatever the names hold, the stored value is a single
  line of well-formed UTF-16: every code unit is at least \<open>0x20\<close>, every high
  surrogate is followed by a low one, and no low surrogate stands alone.  Its size is
  linear in the meals' strings (\<open>tam_guardado\<close>), which bounds what a list of a given
  size needs of the \<open>localStorage\<close> quota.
\<close>

fun utf16_ok :: "jstr \<Rightarrow> bool" where
  "utf16_ok [] = True"
| "utf16_ok [c] = (\<not> is_hi c \<and> \<not> is_lo c)"
| "utf16_ok (c # d # r) = (if is_hi c then is_lo d \<and> utf16_ok r else \<not> is_lo c \<and> utf16_ok (d # r))"

definition sin_control :: "jstr \<Rightarrow> bool" where
  "sin_control s \<longleftrightarrow> (\<forall>c\<in>set s. 0x20 \<le> c)"

definition texto_ok :: "jstr \<Rightarrow> bool" where
  "texto_ok s \<longleftrightarrow> utf16_ok s \<and> sin_control s"

text \<open>The code units of the strings of a meal, which bound the size of its JSON text.\<close>

definition tam_comida :: "comida \<Rightarrow> nat" where
  "tam_comida c = length (comida_id c) + length (nombre c) +
     (case seleccionadoPor c of None \<Rightarrow> 0 | Some q \<Rightarrow> length q)"

subsection \<open>Well-formed UTF-16\<close>

lemma utf16_ok_Cons_plain: "\<not> is_hi c \<Longrightarrow> \<not> is_lo c \<Longrightarrow> utf16_ok r \<Longrightarrow> utf16_ok (c # r)"
  by (cases r) simp_all

lemma utf16_ok_append: "utf16_ok a \<Longrightarrow> utf16_ok b \<Longrightarrow> utf16_ok (a @ b)"
proof (induction a rule: utf16_ok.induct)
  case 1
  then show ?case by simp
next
  case (2 c)
  then show ?case by (simp add: utf16_ok_Cons_plain)
next
  case (3 c d r)
  then show ?case by (cases "is_hi c") simp_all
qed

lemma ascii_not_surrogate: "c < 0xD800 \<Longrightarrow> \<not> is_hi c \<and> \<not> is_lo c"
  by (auto simp: is_hi_def is_lo_def word_le_nat_alt word_less_nat_alt)

lemma utf16_ok_ascii: "\<forall>c\<in>set s. c < 0xD800 \<Longrightarrow> utf16_ok s"
  by (induction s) (simp_all add: utf16_ok_Cons_plain ascii_not_surrogate)

lemma hexd_small: "n < 16 \<Longrightarrow> hexd n < 0xD800 \<and> 0x20 \<le> hexd n"
  by (simp add: word_less_nat_alt word_le_nat_alt unat_hexd)

lemma u_escape_small: "\<forall>x\<in>set (u_escape c). x < 0xD800 \<and> 0x20 \<le> x"
proof -
  have u: "unat c < 65536" using unsigned_less [of c] by simp
  then have "unat c div 4096 < 16" by (simp add: div_less_iff_less_mult)
  then show ?thesis by (simp add: u_escape_def hexd_small)
qed

text \<open>What one escaped code unit is: the unit itself, when it is neither a control
  character nor a surrogate, or printable ASCII.\<close>

lemma esc_unit_cases:
  "(esc_unit c = [c] \<and> 0x20 \<le> c \<and> \<not> is_hi c \<and> \<not> is_lo c) \<or>
   (\<forall>x\<in>set (esc_unit c). x < 0xD800 \<and> 0x20 \<le> x)"
proof (cases "c < 0x20 \<or> (0xD800 \<le> c \<and> c \<le> 0xDFFF) \<or> c = 0x22 \<or> c = 0x5C")
  case True
  then have "esc_unit c = [0x5C, 0x22] \<or> esc_unit c = [0x5C, 0x5C] \<or> esc_unit c = u_escape c \<or>
    esc_unit c = [0x5C, 0x62] \<or> esc_unit c = [0x5C, 0x74] \<or> esc_unit c = [0x5C, 0x6E] \<or>
    esc_unit c = [0x5C, 0x66] \<or> esc_unit c = [0x5C, 0x72]"
    by (auto simp: esc_unit_def)
  then show ?thesis using u_escape_small [of c] by auto
next
  case False
  then have "esc_unit c = [c]" by (auto simp: esc_unit_def)
  moreover from False have "\<not> is_hi c \<and> \<not> is_lo c" "0x20 \<le> c"
    by (auto simp: is_hi_def is_lo_def word_le_nat_alt word_less_nat_alt)
  ultimately show ?thesis by simp
qed

lemma utf16_esc_unit: "utf16_ok (esc_unit c)"
  using esc_unit_cases [of c] by (auto intro: utf16_ok_ascii)

lemma sin_control_esc_unit: "sin_control (esc_unit c)"
  using esc_unit_cases [of c] by (auto simp: sin_control_def)

subsection \<open>The serialised text\<close>

lemma texto_ok_append: "texto_ok a \<Longrightarrow> texto_ok b \<Longrightarrow> texto_ok (a @ b)"
  by (auto simp: texto_ok_def sin_control_def utf16_ok_append)

lemma texto_ok_Cons_ascii: "0x20 \<le> c \<Longrightarrow> c < 0xD800 \<Longrightarrow> texto_ok r \<Longrightarrow> texto_ok (c # r)"
  using ascii_not_surrogate [of c]
  by (simp add: texto_ok_def sin_control_def utf16_ok_Cons_plain)

lemma texto_ok_esc_unit: "texto_ok (esc_unit c)"
  by (simp add: texto_ok_def utf16_esc_unit sin_control_esc_unit)

lemma texto_ok_ascii: "\<forall>x\<in>set s. x < 0xD800 \<and> 0x20 \<le> x \<Longrightarrow> texto_ok s"
  by (simp add: texto_ok_def sin_control_def utf16_ok_ascii)

lemma texto_ok_pair:
  assumes "is_hi c" and "is_lo d" and "texto_ok r"
  shows "texto_ok (c # d # r)"
proof -
  from assms(1,2) have "0x20 \<le> c" "0x20 \<le> d"
    by (auto simp: is_hi_def is_lo_def word_le_nat_alt)
  with assms show ?thesis by (simp add: texto_ok_def sin_control_def)
qed

lemma texto_ok_quote_body: "texto_ok (quote_body s)"
proof (induction s rule: quote_body.induct)
  case 1
  then show ?case by (simp add: texto_ok_def sin_control_def)
next
  case (2 c d r)
  show ?case
  proof (cases "is_hi c \<and> is_lo d")
    case True
    with "2.IH" show ?thesis by (simp add: texto_ok_pair)
  next
    case False
    then have "quote_body (c # d # r) = esc_unit c @ quote_body (d # r)" by auto
    with False "2.IH" show ?thesis by (simp add: texto_ok_append texto_ok_esc_unit)
  qed
next
  case (3 c)
  then show ?case by (simp add: texto_ok_esc_unit)
qed

lemma texto_ok_quote: "texto_ok (quote s)"
  unfolding quote_def
  by (intro texto_ok_Cons_ascii texto_ok_append texto_ok_quote_body texto_ok_ascii) simp_all

lemma texto_ok_join_comma:
  assumes a: "\<forall>x\<in>set xs. texto_ok x"
  shows "texto_ok (join_comma xs)"
proof (cases xs)
  case Nil
  then show ?thesis by (simp add: texto_ok_def sin_control_def)
next
  case (Cons y ys)
  have "texto_ok (concat (map (\<lambda>y. 0x2C # y) zs))" if "\<forall>x\<in>set zs. texto_ok x" for zs
    using that by (induction zs) (simp_all add: texto_ok_append texto_ok_Cons_ascii texto_ok_ascii)
  with a Cons show ?thesis
    by (simp add: texto_ok_append)
qed

lemma texto_ok_js:
  assumes "\<forall>c\<in>set s. 32 \<le> (of_char c :: nat)"
  shows "texto_ok (js s)"
proof (rule texto_ok_ascii, rule ballI)
  fix x
  assume x: "x \<in> set (js s)"
  then obtain c where "c \<in> set s" and "x = of_nat (of_char c)" by (auto simp: js_def)
  with assms have "32 \<le> unat x" by simp
  moreover have "unat x < 256" using js_units_small [OF x] .
  ultimately show "x < 0xD800 \<and> 0x20 \<le> x" by (simp add: word_le_nat_alt word_less_nat_alt)
qed

lemma texto_ok_stringify: "texto_ok (json_stringify v)"
proof (induction v)
  case JNull
  then show ?case by (simp add: texto_ok_js)
next
  case (JBool b)
  then show ?case by (simp add: texto_ok_js)
next
  case (JStr s)
  then show ?case by (simp add: texto_ok_quote)
next
  case (JArr vs)
  then show ?case
    by (simp add: texto_ok_join_comma texto_ok_Cons_ascii texto_ok_append texto_ok_ascii)
next
  case (JObj ms)
  have "texto_ok (quote k @ 0x3A # json_stringify v)" if "(k, v) \<in> set ms" for k v
    using JObj.IH [OF that, of v] by (simp add: texto_ok_append texto_ok_quote texto_ok_Cons_ascii)
  then have "texto_ok (join_comma (map (\<lambda>(k, v). quote k @ 0x3A # json_stringify v) ms))"
    by (intro texto_ok_join_comma) auto
  then show ?case by (simp add: texto_ok_Cons_ascii texto_ok_append texto_ok_ascii)
qed

text \<open>C21: the stored text is a single line of well-formed UTF-16.  Whatever the meal
  names and claimer names hold (control characters, quotes, lone surrogates),
  \<open>guardarComidas\<close> writes a value in which every code unit is at least \<open>0x20\<close>
  and every surrogate is half of a pair.\<close>

theorem texto_guardado:
  "\<exists>t. guardarComidas cs ls STORAGE_KEY = Some t \<and> utf16_ok t \<and> (\<forall>c\<in>set t. 0x20 \<le> c)"
  using texto_ok_stringify [of "JArr (map comida_to_json cs)"]
  by (simp add: guardarComidas_def texto_ok_def sin_control_def)

theorem texto_guardado_witness:
  "\<exists>t. guardarComidas [\<lparr>comida_id = js ''1'', nombre = [0xD800, 0xA], seleccionadoPor = None\<rparr>]
        Map.empty STORAGE_KEY = Some t \<and> utf16_ok t \<and> (\<forall>c\<in>set t. 0x20 \<le> c)"
  by (rule texto_guardado)

subsection \<open>The size of the stored text\<close>

text \<open>\<open>localStorage\<close> has a quota, and the code never checks what it writes against it.
  An escaped code unit takes at most six units (\<open>\uXXXX\<close>), so a string of \<open>n\<close>
  units is written in at most \<open>6 n + 2\<close>.\<close>

lemma length_esc_unit: "length (esc_unit c) \<le> 6"
  by (simp add: esc_unit_def u_escape_def)

lemma length_quote_body: "length (quote_body s) \<le> 6 * length s"
proof (induction s rule: quote_body.induct)
  case (2 c d r)
  show ?case
  proof (cases "is_hi c \<and> is_lo d")
    case True
    with "2.IH" show ?thesis by simp
  next
    case False
    then have "quote_body (c # d # r) = esc_unit c @ quote_body (d # r)" by auto
    with False "2.IH" length_esc_unit [of c] show ?thesis by simp
  qed
qed (simp_all add: length_esc_unit)

lemma length_quote: "length (quote s) \<le> 6 * length s + 2"
  using length_quote_body [of s] by (simp add: quote_def)

lemma length_join_comma: "length (join_comma xs) \<le> sum_list (map (\<lambda>x. length x + 1) xs)"
proof (cases xs)
  case (Cons y ys)
  have "length (concat (map (\<lambda>y. 0x2C # y) zs)) = sum_list (map (\<lambda>x. length x + 1) zs)" for zs :: "jstr list"
    by (induction zs) simp_all
  with Cons show ?thesis by simp
qed simp

lemma length_obj:
  "length (json_stringify (JObj ms)) \<le>
     2 + sum_list (map (\<lambda>(k, v). length (quote k) + 2 + length (json_stringify v)) ms)"
proof -
  have "sum_list (map (\<lambda>x. length x + 1) (map (\<lambda>(k, v). quote k @ 0x3A # json_stringify v) ms)) =
      sum_list (map (\<lambda>(k, v). length (quote k) + 2 + length (json_stringify v)) ms)"
    by (induction ms) auto
  with length_join_comma [of "map (\<lambda>(k, v). quote k @ 0x3A # json_stringify v) ms"] show ?thesis
    by simp
qed

lemma length_claves:
  "length (quote (js ''id'')) = 4" "length (quote (js ''nombre'')) = 8"
  "length (quote (js ''seleccionadoPor'')) = 17"
  by code_simp+

lemma length_comida_json: "length (json_stringify (comida_to_json c)) \<le> 45 + 6 * tam_comida c"
proof -
  let ?v = "case seleccionadoPor c of None \<Rightarrow> JNull | Some q \<Rightarrow> JStr q"
  have v: "length (json_stringify ?v) \<le> 4 + 6 * (case seleccionadoPor c of None \<Rightarrow> 0 | Some q \<Rightarrow> length q)"
    using length_quote [of "the (seleccionadoPor c)"] by (cases "seleccionadoPor c") (simp_all add: js_def)
  have "length (json_stringify (comida_to_json c)) \<le>
      2 + ((length (quote (js ''id'')) + 2 + length (quote (comida_id c))) +
      ((length (quote (js ''nombre'')) + 2 + length (quote (nombre c))) +
      ((length (quote (js ''seleccionadoPor'')) + 2 + length (json_stringify ?v)) + 0)))"
    unfolding comida_to_json_def
    using length_obj [of "[(js ''id'', JStr (comida_id c)), (js ''nombre'', JStr (nombre c)), (js ''seleccionadoPor'', ?v)]"]
    by (simp only: list.map prod.case sum_list.Cons sum_list.Nil json_stringify.simps(3))
  moreover have "length (quote (comida_id c)) \<le> 6 * length (comida_id c) + 2"
    and "length (quote (nombre c)) \<le> 6 * length (nombre c) + 2" by (rule length_quote)+
  ultimately show ?thesis
    using v unfolding length_claves tam_comida_def
    by (simp only: distrib_left)
qed

text \<open>C30: the size of what \<open>guardarComidas\<close> writes is linear in the names.  The
  stored text takes at most 2 code units plus, for each meal, 46 units and six units per
  code unit of its id, name and claimer.\<close>

theorem tam_guardado:
  "\<exists>t. guardarComidas cs ls STORAGE_KEY = Some t \<and>
     length t \<le> 2 + sum_list (map (\<lambda>c. 46 + 6 * tam_comida c) cs)"
proof -
  have "sum_list (map (\<lambda>x. length x + 1) (map json_stringify (map comida_to_json cs))) \<le>
      sum_list (map (\<lambda>c. 46 + 6 * tam_comida c) cs)"
  proof (induction cs)
    case (Cons a cs)
    then show ?case using length_comida_json [of a] by simp
  qed simp
  with length_join_comma [of "map json_stringify (map comida_to_json cs)"]
  have "length (join_comma (map json_stringify (map comida_to_json cs))) \<le>
      sum_list (map (\<lambda>c. 46 + 6 * tam_comida c) cs)" by (rule order_trans)
  then show ?thesis by (simp add: guardarComidas_def)
qed

end
