(* ===== verification/Ids.thy ===== *)
theory Ids
  imports Wellformed
begin

text \<open>
  The uniqueness of meal ids.  \<open>agregarComida\<close> takes the id of a new meal from
  \<open>Date.now().toString()\<close> (line 87), the argument \<open>now\<close> of \<open>ClickAgregar\<close>.
  \<open>Races.ids_duplicados\<close> shows two adds in the same millisecond give two meals one
  id.  Here the clock is part of the execution: \<open>alcanzable_reloj\<close> is
  \<open>App.alcanzable\<close> with the time \<open>t\<close> before which every id handed out so far lies,
  and an add click is allowed only at a time \<open>now \<ge> t\<close>, after which the clock is
  past \<open>now\<close>.  Under this hypothesis, that no two adds of the whole browser fall in
  one millisecond, every stored id is the decimal form of an earlier time and no two
  stored meals share one, whatever the interleaving of the tabs and their prompts.
\<close>

definition es_id :: "nat \<Rightarrow> jstr \<Rightarrow> bool" where
  "es_id t x \<longleftrightarrow> num_to_string (dec_value x) = x \<and> dec_value x < t"

definition ids_ok :: "nat \<Rightarrow> comida list \<Rightarrow> bool" where
  "ids_ok t cs \<longleftrightarrow> distinct (map comida_id cs) \<and> list_all (es_id t) (map comida_id cs)"

definition ids_almacen :: "nat \<Rightarrow> storage \<Rightarrow> bool" where
  "ids_almacen t l \<longleftrightarrow> (case obtenerComidas l of Inl _ \<Rightarrow> True | Inr cs \<Rightarrow> ids_ok t cs)"

definition prompt_ids :: "nat \<Rightarrow> pending option \<Rightarrow> bool" where
  "prompt_ids t x \<longleftrightarrow> (case x of None \<Rightarrow> True | Some (cs, i) \<Rightarrow> ids_ok t cs \<and> i < length cs)"

definition sistema_ids :: "nat \<Rightarrow> sistema \<Rightarrow> bool" where
  "sistema_ids t s \<longleftrightarrow> ids_almacen t (ls s) \<and> list_all (prompt_ids t) (map t_prompt (tabs s))"

text \<open>The clock after an event: an add click at time \<open>now\<close> needs \<open>t \<le> now\<close> and
  moves the clock past \<open>now\<close>; every other event leaves it.\<close>

fun reloj_sig :: "nat \<Rightarrow> evento \<Rightarrow> nat option" where
  "reloj_sig t (ClickAgregar i now) = (if t \<le> now then Some (Suc now) else None)"
| "reloj_sig t e = Some t"

inductive alcanzable_reloj :: "storage \<Rightarrow> nat \<Rightarrow> nat \<Rightarrow> sistema \<Rightarrow> bool" for ls0 t0 where
  inicio: "alcanzable_reloj ls0 t0 t0 \<lparr>ls = ls0, tabs = []\<rparr>"
| paso: "alcanzable_reloj ls0 t0 t s \<Longrightarrow> reloj_sig t e = Some t' \<Longrightarrow> paso e s = Some s' \<Longrightarrow>
         alcanzable_reloj ls0 t0 t' s'"

fun ejecutar_reloj :: "evento list \<Rightarrow> nat \<Rightarrow> sistema \<Rightarrow> (nat \<times> sistema) option" where
  "ejecutar_reloj [] t s = Some (t, s)"
| "ejecutar_reloj (e # es) t s =
     (case reloj_sig t e of
        None \<Rightarrow> None
      | Some t' \<Rightarrow> (case paso e s of None \<Rightarrow> None | Some s' \<Rightarrow> ejecutar_reloj es t' s'))"

subsection \<open>Ids of a list\<close>

lemma reloj_sig_le: "reloj_sig t e = Some t' \<Longrightarrow> t \<le> t'"
  by (cases e) (auto split: if_splits)

lemma ids_ok_mono: "ids_ok t cs \<Longrightarrow> t \<le> t' \<Longrightarrow> ids_ok t' cs"
  by (auto simp: ids_ok_def es_id_def list_all_iff)

lemma prompt_ids_mono: "prompt_ids t x \<Longrightarrow> t \<le> t' \<Longrightarrow> prompt_ids t' x"
  by (auto simp: prompt_ids_def ids_ok_mono split: option.splits)

lemma sistema_ids_mono: "sistema_ids t s \<Longrightarrow> t \<le> t' \<Longrightarrow> sistema_ids t' s"
  by (auto simp: sistema_ids_def ids_almacen_def list_all_iff ids_ok_mono prompt_ids_mono
           split: sum.splits)

lemma ids_ok_claim: "ids_ok t cs \<Longrightarrow> ids_ok t (cs[i := (cs ! i)\<lparr>seleccionadoPor := q\<rparr>])"
proof -
  assume a: "ids_ok t cs"
  have "map comida_id (cs[i := (cs ! i)\<lparr>seleccionadoPor := q\<rparr>]) = map comida_id cs"
    by (cases "i < length cs") (auto intro!: nth_equalityI simp: nth_list_update list_update_beyond)
  with a show ?thesis by (simp add: ids_ok_def list_all_iff)
qed

lemma es_id_nuevo: "es_id (Suc now) (num_to_string now)"
  by (simp add: es_id_def)

lemma es_id_distinto: "es_id t x \<Longrightarrow> t \<le> now \<Longrightarrow> x \<noteq> num_to_string now"
  by (auto simp: es_id_def)

lemma id_fresco:
  assumes "ids_ok t cs" and "t \<le> now"
  shows "num_to_string now \<notin> set (map comida_id cs)"
proof
  assume "num_to_string now \<in> set (map comida_id cs)"
  then obtain c where "c \<in> set cs" and "comida_id c = num_to_string now" by auto
  with assms show False using es_id_distinto [of t "comida_id c" now] by (simp add: ids_ok_def list_all_iff)
qed

lemma ids_ok_snoc:
  assumes "ids_ok t cs" and "t \<le> now"
  shows "ids_ok (Suc now) (cs @ [\<lparr>comida_id = num_to_string now, nombre = n, seleccionadoPor = None\<rparr>])"
proof -
  have "num_to_string now \<notin> set (map comida_id cs)" using assms by (rule id_fresco)
  moreover from assms have "ids_ok (Suc now) cs" by (simp add: ids_ok_mono)
  ultimately show ?thesis by (simp add: ids_ok_def es_id_nuevo)
qed

subsection \<open>The handlers keep the ids unique\<close>

lemma agregar_ids:
  assumes "agregarComida now p = Inr q" and "ids_almacen t (local_st p)" and "t \<le> now"
  shows "ids_almacen (Suc now) (local_st q)"
proof (cases "obtenerComidas (local_st p)")
  case (Inl e)
  with assms(1) have "js_trim (input_comida (doc p)) = []"
    by (auto simp: agregarComida_def truthy_def Let_def split: if_splits)
  with assms(1) have "q = p" by (simp add: agregar_blank)
  with Inl show ?thesis by (simp add: ids_almacen_def)
next
  case (Inr cs)
  with assms(2,3) have "ids_ok (Suc now) cs" by (simp add: ids_almacen_def ids_ok_mono)
  moreover from Inr assms(2,3) have "ids_ok (Suc now) (cs @ [\<lparr>comida_id = num_to_string now,
      nombre = js_trim (input_comida (doc p)), seleccionadoPor = None\<rparr>])"
    by (simp add: ids_almacen_def ids_ok_snoc)
  ultimately show ?thesis using agregar_efecto [OF assms(1) Inr] Inr by (auto simp: ids_almacen_def)
qed

lemma fin_ids:
  assumes "seleccionar_fin (cs, i) r p = Inr q" and "ids_ok t cs" and "ids_almacen t (local_st p)"
  shows "ids_almacen t (local_st q)"
  using fin_efecto [OF assms(1)] assms(2,3) by (auto simp: ids_almacen_def ids_ok_claim)

lemma ids_pasivo:
  "sistema_ids t s \<Longrightarrow> ls s' = ls s \<Longrightarrow> map t_prompt (tabs s') = map t_prompt (tabs s) \<Longrightarrow> sistema_ids t s'"
  by (simp add: sistema_ids_def)

lemma ids_abrir: "sistema_ids t s \<Longrightarrow> paso (Abrir d) s = Some s' \<Longrightarrow> sistema_ids t s'"
  by (auto simp: sistema_ids_def tab_nueva_def prompt_ids_def)

lemma ids_escribir: "sistema_ids t s \<Longrightarrow> paso (Escribir i v) s = Some s' \<Longrightarrow> sistema_ids t s'"
proof -
  assume ok: "sistema_ids t s" and p: "paso (Escribir i v) s = Some s'"
  from p have l: "ls s' = ls s" by (auto simp: app_simps split: if_splits)
  show ?thesis by (rule ids_pasivo [OF ok l prompts_escribir [OF p]])
qed

lemma ids_agregar:
  assumes ok: "sistema_ids t s" and tn: "t \<le> now" and p: "paso (ClickAgregar i now) s = Some s'"
  shows "sistema_ids (Suc now) s'"
  using paso_agregar [OF p]
proof
  assume "\<exists>q. agregarComida now (pagina_de s i) = Inr q \<and> s' = con_pagina i q s"
  then obtain q where a: "agregarComida now (pagina_de s i) = Inr q" and s': "s' = con_pagina i q s" by blast
  from ok tn have m: "sistema_ids (Suc now) s" by (simp add: sistema_ids_mono)
  from ok have "ids_almacen t (local_st (pagina_de s i))" by (simp add: sistema_ids_def)
  from agregar_ids [OF a this tn] m s' show ?thesis
    by (simp add: sistema_ids_def prompts_con_pagina app_simps)
next
  assume "s' = s"
  with ok tn show ?thesis by (simp add: sistema_ids_mono)
qed

lemma ids_boton:
  assumes ok: "sistema_ids t s" and p: "paso (ClickBoton i k) s = Some s'"
  shows "sistema_ids t s'"
  using paso_boton [OF p]
proof
  assume "\<exists>cid q pend. seleccionar_inicio cid (pagina_de s i) = Inr (q, pend) \<and>
                    s' = set_tab i (\<lambda>t. t\<lparr>t_prompt := pend\<rparr>) (con_pagina i q s)"
  then obtain cid q pend where ini: "seleccionar_inicio cid (pagina_de s i) = Inr (q, pend)"
    and s': "s' = set_tab i (\<lambda>t. t\<lparr>t_prompt := pend\<rparr>) (con_pagina i q s)" by blast
  have "prompt_ids t pend"
  proof (cases pend)
    case (Some x)
    obtain cs j where x: "x = (cs, j)" by (cases x)
    with ini Some have "obtenerComidas (ls s) = Inr cs \<and> j < length cs"
      using inicio_pend [of cid "pagina_de s i" q cs j] by simp
    with ok Some x show ?thesis by (simp add: sistema_ids_def ids_almacen_def prompt_ids_def)
  qed (simp add: prompt_ids_def)
  moreover have "local_st q = ls s" using inicio_resultado [OF ini] by simp
  ultimately show ?thesis
    using ok unfolding s' sistema_ids_def
    by (simp add: prompts_set_prompt prompts_con_pagina list_all_update app_simps)
qed (use ok in simp)

lemma ids_responder:
  assumes ok: "sistema_ids t s" and p: "paso (Responder i r) s = Some s'"
  shows "sistema_ids t s'"
proof -
  obtain pend q where i: "i < length (tabs s)" and pr: "t_prompt (tabs s ! i) = Some pend"
    and f: "seleccionar_fin pend r (pagina_de s i) = Inr q"
    and s': "s' = set_tab i (\<lambda>t. t\<lparr>t_prompt := None\<rparr>) (con_pagina i q s)"
    using paso_responder [OF p] by blast
  obtain cs j where pend: "pend = (cs, j)" by (cases pend)
  from ok have la: "list_all (prompt_ids t) (map t_prompt (tabs s))" and al: "ids_almacen t (ls s)"
    by (simp_all add: sistema_ids_def)
  from la i have "prompt_ids t (t_prompt (tabs s ! i))" by (simp add: list_all_length)
  with pr pend have l: "ids_ok t cs" by (simp add: prompt_ids_def)
  from f pend have f': "seleccionar_fin (cs, j) r (pagina_de s i) = Inr q" by simp
  from al have "ids_almacen t (local_st (pagina_de s i))" by simp
  from fin_ids [OF f' l this] have "ids_almacen t (ls s')" by (simp add: s' app_simps)
  moreover have "list_all (prompt_ids t) (map t_prompt (tabs s'))"
    unfolding s' prompts_set_prompt prompts_con_pagina
    using la by (rule list_all_update) (simp add: prompt_ids_def)
  ultimately show ?thesis by (simp add: sistema_ids_def)
qed

lemma sistema_ids_paso:
  assumes "inv s" and "sistema_ids t s" and "reloj_sig t e = Some t'" and "paso e s = Some s'"
  shows "sistema_ids t' s'"
proof (cases e)
  case (Abrir d)
  with assms(2-4) show ?thesis by (simp add: ids_abrir)
next
  case (Cargar i)
  with assms(2-4) show ?thesis using ls_cargar [of i s s'] prompts_cargar [of i s s'] by (simp add: ids_pasivo)
next
  case (Escribir i v)
  with assms(2-4) show ?thesis by (simp add: ids_escribir)
next
  case (ClickAgregar i now)
  from assms(3) ClickAgregar have tn: "t \<le> now" and t': "t' = Suc now" by (simp_all split: if_splits)
  from assms(4) have "paso (ClickAgregar i now) s = Some s'" unfolding ClickAgregar .
  from ids_agregar [OF assms(2) tn this] t' show ?thesis by simp
next
  case (ClickBoton i k)
  with assms(2-4) show ?thesis by (simp add: ids_boton)
next
  case (Responder i r)
  with assms(2-4) show ?thesis by (simp add: ids_responder)
next
  case (EventoStorage i)
  with assms show ?thesis
    using ls_storage [of s i s'] prompts_storage [of s i s'] by (simp add: ids_pasivo)
qed

subsection \<open>Reachable states with a clock\<close>

lemma alcanzable_reloj_alcanzable: "alcanzable_reloj ls0 t0 t s \<Longrightarrow> alcanzable ls0 s"
  by (induction rule: alcanzable_reloj.induct) (auto intro: alcanzable.intros)

lemma alcanzable_reloj_ids: "alcanzable_reloj ls0 t0 t s \<Longrightarrow> ids_almacen t0 ls0 \<Longrightarrow> sistema_ids t s"
proof (induction rule: alcanzable_reloj.induct)
  case inicio
  then show ?case by (simp add: sistema_ids_def)
next
  case (paso t s e t' s')
  then show ?case
    using alcanzable_inv [OF alcanzable_reloj_alcanzable [OF paso.hyps(1)]] by (blast intro: sistema_ids_paso)
qed

lemma ejecutar_reloj_alcanzable:
  "ejecutar_reloj es t s = Some (t', s') \<Longrightarrow> alcanzable_reloj ls0 t0 t s \<Longrightarrow> alcanzable_reloj ls0 t0 t' s'"
proof (induction es arbitrary: t s)
  case Nil
  then show ?case by simp
next
  case (Cons e es)
  then show ?case by (auto intro: alcanzable_reloj.paso split: option.splits)
qed

text \<open>C27: ids stay unique when no two adds share a millisecond.  In every state
  reachable with a clock under which each add click of any tab happens at a later
  millisecond than the one before, from a store whose ids are unique decimal times before
  the start, the stored meals have pairwise distinct ids, each the decimal form of a time
  before the clock, whatever the interleaving of the tabs and their prompts.\<close>

theorem ids_unicos:
  assumes "alcanzable_reloj ls0 t0 t s" and "ids_almacen t0 ls0" and "obtenerComidas (ls s) = Inr cs"
  shows "distinct (map comida_id cs) \<and> (\<forall>c\<in>set cs. dec_value (comida_id c) < t)"
proof -
  from alcanzable_reloj_ids [OF assms(1,2)] assms(3) have "ids_ok t cs"
    by (simp add: sistema_ids_def ids_almacen_def)
  then show ?thesis by (simp add: ids_ok_def es_id_def list_all_iff)
qed

theorem ids_unicos_witness:
  "alcanzable_reloj Map.empty 0
     (fst (the (ejecutar_reloj [Abrir doc0, Cargar 0, Escribir 0 (js ''Tacos''), ClickAgregar 0 5,
        Escribir 0 (js ''Pizza''), ClickAgregar 0 6] 0 \<lparr>ls = Map.empty, tabs = []\<rparr>)))
     (snd (the (ejecutar_reloj [Abrir doc0, Cargar 0, Escribir 0 (js ''Tacos''), ClickAgregar 0 5,
        Escribir 0 (js ''Pizza''), ClickAgregar 0 6] 0 \<lparr>ls = Map.empty, tabs = []\<rparr>))) \<and>
   ids_almacen 0 Map.empty \<and>
   obtenerComidas (ls (snd (the (ejecutar_reloj [Abrir doc0, Cargar 0, Escribir 0 (js ''Tacos''),
        ClickAgregar 0 5, Escribir 0 (js ''Pizza''), ClickAgregar 0 6] 0 \<lparr>ls = Map.empty, tabs = []\<rparr>)))) =
     Inr [\<lparr>comida_id = js ''5'', nombre = js ''Tacos'', seleccionadoPor = None\<rparr>,
          \<lparr>comida_id = js ''6'', nombre = js ''Pizza'', seleccionadoPor = None\<rparr>] \<and>
   distinct [js ''5'', js ''6'']"
proof -
  let ?R = "ejecutar_reloj [Abrir doc0, Cargar 0, Escribir 0 (js ''Tacos''), ClickAgregar 0 5,
        Escribir 0 (js ''Pizza''), ClickAgregar 0 6] 0 \<lparr>ls = Map.empty, tabs = []\<rparr>"
  have e: "?R \<noteq> None" by code_simp
  then have r: "?R = Some (fst (the ?R), snd (the ?R))" by simp
  have a: "alcanzable_reloj Map.empty 0 (fst (the ?R)) (snd (the ?R))"
    by (rule ejecutar_reloj_alcanzable [OF r]) (rule alcanzable_reloj.inicio)
  have i: "ids_almacen 0 Map.empty" by (simp add: ids_almacen_def ids_ok_def)
  have o: "obtenerComidas (ls (snd (the ?R))) =
     Inr [\<lparr>comida_id = js ''5'', nombre = js ''Tacos'', seleccionadoPor = None\<rparr>,
          \<lparr>comida_id = js ''6'', nombre = js ''Pizza'', seleccionadoPor = None\<rparr>]" by code_simp
  from ids_unicos [OF a i o] a i o show ?thesis by simp
qed

end
