(* ===== verification/Presentation.thy ===== *)
theory Presentation
  imports Render
begin

text \<open>
  The presentation model of the specification (section 4.4): a pure function of the list
  giving the total, the number of meals whose claimer is absent, and for each meal a row
  with its name, its status (``Selected by: X'' or a placeholder) and whether it can be
  claimed, which is exactly when its claimer is absent.  \<open>leer_vista\<close> reads the
  document \<open>renderizarComidas\<close> leaves back into that model: the two counters as
  decimal numbers, and each list element's heading, selection paragraph and button.  The
  render agrees with the model on every list with no empty claimer; the code tests the
  claimer's truthiness, so a stored empty claimer is shown as unclaimed where the model
  calls the meal claimed.
\<close>

datatype estado = SinElegir | SeleccionadoPor jstr

record fila =
  f_nombre :: jstr
  f_estado :: estado
  f_reclamable :: bool

definition fila_de :: "comida \<Rightarrow> fila" where
  "fila_de c =
     \<lparr>f_nombre = nombre c,
      f_estado = (case seleccionadoPor c of None \<Rightarrow> SinElegir | Some q \<Rightarrow> SeleccionadoPor q),
      f_reclamable = (seleccionadoPor c = None)\<rparr>"

definition presentacion :: "comida list \<Rightarrow> nat \<times> nat \<times> fila list" where
  "presentacion L = (length L, length (filter (\<lambda>c. seleccionadoPor c = None) L), map fila_de L)"

subsection \<open>Reading the rendered document\<close>

definition INFO_PRE :: jstr where
  "INFO_PRE = js ''<p>Seleccionado por: <strong>''"

definition INFO_SUF :: jstr where
  "INFO_SUF = js ''</strong></p>''"

definition leer_info :: "jstr \<Rightarrow> estado" where
  "leer_info i =
     (if i = MSG_SIN_ELEGIR then SinElegir
      else SeleccionadoPor (drop (length INFO_PRE) (take (length i - length INFO_SUF) i)))"

definition leer_item :: "item_view \<Rightarrow> fila" where
  "leer_item iv = \<lparr>f_nombre = iv_titulo iv, f_estado = leer_info (iv_info iv), f_reclamable = \<not> iv_disabled iv\<rparr>"

definition leer_vista :: "dom \<Rightarrow> nat \<times> nat \<times> fila list" where
  "leer_vista d = (dec_value (total_comidas d), dec_value (restantes_comidas d), map leer_item (lista d))"

lemma info_claimed: "INFO_PRE @ q @ INFO_SUF \<noteq> MSG_SIN_ELEGIR"
proof
  assume "INFO_PRE @ q @ INFO_SUF = MSG_SIN_ELEGIR"
  then have "(INFO_PRE @ q @ INFO_SUF) ! 3 = MSG_SIN_ELEGIR ! 3" by simp
  then show False by (simp add: INFO_PRE_def MSG_SIN_ELEGIR_def js_def nth_append)
qed

lemma leer_info_sin: "leer_info MSG_SIN_ELEGIR = SinElegir"
  by (simp add: leer_info_def)

lemma leer_info_seleccion:
  "leer_info (info_seleccion c) =
     (case seleccionadoPor c of None \<Rightarrow> SinElegir | Some q \<Rightarrow> if q = [] then SinElegir else SeleccionadoPor q)"
proof (cases "seleccionadoPor c")
  case None
  then show ?thesis by (simp add: info_seleccion_def leer_info_def)
next
  case (Some q)
  have i: "js ''<p>Seleccionado por: <strong>'' @ q @ js ''</strong></p>'' = INFO_PRE @ q @ INFO_SUF"
    by (simp add: INFO_PRE_def INFO_SUF_def)
  have "leer_info (INFO_PRE @ q @ INFO_SUF) = SeleccionadoPor q"
    using info_claimed [of q] by (simp add: leer_info_def)
  with Some i show ?thesis by (simp add: info_seleccion_def truthy_def leer_info_sin)
qed

subsection \<open>The render implements the presentation model\<close>

lemma seleccionada_sin_vacio:
  "seleccionadoPor c \<noteq> Some [] \<Longrightarrow> seleccionada c \<longleftrightarrow> seleccionadoPor c \<noteq> None"
  by (cases "seleccionadoPor c") (simp_all add: seleccionada_def truthy_def)

lemma leer_item_comida:
  "seleccionadoPor c \<noteq> Some [] \<Longrightarrow> leer_item (item_of_comida c) = fila_de c"
  by (cases "seleccionadoPor c")
     (simp_all add: leer_item_def item_of_comida_def fila_de_def leer_info_seleccion seleccionada_def truthy_def)

text \<open>Any document showing the list \<open>L\<close> the way a render leaves it reads as the
  presentation model of \<open>L\<close>.\<close>

lemma leer_vista_eq:
  assumes "lista d = map item_of_comida L" and "total_comidas d = num_to_string (length L)"
    and "restantes_comidas d = num_to_string (length (filter (\<lambda>c. \<not> seleccionada c) L))"
    and "\<forall>c\<in>set L. seleccionadoPor c \<noteq> Some []"
  shows "leer_vista d = presentacion L"
proof -
  from assms(4) have "filter (\<lambda>c. \<not> seleccionada c) L = filter (\<lambda>c. seleccionadoPor c = None) L"
    by (intro filter_cong) (simp_all add: seleccionada_sin_vacio)
  moreover from assms(4) have "map leer_item (map item_of_comida L) = map fila_de L"
    by (simp add: leer_item_comida)
  ultimately show ?thesis using assms(1-3) by (simp add: leer_vista_def presentacion_def)
qed

text \<open>C24: \<open>renderizarComidas\<close> implements the presentation model of the
  specification.  On a stored list with no empty claimer, the document a render leaves
  reads back as exactly the model's total, unclaimed count and rows: name, ``Selected by''
  status and claimability of every meal, in order.\<close>

theorem render_presentacion:
  assumes "renderizarComidas p = Inr p'" and "obtenerComidas (local_st p) = Inr L"
    and "\<forall>c\<in>set L. seleccionadoPor c \<noteq> Some []"
  shows "leer_vista (doc p') = presentacion L"
proof -
  from assms(1,2) have "p' = pintarComidas L p" by (simp add: render_Inr)
  then show ?thesis using assms(3) by (intro leer_vista_eq) (simp_all add: pintar_doc)
qed

theorem render_presentacion_witness:
  "renderizarComidas (pagina_con [\<lparr>comida_id = js ''1'', nombre = js ''Tacos'', seleccionadoPor = Some (js ''Ana'')\<rparr>,
       \<lparr>comida_id = js ''2'', nombre = js ''Pizza'', seleccionadoPor = None\<rparr>]) =
     Inr (pintarComidas [\<lparr>comida_id = js ''1'', nombre = js ''Tacos'', seleccionadoPor = Some (js ''Ana'')\<rparr>,
       \<lparr>comida_id = js ''2'', nombre = js ''Pizza'', seleccionadoPor = None\<rparr>]
       (pagina_con [\<lparr>comida_id = js ''1'', nombre = js ''Tacos'', seleccionadoPor = Some (js ''Ana'')\<rparr>,
       \<lparr>comida_id = js ''2'', nombre = js ''Pizza'', seleccionadoPor = None\<rparr>])) \<and>
   leer_vista (doc (pintarComidas [\<lparr>comida_id = js ''1'', nombre = js ''Tacos'', seleccionadoPor = Some (js ''Ana'')\<rparr>,
       \<lparr>comida_id = js ''2'', nombre = js ''Pizza'', seleccionadoPor = None\<rparr>]
       (pagina_con [\<lparr>comida_id = js ''1'', nombre = js ''Tacos'', seleccionadoPor = Some (js ''Ana'')\<rparr>,
       \<lparr>comida_id = js ''2'', nombre = js ''Pizza'', seleccionadoPor = None\<rparr>]))) =
     (2, 1, [\<lparr>f_nombre = js ''Tacos'', f_estado = SeleccionadoPor (js ''Ana''), f_reclamable = False\<rparr>,
             \<lparr>f_nombre = js ''Pizza'', f_estado = SinElegir, f_reclamable = True\<rparr>])"
proof -
  let ?L = "[\<lparr>comida_id = js ''1'', nombre = js ''Tacos'', seleccionadoPor = Some (js ''Ana'')\<rparr>,
       \<lparr>comida_id = js ''2'', nombre = js ''Pizza'', seleccionadoPor = None\<rparr>]"
  have o: "obtenerComidas (local_st (pagina_con ?L)) = Inr ?L" by simp
  have r: "renderizarComidas (pagina_con ?L) = Inr (pintarComidas ?L (pagina_con ?L))"
    by (rule render_Inr [OF o])
  have "leer_vista (doc (pintarComidas ?L (pagina_con ?L))) = presentacion ?L"
    by (rule render_presentacion [OF r o]) simp
  with r show ?thesis by (simp add: presentacion_def fila_de_def)
qed

end
