(* ===== verification/Refinement.thy ===== *)
theory Refinement
  imports Ids
begin

text \<open>
  The stored list against the specification's operations on it (section 4.3).
  \<open>add_spec\<close> is the specification's \<open>add\<close> with the id it is given, \<open>claim_spec\<close>
  (Selection) its \<open>claim\<close>; \<open>paso_lista\<close> is the abstract step relation of the list:
  stay, add a meal under an id the list does not hold (the spec's ``fresh unique id''),
  or claim one.  The theorem of this theory is a simulation of the multi-tab application
  by \<open>paso_lista\<close>: every event leaves the stored list as it was or changes it by one
  abstract \<open>add\<close> or \<open>claim\<close> of the list it found, with one exception, the answer to
  a prompt that was opened on a list the store no longer holds (the races of \<open>Races\<close>).
  The freshness of an added id holds when the clock of \<open>Ids\<close> never runs backwards,
  so the simulation is stated over \<open>alcanzable_reloj\<close>.  The invariant it needs is that
  every open prompt holds the first meal with its id, unclaimed, in the list the prompt
  was opened on.
\<close>

definition add_spec :: "jstr \<Rightarrow> jstr \<Rightarrow> comida list \<Rightarrow> claim_error + comida list" where
  "add_spec cid n L =
     (if js_trim n = [] then Inl EmptyName
      else Inr (L @ [\<lparr>comida_id = cid, nombre = js_trim n, seleccionadoPor = None\<rparr>]))"

inductive paso_lista :: "comida list \<Rightarrow> comida list \<Rightarrow> bool" where
  quieto: "paso_lista L L"
| alta: "cid \<notin> set (map comida_id L) \<Longrightarrow> add_spec cid n L = Inr L' \<Longrightarrow> paso_lista L L'"
| reclamo: "claim_spec L cid u = Inr L' \<Longrightarrow> paso_lista L L'"

definition prompt_fiel :: "pending option \<Rightarrow> bool" where
  "prompt_fiel x \<longleftrightarrow>
     (case x of
        None \<Rightarrow> True
      | Some (cs, k) \<Rightarrow> k < length cs \<and> \<not> seleccionada (cs ! k) \<and>
          find_index (\<lambda>c. comida_id c = comida_id (cs ! k)) cs = int k)"

abbreviation tacos5 :: comida where
  "tacos5 \<equiv> \<lparr>comida_id = js ''5'', nombre = js ''Tacos'', seleccionadoPor = None\<rparr>"

subsection \<open>Open prompts\<close>

lemma inicio_fiel:
  assumes "seleccionar_inicio cid p = Inr (q, x)"
  shows "prompt_fiel x"
proof (cases x)
  case (Some y)
  obtain cs k where y: "y = (cs, k)" by (cases y)
  from assms Some y obtain l where o: "obtenerComidas (local_st p) = Inr l"
    by (cases "obtenerComidas (local_st p)") (simp_all add: seleccionar_inicio_def)
  let ?i = "find_index (\<lambda>c. comida_id c = cid) l"
  from assms Some y o have ne: "?i \<noteq> -1" and l: "cs = l" and k: "k = nat ?i"
    and ns: "\<not> seleccionada (l ! nat ?i)"
    by (auto simp: seleccionar_inicio_def Let_def split: if_splits)
  from find_index_found [OF ne] k have fi: "?i = int k" and kl: "k < length l" by simp_all
  from find_index_nth [OF fi] have "comida_id (l ! k) = cid" by simp
  with fi kl ns k l Some y show ?thesis by (simp add: prompt_fiel_def)
qed (simp add: prompt_fiel_def)

lemma prompts_nuevos:
  assumes "inv s" and "paso e s = Some s'" and "x \<in> set (map t_prompt (tabs s'))"
  shows "x \<in> set (map t_prompt (tabs s)) \<or> x = None \<or> (\<exists>cid p q. seleccionar_inicio cid p = Inr (q, x))"
proof (cases e)
  case (Abrir d)
  with assms(2,3) show ?thesis by (auto simp: tab_nueva_def)
next
  case (Cargar i)
  with assms(2,3) show ?thesis using prompts_cargar [of i s s'] by simp
next
  case (Escribir i v)
  with assms(2,3) show ?thesis using prompts_escribir [of i v s s'] by simp
next
  case (ClickAgregar i now)
  from assms(2) ClickAgregar have "paso (ClickAgregar i now) s = Some s'" by simp
  from paso_agregar [OF this] have "map t_prompt (tabs s') = map t_prompt (tabs s)"
    by (auto simp: prompts_con_pagina)
  with assms(3) show ?thesis by simp
next
  case (ClickBoton i k)
  from assms(2) ClickBoton have "paso (ClickBoton i k) s = Some s'" by simp
  from paso_boton [OF this] show ?thesis
  proof
    assume "s' = s"
    with assms(3) show ?thesis by simp
  next
    assume "\<exists>cid q pend. seleccionar_inicio cid (pagina_de s i) = Inr (q, pend) \<and>
                      s' = set_tab i (\<lambda>t. t\<lparr>t_prompt := pend\<rparr>) (con_pagina i q s)"
    then obtain cid q pend where ini: "seleccionar_inicio cid (pagina_de s i) = Inr (q, pend)"
      and s': "s' = set_tab i (\<lambda>t. t\<lparr>t_prompt := pend\<rparr>) (con_pagina i q s)" by blast
    from assms(3) have "x \<in> set ((map t_prompt (tabs s))[i := pend])"
      by (simp add: s' prompts_set_prompt prompts_con_pagina)
    then have "x \<in> set (map t_prompt (tabs s)) \<or> x = pend" using set_update_subset_insert by fastforce
    with ini show ?thesis by blast
  qed
next
  case (Responder i r)
  from assms(2) Responder have "paso (Responder i r) s = Some s'" by simp
  then obtain q where s': "s' = set_tab i (\<lambda>t. t\<lparr>t_prompt := None\<rparr>) (con_pagina i q s)"
    by (rule paso_responder) blast
  from assms(3) have "x \<in> set ((map t_prompt (tabs s))[i := None])"
    by (simp add: s' prompts_set_prompt prompts_con_pagina)
  then show ?thesis using set_update_subset_insert by fastforce
next
  case (EventoStorage i)
  with assms show ?thesis using prompts_storage [of s i s'] by simp
qed

lemma alcanzable_fiel: "alcanzable ls0 s \<Longrightarrow> list_all prompt_fiel (map t_prompt (tabs s))"
proof (induction rule: alcanzable.induct)
  case inicio
  then show ?case by simp
next
  case (paso s e s')
  show ?case
  proof (unfold list_all_iff, rule ballI)
    fix x
    assume "x \<in> set (map t_prompt (tabs s'))"
    from prompts_nuevos [OF alcanzable_inv [OF paso.hyps(1)] paso.hyps(2) this] paso.IH
    show "prompt_fiel x" by (auto simp: list_all_iff prompt_fiel_def dest: inicio_fiel)
  qed
qed

subsection \<open>Each event is an abstract step\<close>

text \<open>Answering a prompt opened on the list the store still holds is the specification's
  \<open>claim\<close> of the meal the prompt was opened for.\<close>

lemma claim_spec_fiel:
  assumes "prompt_fiel (Some (cs, k))" and "js_trim u \<noteq> []"
  shows "claim_spec cs (comida_id (cs ! k)) u = Inr (cs[k := (cs ! k)\<lparr>seleccionadoPor := Some (js_trim u)\<rparr>])"
proof -
  from assms(1) have k: "k < length cs" and ns: "\<not> seleccionada (cs ! k)"
    and fi: "find_index (\<lambda>c. comida_id c = comida_id (cs ! k)) cs = int k"
    by (simp_all add: prompt_fiel_def)
  from k have ex: "\<exists>c\<in>set cs. comida_id c = comida_id (cs ! k)" by (auto intro: nth_mem)
  with fi have "length (takeWhile (\<lambda>c. comida_id c \<noteq> comida_id (cs ! k)) cs) = k"
    by (simp add: find_index_eq)
  with ex ns assms(2) show ?thesis by (auto simp: claim_spec_def Let_def)
qed

lemma paso_lista_agregar:
  assumes "agregarComida now p = Inr q" and "obtenerComidas (local_st p) = Inr L"
    and "obtenerComidas (local_st q) = Inr L'" and "num_to_string now \<notin> set (map comida_id L)"
  shows "paso_lista L L'"
  using agregar_efecto [OF assms(1,2)]
proof
  assume "local_st q = local_st p"
  with assms(2,3) show ?thesis by (simp add: paso_lista.quieto)
next
  assume "js_trim (input_comida (doc p)) \<noteq> [] \<and>
    obtenerComidas (local_st q) = Inr (L @ [\<lparr>comida_id = num_to_string now,
      nombre = js_trim (input_comida (doc p)), seleccionadoPor = None\<rparr>])"
  with assms(3) have "add_spec (num_to_string now) (input_comida (doc p)) L = Inr L'"
    by (simp add: add_spec_def)
  with assms(4) show ?thesis by (rule paso_lista.alta)
qed

lemma paso_lista_fin:
  assumes "seleccionar_fin (L, k) r p = Inr q" and "prompt_fiel (Some (L, k))"
    and "obtenerComidas (local_st p) = Inr L" and "obtenerComidas (local_st q) = Inr L'"
  shows "paso_lista L L'"
  using fin_efecto [OF assms(1)]
proof
  assume "local_st q = local_st p"
  with assms(3,4) show ?thesis by (simp add: paso_lista.quieto)
next
  assume "\<exists>u. js_trim u \<noteq> [] \<and>
    local_st q = guardarComidas (L[k := (L ! k)\<lparr>seleccionadoPor := Some (js_trim u)\<rparr>]) (local_st p)"
  then obtain u where u: "js_trim u \<noteq> []"
    and l: "local_st q = guardarComidas (L[k := (L ! k)\<lparr>seleccionadoPor := Some (js_trim u)\<rparr>]) (local_st p)"
    by blast
  from l assms(4) have "L' = L[k := (L ! k)\<lparr>seleccionadoPor := Some (js_trim u)\<rparr>]" by simp
  with claim_spec_fiel [OF assms(2) u] show ?thesis by (metis paso_lista.reclamo)
qed

lemma paso_lista_ls: "ls s' = ls s \<Longrightarrow> obtenerComidas (ls s) = Inr L \<Longrightarrow>
    obtenerComidas (ls s') = Inr L' \<Longrightarrow> paso_lista L L'"
  by (simp add: paso_lista.quieto)

lemma refina_paso:
  assumes "alcanzable_reloj ls0 t0 t s" and "ids_almacen t0 ls0" and "reloj_sig t e = Some t'"
    and "paso e s = Some s'" and "obtenerComidas (ls s) = Inr L" and "obtenerComidas (ls s') = Inr L'"
  shows "paso_lista L L' \<or> (\<exists>i r cs k. e = Responder i r \<and> t_prompt (tabs s ! i) = Some (cs, k) \<and> cs \<noteq> L)"
proof -
  have al: "alcanzable ls0 s" by (rule alcanzable_reloj_alcanzable [OF assms(1)])
  have ids: "sistema_ids t s" by (rule alcanzable_reloj_ids [OF assms(1,2)])
  show ?thesis
proof (cases e)
  case (Abrir d)
  with assms(4-6) show ?thesis by (auto intro: paso_lista_ls)
next
  case (Cargar i)
  with assms(4-6) show ?thesis using ls_cargar [of i s s'] by (simp add: paso_lista_ls)
next
  case (Escribir i v)
  with assms(4) have "ls s' = ls s" by (auto simp: app_simps split: if_splits)
  with assms(5,6) show ?thesis by (simp add: paso_lista_ls)
next
  case (ClickAgregar i now)
  from assms(4) ClickAgregar have "paso (ClickAgregar i now) s = Some s'" by simp
  from paso_agregar [OF this] show ?thesis
  proof
    assume "s' = s"
    with assms(5,6) show ?thesis by (simp add: paso_lista_ls)
  next
    assume "\<exists>q. agregarComida now (pagina_de s i) = Inr q \<and> s' = con_pagina i q s"
    then obtain q where a: "agregarComida now (pagina_de s i) = Inr q" and s': "s' = con_pagina i q s" by blast
    from assms(5,6) s' have o: "obtenerComidas (local_st (pagina_de s i)) = Inr L" "obtenerComidas (local_st q) = Inr L'"
      by (simp_all add: app_simps)
    from assms(3) ClickAgregar have "t \<le> now" by (simp split: if_splits)
    with ids assms(5) have "num_to_string now \<notin> set (map comida_id L)"
      by (auto simp: sistema_ids_def ids_almacen_def dest: id_fresco)
    with a o have "paso_lista L L'" by (rule paso_lista_agregar)
    then show ?thesis ..
  qed
next
  case (ClickBoton i k)
  with assms(4-6) show ?thesis using ls_boton [of i k s s'] by (simp add: paso_lista_ls)
next
  case (Responder i r)
  from assms(4) Responder have "paso (Responder i r) s = Some s'" by simp
  then obtain pend q where i: "i < length (tabs s)" and pr: "t_prompt (tabs s ! i) = Some pend"
    and f: "seleccionar_fin pend r (pagina_de s i) = Inr q"
    and s': "s' = set_tab i (\<lambda>t. t\<lparr>t_prompt := None\<rparr>) (con_pagina i q s)"
    by (rule paso_responder) blast
  obtain cs k where pend: "pend = (cs, k)" by (cases pend)
  show ?thesis
  proof (cases "cs = L")
    case True
    from alcanzable_fiel [OF al] i pr pend True have fiel: "prompt_fiel (Some (L, k))"
      by (auto simp: list_all_length)
    from assms(5,6) s' have "obtenerComidas (local_st (pagina_de s i)) = Inr L" "obtenerComidas (local_st q) = Inr L'"
      by (simp_all add: app_simps)
    with f pend True fiel show ?thesis by (blast intro: paso_lista_fin)
  next
    case False
    with Responder pr pend show ?thesis by blast
  qed
next
  case (EventoStorage i)
  with assms show ?thesis using ls_storage [of s i s'] alcanzable_inv [OF al] by (simp add: paso_lista_ls)
qed
qed

subsection \<open>One tab\<close>

text \<open>A prompt is current when it holds the list the store holds.\<close>

definition prompts_actuales :: "sistema \<Rightarrow> bool" where
  "prompts_actuales s \<longleftrightarrow>
     (\<forall>x\<in>set (map t_prompt (tabs s)). case x of None \<Rightarrow> True | Some (cs, k) \<Rightarrow> obtenerComidas (ls s) = Inr cs)"

lemma paso_length: "paso e s = Some s' \<Longrightarrow> length (tabs s) \<le> length (tabs s')"
  by (cases e) (auto simp: app_simps Let_def split: if_splits option.splits sum.splits prod.splits)

lemma actuales_pasivo:
  assumes "prompts_actuales s" and "ls s' = ls s" and "map t_prompt (tabs s') = map t_prompt (tabs s)"
  shows "prompts_actuales s'"
  using assms(1) unfolding prompts_actuales_def assms(2,3) .

lemma un_tab_libre:
  assumes "length (tabs s) \<le> 1" and "i < length (tabs s)" and "t_prompt (tabs s ! i) = None"
  shows "\<forall>x\<in>set (map t_prompt (tabs s)). x = None"
proof -
  from assms(1,2) have "tabs s = [tabs s ! i]"
    by (cases "tabs s") (auto simp: less_Suc_eq)
  with assms(3) show ?thesis by (metis empty_iff list.set(1) list.simps(8) list.simps(9) set_ConsD)
qed

lemma actuales_paso:
  assumes "inv s" and "prompts_actuales s" and "paso e s = Some s'" and "length (tabs s') \<le> 1"
  shows "prompts_actuales s'"
proof (cases e)
  case (Abrir d)
  with assms(3,4) have "tabs s = []" by auto
  with Abrir assms(3) show ?thesis by (auto simp: prompts_actuales_def tab_nueva_def)
next
  case (Cargar i)
  from assms(3) have p: "paso (Cargar i) s = Some s'" unfolding Cargar .
  show ?thesis by (rule actuales_pasivo [OF assms(2) ls_cargar [OF p] prompts_cargar [OF p]])
next
  case (Escribir i v)
  from assms(3) have p: "paso (Escribir i v) s = Some s'" unfolding Escribir .
  then have l: "ls s' = ls s" by (auto simp: app_simps split: if_splits)
  show ?thesis by (rule actuales_pasivo [OF assms(2) l prompts_escribir [OF p]])
next
  case (ClickAgregar i now)
  from assms(3) ClickAgregar have p: "paso (ClickAgregar i now) s = Some s'" by simp
  then have "libre s i" by (simp split: if_splits)
  then have "i < length (tabs s)" and "t_prompt (tabs s ! i) = None" by (simp_all add: libre_def)
  with paso_length [OF assms(3)] assms(4) have "\<forall>x\<in>set (map t_prompt (tabs s)). x = None"
    by (intro un_tab_libre) simp_all
  moreover from paso_agregar [OF p] have "map t_prompt (tabs s') = map t_prompt (tabs s)"
    by (auto simp: prompts_con_pagina)
  ultimately show ?thesis by (simp add: prompts_actuales_def)
next
  case (ClickBoton i k)
  from assms(3) ClickBoton have p: "paso (ClickBoton i k) s = Some s'" by simp
  have l: "ls s' = ls s" by (rule ls_boton [OF p])
  from paso_boton [OF p] show ?thesis
  proof
    assume "s' = s"
    with assms(2) show ?thesis by simp
  next
    assume "\<exists>cid q pend. seleccionar_inicio cid (pagina_de s i) = Inr (q, pend) \<and>
                      s' = set_tab i (\<lambda>t. t\<lparr>t_prompt := pend\<rparr>) (con_pagina i q s)"
    then obtain cid q pend where ini: "seleccionar_inicio cid (pagina_de s i) = Inr (q, pend)"
      and s': "s' = set_tab i (\<lambda>t. t\<lparr>t_prompt := pend\<rparr>) (con_pagina i q s)" by blast
    have "case pend of None \<Rightarrow> True | Some (cs, k) \<Rightarrow> obtenerComidas (ls s) = Inr cs"
      using inicio_pend [of cid "pagina_de s i" q] ini by (auto split: option.splits)
    then have pe: "case pend of None \<Rightarrow> True | Some (cs, k) \<Rightarrow> obtenerComidas (ls s') = Inr cs"
      unfolding l .
    have sub: "set (map t_prompt (tabs s')) \<subseteq> insert pend (set (map t_prompt (tabs s)))"
      unfolding s' prompts_set_prompt prompts_con_pagina by (rule set_update_subset_insert)
    from assms(2) have old: "\<forall>x\<in>set (map t_prompt (tabs s)).
        case x of None \<Rightarrow> True | Some (cs, k) \<Rightarrow> obtenerComidas (ls s) = Inr cs"
      unfolding prompts_actuales_def .
    show ?thesis unfolding prompts_actuales_def
    proof
      fix x
      assume "x \<in> set (map t_prompt (tabs s'))"
      with sub have "x = pend \<or> x \<in> set (map t_prompt (tabs s))" by blast
      then show "case x of None \<Rightarrow> True | Some (cs, k) \<Rightarrow> obtenerComidas (ls s') = Inr cs"
      proof
        assume "x \<in> set (map t_prompt (tabs s))"
        from bspec [OF old this] show ?thesis unfolding l .
      qed (use pe in simp)
    qed
  qed
next
  case (Responder i r)
  from assms(3) Responder have "paso (Responder i r) s = Some s'" by simp
  then obtain q where i: "i < length (tabs s)"
    and s': "s' = set_tab i (\<lambda>t. t\<lparr>t_prompt := None\<rparr>) (con_pagina i q s)"
    by (rule paso_responder) blast
  have "i < length (tabs s')" and "t_prompt (tabs s' ! i) = None" using i by (simp_all add: s' app_simps)
  with assms(4) have "\<forall>x\<in>set (map t_prompt (tabs s')). x = None" by (intro un_tab_libre)
  then show ?thesis by (simp add: prompts_actuales_def)
next
  case (EventoStorage i)
  from assms(3) have p: "paso (EventoStorage i) s = Some s'" unfolding EventoStorage .
  show ?thesis
    by (rule actuales_pasivo [OF assms(2) ls_storage [OF assms(1) p] prompts_storage [OF assms(1) p]])
qed

lemma alcanzable_actuales: "alcanzable ls0 s \<Longrightarrow> length (tabs s) \<le> 1 \<Longrightarrow> prompts_actuales s"
proof (induction rule: alcanzable.induct)
  case inicio
  then show ?case by (simp add: prompts_actuales_def)
next
  case (paso s e s')
  from paso_length [OF paso.hyps(2)] paso.prems have "length (tabs s) \<le> 1" by simp
  with paso.IH have "prompts_actuales s" by simp
  from actuales_paso [OF alcanzable_inv [OF paso.hyps(1)] this paso.hyps(2) paso.prems] show ?case .
qed

text \<open>C32: the stored list refines the specification's list operations.  In every
  state reached with a clock that never runs backwards, from a store whose ids are clock
  readings, an event at a clock reading that finds the list \<open>L\<close> stored and leaves the
  list \<open>L'\<close> either is a step of \<open>paso_lista\<close> from \<open>L\<close> to \<open>L'\<close> (no change, the
  specification's \<open>add\<close> with an id not in \<open>L\<close>, or its \<open>claim\<close>) or is the answer to a
  prompt that was opened on a list other than \<open>L\<close>: the stale prompt is the only way the
  code departs from the specification's operations.\<close>

theorem lista_refina_spec:
  assumes "alcanzable_reloj ls0 t0 t s" and "ids_almacen t0 ls0" and "reloj_sig t e = Some t'"
    and "paso e s = Some s'" and "obtenerComidas (ls s) = Inr L" and "obtenerComidas (ls s') = Inr L'"
  shows "paso_lista L L' \<or> (\<exists>i r cs k. e = Responder i r \<and> t_prompt (tabs s ! i) = Some (cs, k) \<and> cs \<noteq> L)"
  using assms by (rule refina_paso)

theorem lista_refina_spec_witness:
  "\<exists>t s s'. alcanzable_reloj Map.empty 0 t s \<and> ids_almacen 0 Map.empty \<and>
     reloj_sig t (ClickAgregar 0 5) = Some 6 \<and> paso (ClickAgregar 0 5) s = Some s' \<and>
     obtenerComidas (ls s) = Inr [] \<and> obtenerComidas (ls s') = Inr [tacos5] \<and>
     (paso_lista [] [tacos5] \<or>
      (\<exists>i r cs k. ClickAgregar 0 5 = Responder i r \<and> t_prompt (tabs s ! i) = Some (cs, k) \<and> cs \<noteq> []))"
proof -
  let ?R = "ejecutar_reloj [Abrir doc0, Cargar 0, Escribir 0 (js ''Tacos'')] 0 \<lparr>ls = Map.empty, tabs = []\<rparr>"
  let ?S' = "the (paso (ClickAgregar 0 5) (snd (the ?R)))"
  have e: "?R \<noteq> None" by code_simp
  then have "?R = Some (fst (the ?R), snd (the ?R))" by simp
  then have a: "alcanzable_reloj Map.empty 0 (fst (the ?R)) (snd (the ?R))"
    by (rule ejecutar_reloj_alcanzable) (rule alcanzable_reloj.inicio)
  have i: "ids_almacen 0 Map.empty" by (simp add: ids_almacen_def ids_ok_def)
  have r: "reloj_sig (fst (the ?R)) (ClickAgregar 0 5) = Some 6" by code_simp
  have "paso (ClickAgregar 0 5) (snd (the ?R)) \<noteq> None" by code_simp
  then have p: "paso (ClickAgregar 0 5) (snd (the ?R)) = Some ?S'" by (rule the_Some_ne)
  have o: "obtenerComidas (ls (snd (the ?R))) = Inr []" by code_simp
  have o': "obtenerComidas (ls ?S') = Inr [tacos5]" by code_simp
  from lista_refina_spec [OF a i r p o o'] a i r p o o' show ?thesis by blast
qed

text \<open>C33: with a single tab the code is exactly the specification.  Under the
  conditions of C32, in a browser with at most one tab every event leaves the stored
  list unchanged or changes it by one of the specification's \<open>add\<close> (with a fresh id)
  and \<open>claim\<close> of the list it found: the departures of C32 need a second tab.\<close>

theorem un_tab_refina_spec:
  assumes "alcanzable_reloj ls0 t0 t s" and "ids_almacen t0 ls0" and "reloj_sig t e = Some t'"
    and "paso e s = Some s'" and "length (tabs s') \<le> 1"
    and "obtenerComidas (ls s) = Inr L" and "obtenerComidas (ls s') = Inr L'"
  shows "paso_lista L L'"
proof -
  have al: "alcanzable ls0 s" by (rule alcanzable_reloj_alcanzable [OF assms(1)])
  from paso_length [OF assms(4)] assms(5) have "length (tabs s) \<le> 1" by simp
  with al have act: "prompts_actuales s" by (rule alcanzable_actuales)
  from refina_paso [OF assms(1-4,6,7)] show ?thesis
  proof
    assume "\<exists>i r cs k. e = Responder i r \<and> t_prompt (tabs s ! i) = Some (cs, k) \<and> cs \<noteq> L"
    then obtain i r cs k where e: "e = Responder i r" and pr: "t_prompt (tabs s ! i) = Some (cs, k)"
      and ne: "cs \<noteq> L" by blast
    from assms(4) e have "i < length (tabs s)" by (simp split: if_splits)
    with pr have mem: "Some (cs, k) \<in> set (map t_prompt (tabs s))" by (metis length_map nth_map nth_mem)
    from act have "\<forall>x\<in>set (map t_prompt (tabs s)).
        case x of None \<Rightarrow> True | Some (cs, k) \<Rightarrow> obtenerComidas (ls s) = Inr cs"
      unfolding prompts_actuales_def .
    from bspec [OF this mem] assms(6) ne show ?thesis by simp
  qed
qed

theorem un_tab_refina_spec_witness:
  "\<exists>t s s'. alcanzable_reloj Map.empty 0 t s \<and> ids_almacen 0 Map.empty \<and>
     reloj_sig t (ClickAgregar 0 5) = Some 6 \<and> paso (ClickAgregar 0 5) s = Some s' \<and>
     length (tabs s') \<le> 1 \<and> obtenerComidas (ls s) = Inr [] \<and> obtenerComidas (ls s') = Inr [tacos5] \<and>
     paso_lista [] [tacos5]"
proof -
  let ?R = "ejecutar_reloj [Abrir doc0, Cargar 0, Escribir 0 (js ''Tacos'')] 0 \<lparr>ls = Map.empty, tabs = []\<rparr>"
  let ?S' = "the (paso (ClickAgregar 0 5) (snd (the ?R)))"
  have e: "?R \<noteq> None" by code_simp
  then have "?R = Some (fst (the ?R), snd (the ?R))" by simp
  then have a: "alcanzable_reloj Map.empty 0 (fst (the ?R)) (snd (the ?R))"
    by (rule ejecutar_reloj_alcanzable) (rule alcanzable_reloj.inicio)
  have i: "ids_almacen 0 Map.empty" by (simp add: ids_almacen_def ids_ok_def)
  have r: "reloj_sig (fst (the ?R)) (ClickAgregar 0 5) = Some 6" by code_simp
  have "paso (ClickAgregar 0 5) (snd (the ?R)) \<noteq> None" by code_simp
  then have p: "paso (ClickAgregar 0 5) (snd (the ?R)) = Some ?S'" by (rule the_Some_ne)
  have n: "length (tabs ?S') \<le> 1" by code_simp
  have o: "obtenerComidas (ls (snd (the ?R))) = Inr []" by code_simp
  have o': "obtenerComidas (ls ?S') = Inr [tacos5]" by code_simp
  from un_tab_refina_spec [OF a i r p n o o'] a i r p n o o' show ?thesis by blast
qed

end
