(* ===== verification/Spec2Isabelle.thy ===== *)
theory Spec2Isabelle
  imports Races JsonFuel StoredText Ids Presentation Refinement
begin

text \<open>
  A verification development of the shared meal list of \<open>src/scripts.js\<close>: a single
  page on which several people add meals to a list and claim them, with the list kept in
  the browser's \<open>localStorage\<close> under \<open>listaComidasCompartida\<close>, an announcement
  passed through the \<open>sessionStorage\<close> slot \<open>comidaSeleccionadaNotificacion\<close>,
  and the open tabs of the page kept in step by the browser's \<open>storage\<close> event.

  \<^bold>\<open>Parts of the program and their theories.\<close>
  \<^item> \<open>Prelude\<close>: JavaScript strings as lists of UTF-16 code units (\<open>jstr\<close>, a list
    of \<open>16 word\<close>), string literals \<open>js ''...''\<close>, storage as a partial map from keys
    to strings, and the shared lemmas on these and on error results (\<open>js_error + 'a\<close>).
  \<^item> \<open>JsString\<close>: the built-ins the code calls, from ECMA-262: \<open>trim\<close>
    (\<open>js_trim\<close>), \<open>Date.now().toString()\<close> (\<open>num_to_string\<close>),
    \<open>findIndex\<close> (\<open>find_index\<close>, \<open>-1\<close> when absent) and string truthiness.
  \<^item> \<open>Json\<close>: \<open>JSON.stringify\<close> and \<open>JSON.parse\<close> on the JSON values the code
    stores (strings with every escape and lone surrogates, arrays, objects, \<open>null\<close>),
    from ECMA-262 and ECMA-404.  The parser is a mutually recursive function with a fuel
    argument; \<open>json_parse\<close> gives it \<open>Suc (length s)\<close>.  \<open>JsonFuel\<close> shows this
    is enough: every call consumes input, so any fuel above the length gives the same
    result, and the fuel bound never turns a parse into a failure.
  \<^item> \<open>Store\<close>: \<open>obtenerComidas\<close> and \<open>guardarComidas\<close> (lines 11--22), the meal
    record \<open>comida\<close> (\<open>{id, nombre, seleccionadoPor}\<close>) and its JSON encoding.  A stored
    value on which the code throws (not JSON, not an array) is \<open>Inl StorageCorrupt\<close>;
    JSON the model does not represent (numbers, or elements that are not meal objects
    with string fields, which the code reads without throwing) is \<open>Inl FueraDeModelo\<close>.
    \<open>json_valido\<close> recognises the whole JSON grammar, numbers included, so that the
    two are told apart.
    \<open>StoredText\<close> shows the text written is one line of well-formed UTF-16.
  \<^item> \<open>Browser\<close>: the state one page reads and writes (\<open>page\<close>: both storages, the
    four DOM elements the script touches, the alerts shown) and \<open>alert\<close>.
  \<^item> \<open>Mailbox\<close>: \<open>checkNotification\<close> (lines 131--137) and the \<open>post\<close> of line 117.
  \<^item> \<open>Render\<close>: \<open>actualizarContador\<close> and \<open>renderizarComidas\<close> (lines 30--72); a
    list element is the record \<open>item_view\<close> of the values its template gives it.
    \<open>Presentation\<close> holds the specification's presentation model (\<open>presentacion\<close>:
    total, unclaimed count, one row per meal) and the reading of a document back into it
    (\<open>leer_vista\<close>).
  \<^item> \<open>Selection\<close>: \<open>agregarComida\<close> (lines 80--96) and \<open>seleccionarComida\<close>
    (lines 102--126), the latter split at its \<open>prompt\<close> into \<open>seleccionar_inicio\<close>
    and \<open>seleccionar_fin\<close>; the specification's \<open>claim\<close> contract as
    \<open>claim_spec\<close>.  \<open>Wellformed\<close> states the type invariant of the stored list
    (non-empty, trimmed names and claimers) and shows the handlers keep it.
  \<^item> \<open>App\<close>: the event wiring of \<open>window.onload\<close> (lines 143--165) in a browser with
    any number of tabs: \<open>paso\<close> handles one event (opening a tab, its \<open>onload\<close>,
    typing, a click on the add button or on a list button, the answer to a prompt, a
    delivered \<open>storage\<close> event); \<open>alcanzable\<close> is the inductive set of reachable
    states; \<open>ejecutar\<close> runs a list of events.  A tab's open prompt is a state of the tab
    (\<open>t_prompt\<close>), so the answers of several tabs interleave with everything else.
    \<open>Sync\<close> holds the invariant \<open>inv\<close> of the reachable states; \<open>Races\<close> the
    exact effect of a button click, an answer and an add click, and the races they allow; \<open>Refinement\<close> the specification's
    list operations (\<open>add_spec\<close>, \<open>claim_spec\<close>) as the abstract step relation
    \<open>paso_lista\<close> the stored list is shown to follow.  \<open>Ids\<close> adds the clock that
    \<open>Date.now()\<close> reads: \<open>alcanzable_reloj\<close> is \<open>alcanzable\<close> in which every
    add click happens at a later millisecond than the one before, and
    \<open>ejecutar_reloj\<close> runs a list of events under that clock.

  Every handler returns \<open>js_error + page\<close>: \<open>Inl\<close> is the exception the code would
  throw.  In \<open>paso\<close> (through \<open>lanzar\<close>) a handler that throws \<open>StorageCorrupt\<close>
  changes nothing, since every throw of the code happens at its first read of the store,
  before any write; a store outside the model (\<open>FueraDeModelo\<close>) has no step, so no
  theorem speaks of what the code does on it.  \<open>fin_total\<close> shows the handler after
  the prompt never throws.

  \<^bold>\<open>What is proved.\<close>
  \<^item> Round trips: \<open>JSON.parse\<close> inverts \<open>JSON.stringify\<close> (\<open>Json.json_roundtrip\<close>),
    and reading the store returns what was saved (\<open>Store.store_roundtrip\<close>).
  \<^item> Each handler on each branch: success, already claimed, unknown id, cancelled or
    blank name, blank input (Selection, C3--C9), and the refinement of
    \<open>claim_spec\<close> by \<open>seleccionarComida\<close> (C10).
  \<^item> The render and the mailbox (C11, C12); a second render changes nothing (C26).
  \<^item> For the whole multi-tab application, by rule induction on \<open>alcanzable\<close> over the
    invariant \<open>Sync.inv\<close>: every tab with no queued event shows the stored list (C13);
    without an open prompt the stored list only grows (C14); a store the code cannot
    parse as an array disables every tab for good (C15).
  \<^item> The races the code leaves open, for every state that meets their conditions
    (\<open>Races\<close>): two tabs can both claim one meal and both be told so (C16); an
    answer deletes a meal added while its prompt was open (C17); two adds in one
    millisecond store two meals with one id (C18), of which the later can never be
    claimed (C19).
  \<^item> The parser's fuel is adequate (C20); the stored text is well-formed UTF-16 with no
    control character (C21); the handlers keep the stored list well-formed (C22) and so
    does every reachable state (C23, by rule induction).
  \<^item> The render implements the presentation model (C24, an equivalence on every list
    with no empty claimer, which C22/C23 guarantee), and so every synchronised tab of every
    reachable state presents the stored list as the model does (C25, below).
  \<^item> The mailbox implements the specification's single-slot contract (C28).  An add
    queues one \<open>storage\<close> event in every other registered tab and none in its own
    (C29, below).
  \<^item> The stored text is linear in the size of the names (C30).  A cancelled
    or blank answer to a prompt leaves the store and every other tab as they were (C31,
    below).
  \<^item> The stored list refines the specification's operations: in every state reached
    under the clock of \<open>Ids\<close> each event is an abstract stay, \<open>add\<close> with a fresh
    id, or \<open>claim\<close> of the list it found, except
    the answer to a prompt opened on a list the store no longer holds (C32); with one tab
    there is no such exception (C33), so every departure needs a second tab.
  \<^item> With no two adds in one millisecond, stored ids stay unique in every reachable state
    (C27, by rule induction on \<open>alcanzable_reloj\<close>), the condition C18 shows cannot
    be dropped.

  \<^bold>\<open>Bounds and fuel.\<close> The only fuel is the parser's: \<open>Suc (length s)\<close>, enough
  by C20.  The handlers and the step function are total; \<open>ejecutar\<close> is structural on
  the list of events.  Counters are \<open>nat\<close>, as JavaScript numbers stay exact far beyond
  any list a page holds; \<open>Date.now()\<close> is a parameter \<open>now\<close> of the add click,
  constrained only in \<open>Ids\<close>, where each add needs \<open>now\<close> at least the clock.

  \<^bold>\<open>Not modelled.\<close> The HTML of \<open>index.html\<close> is not in the repository; its
  initial document is a parameter of \<open>Abrir\<close>.  The DOM is abstracted to the values the
  code writes into it: the markup of the template string is not parsed, so names with markup
  are kept as text (the finding that names are written to \<open>innerHTML\<close> unescaped
  records what this hides).  The wording of the \<open>prompt\<close> question, the time the
  clock gives, the code's behaviour on a stored value outside the model
  (\<open>FueraDeModelo\<close>: the code never writes one) and the timing of the browser's
  event loop beyond the order of events are left out: every interleaving of the events
  \<open>paso\<close> knows is allowed.  Every line of code of \<open>src/scripts.js\<close> is translated
  by a definition of the development; what the map leaves out are its comments.
\<close>

lemma lista_ok_sin_vacio: "lista_ok cs \<Longrightarrow> \<forall>c\<in>set cs. seleccionadoPor c \<noteq> Some []"
  by (auto simp: lista_ok_def list_all_iff comida_ok_def nombre_ok_def)

lemma vista_presentacion:
  assumes "vista_de cs d" and "lista_ok cs"
  shows "leer_vista d = presentacion cs"
  using assms(1) lista_ok_sin_vacio [OF assms(2)] by (intro leer_vista_eq) (simp_all add: vista_de_def)

text \<open>C25: in every reachable state of the browser, a tab with its listeners registered
  and no queued \<open>storage\<close> event presents the stored list exactly as the specification's
  presentation model does: total, unclaimed count, and for each meal in order its name, its
  ``Selected by'' status and whether it can still be claimed.\<close>

theorem vista_refina_presentacion:
  assumes "alcanzable ls0 s" and "almacen_ok ls0" and "j < length (tabs s)"
    and "t_fase (tabs s ! j) = Lista" and "t_eventos (tabs s ! j) = 0"
  shows "\<exists>cs. obtenerComidas (ls s) = Inr cs \<and> leer_vista (t_doc (tabs s ! j)) = presentacion cs"
proof -
  obtain cs where o: "obtenerComidas (ls s) = Inr cs" and v: "vista_de cs (t_doc (tabs s ! j))"
    using inv_vista [OF alcanzable_inv [OF assms(1)] assms(3-5)] by blast
  from alcanzable_sistema_ok [OF assms(1,2)] o have "lista_ok cs"
    by (simp add: sistema_ok_def almacen_ok_def)
  with o v show ?thesis by (blast intro: vista_presentacion)
qed

theorem vista_refina_presentacion_witness:
  "alcanzable Map.empty (the (ejecutar [Abrir doc0, Cargar 0, Escribir 0 (js ''Tacos''), ClickAgregar 0 5]
      \<lparr>ls = Map.empty, tabs = []\<rparr>)) \<and> almacen_ok Map.empty \<and>
   (\<exists>cs. obtenerComidas (ls (the (ejecutar [Abrir doc0, Cargar 0, Escribir 0 (js ''Tacos''), ClickAgregar 0 5]
      \<lparr>ls = Map.empty, tabs = []\<rparr>))) = Inr cs \<and>
     leer_vista (t_doc (tabs (the (ejecutar [Abrir doc0, Cargar 0, Escribir 0 (js ''Tacos''), ClickAgregar 0 5]
      \<lparr>ls = Map.empty, tabs = []\<rparr>)) ! 0)) = presentacion cs)"
proof -
  let ?S = "the (ejecutar [Abrir doc0, Cargar 0, Escribir 0 (js ''Tacos''), ClickAgregar 0 5]
      \<lparr>ls = Map.empty, tabs = []\<rparr>)"
  have e: "ejecutar [Abrir doc0, Cargar 0, Escribir 0 (js ''Tacos''), ClickAgregar 0 5]
      \<lparr>ls = Map.empty, tabs = []\<rparr> \<noteq> None" by code_simp
  have o: "almacen_ok Map.empty" by (simp add: almacen_ok_def lista_ok_def)
  have h1: "0 < length (tabs ?S)" by code_simp
  have h2: "t_fase (tabs ?S ! 0) = Lista" by code_simp
  have h3: "t_eventos (tabs ?S ! 0) = 0" by code_simp
  show ?thesis
    using vista_refina_presentacion [OF ejecutar_alcanzable_the [OF e] o h1 h2 h3] ejecutar_alcanzable_the [OF e] o
    by blast
qed

text \<open>C29: an add signals every other tab.  A free tab with a readable store and a
  non-blank input appends the new meal to the stored list; since the stored value changes,
  every other tab whose \<open>storage\<close> listener is registered gets exactly one more queued
  \<open>storage\<close> event, a tab still loading gets none, and the adding tab gets none of its
  own.\<close>

theorem agregar_avisa:
  assumes "libre s i" and "obtenerComidas (ls s) = Inr cs"
    and "js_trim (input_comida (t_doc (tabs s ! i))) \<noteq> []"
  shows "\<exists>s'. paso (ClickAgregar i now) s = Some s' \<and>
    obtenerComidas (ls s') = Inr (cs @ [\<lparr>comida_id = num_to_string now,
      nombre = js_trim (input_comida (t_doc (tabs s ! i))), seleccionadoPor = None\<rparr>]) \<and>
    t_eventos (tabs s' ! i) = t_eventos (tabs s ! i) \<and>
    (\<forall>j<length (tabs s). j \<noteq> i \<longrightarrow> t_eventos (tabs s' ! j) =
       (if t_fase (tabs s ! j) = Lista then Suc (t_eventos (tabs s ! j)) else t_eventos (tabs s ! j)))"
proof -
  let ?n = "\<lparr>comida_id = num_to_string now, nombre = js_trim (input_comida (t_doc (tabs s ! i))),
             seleccionadoPor = None\<rparr>"
  from assms(1) have i: "i < length (tabs s)" by (simp add: libre_def)
  obtain q where a: "agregarComida now (pagina_de s i) = Inr q"
    using agregar_eq [of "pagina_de s i" cs now] assms(2,3) by simp
  from agregar_eq [of "pagina_de s i" cs now] assms(2,3) a
  have "local_st q = guardarComidas (cs @ [?n]) (ls s)" by simp
  then have o: "obtenerComidas (local_st q) = Inr (cs @ [?n])" by simp
  have k: "local_st q STORAGE_KEY \<noteq> ls s STORAGE_KEY"
  proof
    assume "local_st q STORAGE_KEY = ls s STORAGE_KEY"
    then have "obtenerComidas (local_st q) = obtenerComidas (ls s)" by (rule obtener_cong)
    with o assms(2) show False by simp
  qed
  have p: "paso (ClickAgregar i now) s = Some (con_pagina i q s)" using assms(1) a by simp
  show ?thesis
    using p o k i by (auto simp: con_pagina_nth con_pagina_propia app_simps)
qed

theorem agregar_avisa_witness:
  "libre (the (ejecutar [Abrir doc0, Abrir doc0, Cargar 0, Cargar 1, Escribir 0 (js ''Tacos'')]
      \<lparr>ls = Map.empty, tabs = []\<rparr>)) 0 \<and>
   obtenerComidas (ls (the (ejecutar [Abrir doc0, Abrir doc0, Cargar 0, Cargar 1, Escribir 0 (js ''Tacos'')]
      \<lparr>ls = Map.empty, tabs = []\<rparr>))) = Inr [] \<and>
   js_trim (input_comida (t_doc (tabs (the (ejecutar [Abrir doc0, Abrir doc0, Cargar 0, Cargar 1,
      Escribir 0 (js ''Tacos'')] \<lparr>ls = Map.empty, tabs = []\<rparr>)) ! 0))) \<noteq> [] \<and>
   (\<exists>s'. paso (ClickAgregar 0 5) (the (ejecutar [Abrir doc0, Abrir doc0, Cargar 0, Cargar 1,
      Escribir 0 (js ''Tacos'')] \<lparr>ls = Map.empty, tabs = []\<rparr>)) = Some s' \<and>
    t_eventos (tabs s' ! 1) = Suc (t_eventos (tabs (the (ejecutar [Abrir doc0, Abrir doc0, Cargar 0, Cargar 1,
      Escribir 0 (js ''Tacos'')] \<lparr>ls = Map.empty, tabs = []\<rparr>)) ! 1)))"
proof -
  let ?S = "the (ejecutar [Abrir doc0, Abrir doc0, Cargar 0, Cargar 1, Escribir 0 (js ''Tacos'')]
      \<lparr>ls = Map.empty, tabs = []\<rparr>)"
  have l: "libre ?S 0" by code_simp
  have o: "obtenerComidas (ls ?S) = Inr []" by code_simp
  have t: "js_trim (input_comida (t_doc (tabs ?S ! 0))) \<noteq> []" by code_simp
  have n: "1 < length (tabs ?S) \<and> t_fase (tabs ?S ! 1) = Lista" by code_simp
  from agregar_avisa [OF l o t, of 5] n l o t show ?thesis by (auto simp del: ejecutar.simps)
qed

text \<open>C31: a cancelled or blank answer to a prompt touches nothing but its own tab.
  The stored list is unchanged, so no other tab gets a \<open>storage\<close> event and no other
  tab changes at all; the answering tab keeps its document, closes its prompt and shows
  the missing-name alert (the alert the specification says a cancellation should not
  show).\<close>

theorem cancelar_sin_efecto:
  assumes "i < length (tabs s)" and "t_prompt (tabs s ! i) \<noteq> None"
    and "r = None \<or> (\<exists>u. r = Some u \<and> js_trim u = [])"
  shows "\<exists>s'. paso (Responder i r) s = Some s' \<and> ls s' = ls s \<and>
    (\<forall>j<length (tabs s). j \<noteq> i \<longrightarrow> tabs s' ! j = tabs s ! j) \<and>
    t_alerts (tabs s' ! i) = t_alerts (tabs s ! i) @ [MSG_NOMBRE] \<and>
    t_doc (tabs s' ! i) = t_doc (tabs s ! i) \<and> t_prompt (tabs s' ! i) = None"
proof -
  from assms(2) obtain cs k where pr: "t_prompt (tabs s ! i) = Some (cs, k)" by auto
  have f: "seleccionar_fin (cs, k) r (pagina_de s i) = Inr (alert MSG_NOMBRE (pagina_de s i))"
    using assms(3) by (rule seleccionar_fin_sin_nombre)
  let ?q = "alert MSG_NOMBRE (pagina_de s i)"
  have c: "con_pagina i ?q s =
      set_tab i (\<lambda>t. t\<lparr>t_session := session_st ?q, t_doc := doc ?q, t_alerts := alerts ?q\<rparr>) s"
    by (rule con_pagina_mismo) simp
  let ?s' = "set_tab i (\<lambda>t. t\<lparr>t_prompt := None\<rparr>) (con_pagina i ?q s)"
  have p: "paso (Responder i r) s = Some ?s'" using assms(1) pr f by simp
  show ?thesis
    using p assms(1) by (intro exI [of _ ?s']) (simp add: app_simps c)
qed

theorem cancelar_sin_efecto_witness:
  "0 < length (tabs (the (ejecutar [Abrir doc0, Abrir doc0, Cargar 0, Cargar 1, Escribir 0 (js ''Tacos''),
      ClickAgregar 0 5, ClickBoton 0 0] \<lparr>ls = Map.empty, tabs = []\<rparr>))) \<and>
   t_prompt (tabs (the (ejecutar [Abrir doc0, Abrir doc0, Cargar 0, Cargar 1, Escribir 0 (js ''Tacos''),
      ClickAgregar 0 5, ClickBoton 0 0] \<lparr>ls = Map.empty, tabs = []\<rparr>)) ! 0) \<noteq> None \<and>
   (\<exists>s'. paso (Responder 0 None) (the (ejecutar [Abrir doc0, Abrir doc0, Cargar 0, Cargar 1,
      Escribir 0 (js ''Tacos''), ClickAgregar 0 5, ClickBoton 0 0] \<lparr>ls = Map.empty, tabs = []\<rparr>)) = Some s' \<and>
    ls s' = ls (the (ejecutar [Abrir doc0, Abrir doc0, Cargar 0, Cargar 1, Escribir 0 (js ''Tacos''),
      ClickAgregar 0 5, ClickBoton 0 0] \<lparr>ls = Map.empty, tabs = []\<rparr>)) \<and>
    tabs s' ! 1 = tabs (the (ejecutar [Abrir doc0, Abrir doc0, Cargar 0, Cargar 1, Escribir 0 (js ''Tacos''),
      ClickAgregar 0 5, ClickBoton 0 0] \<lparr>ls = Map.empty, tabs = []\<rparr>)) ! 1)"
proof -
  let ?S = "the (ejecutar [Abrir doc0, Abrir doc0, Cargar 0, Cargar 1, Escribir 0 (js ''Tacos''),
      ClickAgregar 0 5, ClickBoton 0 0] \<lparr>ls = Map.empty, tabs = []\<rparr>)"
  have h1: "0 < length (tabs ?S)" by code_simp
  have h2: "t_prompt (tabs ?S ! 0) \<noteq> None" by code_simp
  have h3: "1 < length (tabs ?S)" by code_simp
  have r: "(None :: jstr option) = None \<or> (\<exists>u. (None :: jstr option) = Some u \<and> js_trim u = [])" by simp
  from cancelar_sin_efecto [OF h1 h2 r] h1 h2 h3 show ?thesis by (auto simp del: ejecutar.simps)
qed

end
